(* ===== verification/Prelude.thy ===== *)
theory Prelude
  imports Main "HOL-Library.Word" "HOL-Library.Sublist"
begin

section \<open>Shared types, encodings and interfaces\<close>

text \<open>
  Types and lemmas shared by every component. A Rust \<open>u8\<close>, \<open>u16\<close>, \<open>u32\<close> or \<open>u64\<close> is a word of
  that width; a \<open>Vec<u8>\<close> or \<open>&[u8]\<close> is a list of bytes; a \<open>str\<close> is the list of its UTF-8 bytes,
  written as a HOL string (a HOL \<open>char\<close> is one byte). A fallible operation returns a sum whose
  left summand is the error. Points in time (\<open>Instant\<close>, \<open>SystemTime\<close>) are natural numbers and
  are passed to the operations that read a clock; adding a lifetime that a peer or a configuration
  chooses panics beyond the range of an \<open>i64\<close> number of seconds.

  The theory holds the big-endian encodings used on the wire and in hash inputs, the
  length-prefixed concatenations whose unambiguity several components rely on, and the two
  interfaces that more than one component implements: an operation that accepts a value at
  most once (replay protection), and a counter that hands out values (AEAD nonces).
\<close>

unbundle bit_operations_syntax

type_synonym byte = "8 word"
type_synonym bytes = "byte list"
type_synonym u16 = "16 word"
type_synonym u32 = "32 word"
type_synonym u64 = "64 word"
type_synonym time = nat

named_theorems wire_simps \<open>evaluation of the byte encodings\<close>
named_theorems result_simps \<open>evaluation of sum-valued operations\<close>

subsection \<open>Results\<close>

definition bind_result :: "'e + 'a \<Rightarrow> ('a \<Rightarrow> 'e + 'b) \<Rightarrow> 'e + 'b" where
  "bind_result r f = (case r of Inl e \<Rightarrow> Inl e | Inr x \<Rightarrow> f x)"

definition map_err :: "('e \<Rightarrow> 'f) \<Rightarrow> 'e + 'a \<Rightarrow> 'f + 'a" where
  "map_err g r = (case r of Inl e \<Rightarrow> Inl (g e) | Inr x \<Rightarrow> Inr x)"

definition ok_or :: "'e \<Rightarrow> 'a option \<Rightarrow> 'e + 'a" where
  "ok_or e x = (case x of None \<Rightarrow> Inl e | Some y \<Rightarrow> Inr y)"

lemma bind_result_simps [simp, result_simps]:
  "bind_result (Inl e) f = Inl e"
  "bind_result (Inr x) f = f x"
  by (simp_all add: bind_result_def)

lemma bind_result_Inr_iff: "bind_result r f = Inr y \<longleftrightarrow> (\<exists>x. r = Inr x \<and> f x = Inr y)"
  by (cases r) auto

lemma bind_result_Inl_iff:
  "bind_result r f = Inl e \<longleftrightarrow> r = Inl e \<or> (\<exists>x. r = Inr x \<and> f x = Inl e)"
  by (cases r) auto

lemma map_err_simps [simp, result_simps]:
  "map_err g (Inl e) = Inl (g e)"
  "map_err g (Inr x) = Inr x"
  by (simp_all add: map_err_def)

lemma map_err_Inr_iff [simp]: "map_err g r = Inr y \<longleftrightarrow> r = Inr y"
  by (cases r) auto

lemma ok_or_simps [simp, result_simps]:
  "ok_or e None = Inl e"
  "ok_or e (Some x) = Inr x"
  by (simp_all add: ok_or_def)

lemma ok_or_Inr_iff [simp]: "ok_or e x = Inr y \<longleftrightarrow> x = Some y"
  by (cases x) auto

definition instant_add :: "time \<Rightarrow> u64 \<Rightarrow> time option" where
  "instant_add now secs = (if now + unat secs < 2 ^ 63 then Some (now + unat secs) else None)"

lemma instant_add_Some_iff: "instant_add now secs = Some t \<longleftrightarrow> t = now + unat secs \<and> now + unat secs < 2 ^ 63"
  by (auto simp: instant_add_def)

subsection \<open>Big-endian integers\<close>

fun be_bytes :: "nat \<Rightarrow> nat \<Rightarrow> bytes" where
  "be_bytes 0 n = []"
| "be_bytes (Suc k) n = be_bytes k (n div 256) @ [word_of_nat n]"

definition of_be :: "bytes \<Rightarrow> nat" where
  "of_be bs = foldl (\<lambda>a b. a * 256 + unat b) 0 bs"

definition be64 :: "u64 \<Rightarrow> bytes" where "be64 w = be_bytes 8 (unat w)"
definition be32 :: "u32 \<Rightarrow> bytes" where "be32 w = be_bytes 4 (unat w)"
definition be16 :: "u16 \<Rightarrow> bytes" where "be16 w = be_bytes 2 (unat w)"

definition u64_of_be :: "bytes \<Rightarrow> u64" where "u64_of_be bs = word_of_nat (of_be bs)"
definition u32_of_be :: "bytes \<Rightarrow> u32" where "u32_of_be bs = word_of_nat (of_be bs)"

lemma length_be_bytes [simp]: "length (be_bytes k n) = k"
  by (induction k n rule: be_bytes.induct) auto

lemma length_be64 [simp]: "length (be64 w) = 8" by (simp add: be64_def)
lemma length_be32 [simp]: "length (be32 w) = 4" by (simp add: be32_def)
lemma length_be16 [simp]: "length (be16 w) = 2" by (simp add: be16_def)

lemma of_be_be_bytes: "of_be (be_bytes k n) = n mod 256 ^ k"
proof (induction k n rule: be_bytes.induct)
  case (1 n)
  show ?case by (simp add: of_be_def)
next
  case (2 k n)
  have "of_be (be_bytes (Suc k) n) = of_be (be_bytes k (n div 256)) * 256 + n mod 256"
    by (simp add: of_be_def unsigned_of_nat take_bit_eq_mod)
  also have "\<dots> = n mod 256 ^ Suc k"
    unfolding 2 by (simp add: mod_mult2_eq)
  finally show ?case .
qed

lemma be_bytes_inj:
  assumes "be_bytes k m = be_bytes k n" "m < 256 ^ k" "n < 256 ^ k"
  shows "m = n"
  using arg_cong [OF assms(1), of of_be] assms(2,3) by (simp add: of_be_be_bytes)

lemma unat_less_64: "unat (w :: u64) < 18446744073709551616"
  using unsigned_less [of w, where 'a = nat] by simp

lemma unat_less_32: "unat (w :: u32) < 4294967296"
  using unsigned_less [of w, where 'a = nat] by simp

lemma unat_less_16: "unat (w :: u16) < 65536"
  using unsigned_less [of w, where 'a = nat] by simp

lemma unat_less_8: "unat (w :: byte) < 256"
  using unsigned_less [of w, where 'a = nat] by simp

lemma u64_of_be_be64 [simp]: "u64_of_be (be64 w) = w"
  using unat_less_64 [of w] by (simp add: u64_of_be_def be64_def of_be_be_bytes)

lemma u32_of_be_be32 [simp]: "u32_of_be (be32 w) = w"
  using unat_less_32 [of w] by (simp add: u32_of_be_def be32_def of_be_be_bytes)

lemma be64_inj [simp]: "be64 v = be64 w \<longleftrightarrow> v = w"
  by (metis u64_of_be_be64)

lemma be32_inj [simp]: "be32 v = be32 w \<longleftrightarrow> v = w"
  by (metis u32_of_be_be32)

lemma be16_inj [simp]: "be16 v = be16 w \<longleftrightarrow> v = w"
proof
  assume "be16 v = be16 w"
  then have "of_be (be_bytes 2 (unat v)) = of_be (be_bytes 2 (unat w))"
    by (simp add: be16_def)
  then show "v = w"
    using unat_less_16 [of v] unat_less_16 [of w]
    by (simp add: of_be_be_bytes word_unat_eq_iff)
qed simp

subsection \<open>Length-prefixed fields\<close>

text \<open>
  \<open>lp64\<close> is a field preceded by its length as eight big-endian bytes. Two concatenations that
  start with such a field agree only if the fields agree and the rests agree.
\<close>

definition lp64 :: "bytes \<Rightarrow> bytes" where
  "lp64 bs = be_bytes 8 (length bs) @ bs"

lemma append_inj_length:
  "length a = length b \<Longrightarrow> a @ x = b @ y \<longleftrightarrow> a = b \<and> x = y"
  by auto

lemma be64_append_inj [simp]: "be64 v @ x = be64 w @ y \<longleftrightarrow> v = w \<and> x = y"
  by (simp add: append_inj_length)

lemma be32_append_inj [simp]: "be32 v @ x = be32 w @ y \<longleftrightarrow> v = w \<and> x = y"
  by (simp add: append_inj_length)

lemma be16_append_inj [simp]: "be16 v @ x = be16 w @ y \<longleftrightarrow> v = w \<and> x = y"
  by (simp add: append_inj_length)

lemma lp64_append_inj:
  assumes "length a < 2 ^ 64" "length b < 2 ^ 64"
  shows "lp64 a @ x = lp64 b @ y \<longleftrightarrow> a = b \<and> x = y"
proof
  assume eq: "lp64 a @ x = lp64 b @ y"
  then have "be_bytes 8 (length a) = be_bytes 8 (length b)"
    and rest: "a @ x = b @ y"
    by (simp_all add: lp64_def append_inj_length)
  then have "length a = length b"
    using assms be_bytes_inj [of 8 "length a" "length b"] by simp
  with rest show "a = b \<and> x = y" by simp
qed simp

lemma lp64_inj: "length a < 2 ^ 64 \<Longrightarrow> length b < 2 ^ 64 \<Longrightarrow> lp64 a = lp64 b \<longleftrightarrow> a = b"
  using lp64_append_inj [of a b "[]" "[]"] by simp

subsection \<open>Rust integer operations\<close>

definition checked_add1 :: "u64 \<Rightarrow> u64 option" where
  "checked_add1 w = (if w = - 1 then None else Some (w + 1))"

definition saturating_sub :: "'w::len word \<Rightarrow> 'w word \<Rightarrow> 'w word" where
  "saturating_sub a b = (if b \<le> a then a - b else 0)"

lemma checked_add1_Some_iff: "checked_add1 w = Some v \<longleftrightarrow> w \<noteq> - 1 \<and> v = w + 1"
  by (auto simp: checked_add1_def)

lemma unat_Suc_word:
  fixes w :: u64
  assumes "w \<noteq> - 1"
  shows "unat (w + 1) = Suc (unat w)"
proof -
  have "1 + w \<noteq> 0" using assms by (metis add.commute eq_neg_iff_add_eq_0)
  from unatSuc [OF this] show ?thesis by (simp add: add.commute)
qed

lemma unat_saturating_sub: "unat (saturating_sub a b) = unat a - unat b"
  by (auto simp: saturating_sub_def unat_sub word_le_nat_alt)

subsection \<open>Strings\<close>

definition str_bytes :: "string \<Rightarrow> bytes" where
  "str_bytes s = map (\<lambda>c. word_of_nat (of_char c)) s"

definition bytes_str :: "bytes \<Rightarrow> string" where
  "bytes_str bs = map (\<lambda>b. char_of (unat b)) bs"

lemma length_str_bytes [simp]: "length (str_bytes s) = length s"
  by (simp add: str_bytes_def)

lemma unat_of_char [simp]: "unat (word_of_nat (of_char c) :: byte) = of_char c"
  by (simp add: unsigned_of_nat take_bit_nat_eq_self_iff of_char_of)

lemma bytes_str_str_bytes [simp]: "bytes_str (str_bytes s) = s"
  by (induction s) (simp_all add: bytes_str_def str_bytes_def)

lemma str_bytes_append [simp]: "str_bytes (s @ t) = str_bytes s @ str_bytes t"
  by (simp add: str_bytes_def)

lemma zero_in_str_bytes [simp]: "0 \<in> set (str_bytes s) \<longleftrightarrow> char_of (0 :: nat) \<in> set s"
proof -
  have "(word_of_nat (of_char c) :: byte) = 0 \<longleftrightarrow> c = char_of (0 :: nat)" for c
  proof -
    have "(word_of_nat (of_char c) :: byte) = 0 \<longleftrightarrow> of_char c = (0 :: nat)"
      unfolding word_unat_eq_iff unat_of_char by simp
    also have "\<dots> \<longleftrightarrow> c = char_of (0 :: nat)"
      by (metis char_of_char of_char_mod_256 of_char_of mod_0)
    finally show ?thesis .
  qed
  then show ?thesis by (force simp: str_bytes_def image_iff eq_commute [of 0])
qed

lemma str_bytes_inj [simp]: "str_bytes s = str_bytes t \<longleftrightarrow> s = t"
  by (metis bytes_str_str_bytes)

subsection \<open>Hash maps\<close>

text \<open>
  A \<open>HashMap\<close> is an association list with distinct keys; the list order stands for the iteration
  order, which the source leaves unspecified, so every lemma is about all orders.
\<close>

definition hm_remove :: "'k \<Rightarrow> ('k \<times> 'v) list \<Rightarrow> ('k \<times> 'v) list" where
  "hm_remove k m = filter (\<lambda>(k', _). k' \<noteq> k) m"

definition hm_insert :: "'k \<Rightarrow> 'v \<Rightarrow> ('k \<times> 'v) list \<Rightarrow> ('k \<times> 'v) list" where
  "hm_insert k v m = (k, v) # hm_remove k m"

definition hm_retain :: "('v \<Rightarrow> bool) \<Rightarrow> ('k \<times> 'v) list \<Rightarrow> ('k \<times> 'v) list" where
  "hm_retain P m = filter (\<lambda>(_, v). P v) m"

abbreviation hm_wf :: "('k \<times> 'v) list \<Rightarrow> bool" where
  "hm_wf m \<equiv> distinct (map fst m)"

lemma hm_wf_filter [simp]: "hm_wf m \<Longrightarrow> hm_wf (filter P m)"
  by (rule distinct_map_filter)

lemma hm_wf_remove [simp]: "hm_wf m \<Longrightarrow> hm_wf (hm_remove k m)"
  by (simp add: hm_remove_def)

lemma hm_wf_retain [simp]: "hm_wf m \<Longrightarrow> hm_wf (hm_retain P m)"
  by (simp add: hm_retain_def)

lemma hm_wf_insert [simp]: "hm_wf m \<Longrightarrow> hm_wf (hm_insert k v m)"
  by (auto simp: hm_insert_def hm_remove_def intro: distinct_map_filter)

lemma map_of_hm_remove [simp]: "map_of (hm_remove k m) k' = (if k' = k then None else map_of m k')"
  by (induction m) (auto simp: hm_remove_def)

lemma map_of_hm_insert [simp]: "map_of (hm_insert k v m) k' = (if k' = k then Some v else map_of m k')"
  by (auto simp: hm_insert_def)

lemma map_of_hm_retain:
  "hm_wf m \<Longrightarrow> map_of (hm_retain P m) k = (case map_of m k of Some v \<Rightarrow> if P v then Some v else None | None \<Rightarrow> None)"
proof (induction m)
  case (Cons x m)
  have "map_of (filter (\<lambda>(_, v). P v) m) (fst x) = None"
    using Cons.prems by (auto simp: map_of_eq_None_iff)
  with Cons show ?case by (cases x) (auto simp: hm_retain_def)
qed (simp add: hm_retain_def)

lemma length_hm_remove_le: "length (hm_remove k m) \<le> length m"
  by (simp add: hm_remove_def)

lemma length_hm_remove_less: "k \<in> fst ` set m \<Longrightarrow> length (hm_remove k m) < length m"
proof (induction m)
  case (Cons x m)
  then show ?case using length_filter_le [of "\<lambda>(k', _). k' \<noteq> k" m]
    by (cases "fst x = k") (auto simp: hm_remove_def less_Suc_eq_le image_iff split: prod.splits)
qed simp

lemma hm_remove_absent: "map_of m k = None \<Longrightarrow> hm_remove k m = m"
  by (force simp: hm_remove_def map_of_eq_None_iff filter_id_conv)

lemma length_hm_remove_present:
  "hm_wf m \<Longrightarrow> map_of m k \<noteq> None \<Longrightarrow> Suc (length (hm_remove k m)) = length m"
proof (induction m)
  case (Cons x m)
  show ?case
  proof (cases "fst x = k")
    case True
    with Cons.prems have "map_of m k = None" by (auto simp: map_of_eq_None_iff)
    with True show ?thesis using hm_remove_absent [of m k] by (auto simp: hm_remove_def split: prod.splits)
  next
    case False
    with Cons show ?thesis by (auto simp: hm_remove_def split: prod.splits if_splits)
  qed
qed simp

lemma length_hm_retain_le: "length (hm_retain P m) \<le> length m"
  by (simp add: hm_retain_def)

subsection \<open>Interface: values accepted at most once\<close>

text \<open>
  A guard step takes a state and a value and returns whether the value is accepted and the next
  state. \<open>accepted_by\<close> lists what a sequence of attempts gets accepted. The locale states the
  contract by a relation between the state and the set of values accepted so far; the state
  need not determine that set.
\<close>

primrec accepted_by :: "('g \<Rightarrow> 'n \<Rightarrow> bool \<times> 'g) \<Rightarrow> 'g \<Rightarrow> 'n list \<Rightarrow> 'n list" where
  "accepted_by step g [] = []"
| "accepted_by step g (n # ns) =
     (case step g n of (ok, g') \<Rightarrow>
        if ok then n # accepted_by step g' ns else accepted_by step g' ns)"

primrec guard_run :: "('g \<Rightarrow> 'n \<Rightarrow> bool \<times> 'g) \<Rightarrow> 'g \<Rightarrow> 'n list \<Rightarrow> 'g" where
  "guard_run step g [] = g"
| "guard_run step g (n # ns) = guard_run step (snd (step g n)) ns"

locale once_only =
  fixes step :: "'g \<Rightarrow> 'n \<Rightarrow> bool \<times> 'g"
    and seen :: "'g \<Rightarrow> 'n set \<Rightarrow> bool"
  assumes step_fresh: "seen g A \<Longrightarrow> step g n = (True, g') \<Longrightarrow> n \<notin> A"
    and step_accept: "seen g A \<Longrightarrow> step g n = (True, g') \<Longrightarrow> seen g' (insert n A)"
    and step_reject: "seen g A \<Longrightarrow> step g n = (False, g') \<Longrightarrow> seen g' A"
begin

lemma accepted_fresh: "seen g A \<Longrightarrow> set (accepted_by step g ns) \<inter> A = {}"
proof (induction ns arbitrary: g A)
  case (Cons n ns)
  obtain ok g' where st: "step g n = (ok, g')" by fastforce
  show ?case
  proof (cases ok)
    case True
    with st Cons.prems have "n \<notin> A" and "seen g' (insert n A)"
      using step_fresh step_accept by auto
    with Cons.IH [of g' "insert n A"] st True show ?thesis by auto
  next
    case False
    with st Cons.prems have "seen g' A" using step_reject by auto
    with Cons.IH [of g' A] st False show ?thesis by auto
  qed
qed simp

lemma accepted_distinct: "seen g A \<Longrightarrow> distinct (accepted_by step g ns)"
proof (induction ns arbitrary: g A)
  case (Cons n ns)
  obtain ok g' where st: "step g n = (ok, g')" by fastforce
  show ?case
  proof (cases ok)
    case True
    with st Cons.prems have s': "seen g' (insert n A)" using step_accept by auto
    from Cons.IH [OF s'] accepted_fresh [OF s', of ns] st True show ?thesis by auto
  next
    case False
    with st Cons.prems have "seen g' A" using step_reject by auto
    from Cons.IH [OF this] st False show ?thesis by auto
  qed
qed simp

lemma run_seen: "seen g A \<Longrightarrow> seen (guard_run step g ns) (A \<union> set (accepted_by step g ns))"
proof (induction ns arbitrary: g A)
  case (Cons n ns)
  obtain ok g' where st: "step g n = (ok, g')" by fastforce
  show ?case
  proof (cases ok)
    case True
    with st Cons.prems have "seen g' (insert n A)" using step_accept by auto
    from Cons.IH [OF this] st True show ?thesis by simp
  next
    case False
    with st Cons.prems have "seen g' A" using step_reject by auto
    from Cons.IH [OF this] st False show ?thesis by simp
  qed
qed simp

end

subsection \<open>Interface: sources of fresh values\<close>

text \<open>
  A source step takes a state and an input and returns a result and the next state; a right result
  carries the value handed out (for instance an AEAD nonce). \<open>issued_by\<close> lists what a sequence of
  calls hands out. The locale's contract gives that no value is handed out twice.
\<close>

primrec issued_by :: "('s \<Rightarrow> 'i \<Rightarrow> ('e + 'n) \<times> 's) \<Rightarrow> 's \<Rightarrow> 'i list \<Rightarrow> 'n list" where
  "issued_by step s [] = []"
| "issued_by step s (i # is) =
     (case step s i of
        (Inl e, s') \<Rightarrow> issued_by step s' is
      | (Inr n, s') \<Rightarrow> n # issued_by step s' is)"

locale fresh_source =
  fixes step :: "'s \<Rightarrow> 'i \<Rightarrow> ('e + 'n) \<times> 's"
    and used :: "'s \<Rightarrow> 'n set \<Rightarrow> bool"
  assumes issue_fresh: "used s A \<Longrightarrow> step s i = (Inr n, s') \<Longrightarrow> n \<notin> A"
    and issue_used: "used s A \<Longrightarrow> step s i = (Inr n, s') \<Longrightarrow> used s' (insert n A)"
    and fail_used: "used s A \<Longrightarrow> step s i = (Inl e, s') \<Longrightarrow> used s' A"
begin

lemma issued_fresh: "used s A \<Longrightarrow> set (issued_by step s is) \<inter> A = {}"
proof (induction "is" arbitrary: s A)
  case (Cons i "is")
  obtain r s' where st: "step s i = (r, s')" by fastforce
  show ?case
  proof (cases r)
    case (Inl e)
    with st Cons.prems have "used s' A" using fail_used by auto
    from Cons.IH [OF this] st Inl show ?thesis by simp
  next
    case (Inr n)
    with st Cons.prems have "n \<notin> A" "used s' (insert n A)" using issue_fresh issue_used by auto
    with Cons.IH [of s' "insert n A"] st Inr show ?thesis by auto
  qed
qed simp

lemma issued_distinct: "used s A \<Longrightarrow> distinct (issued_by step s is)"
proof (induction "is" arbitrary: s A)
  case (Cons i "is")
  obtain r s' where st: "step s i = (r, s')" by fastforce
  show ?case
  proof (cases r)
    case (Inl e)
    with st Cons.prems have "used s' A" using fail_used by auto
    from Cons.IH [OF this] st Inl show ?thesis by simp
  next
    case (Inr n)
    with st Cons.prems have u: "used s' (insert n A)" using issue_used by auto
    from Cons.IH [OF u] issued_fresh [OF u, of "is"] st Inr show ?thesis by auto
  qed
qed simp

end

end
