(* ===== verification/Replay_Guard.thy ===== *)
theory Replay_Guard
  imports Prelude
begin

section \<open>The sliding-window replay guard\<close>

text \<open>
  \<open>openhttpa-core/src/replay_guard.rs\<close>. A guard is the highest accepted nonce and \<open>W\<close> words of
  64 bits; nonce \<open>n\<close> has the bit \<open>(n / W) mod 64\<close> of word \<open>n mod W\<close>. The array length \<open>W\<close> is the
  length of the list \<open>window\<close>. \<open>usize\<close> is taken as 64 bits wide. The mutex of the source makes
  every method one step of the model.

  The refinement lemmas relate the guard to the set of all nonces accepted so far: the bit of a
  nonce inside the window is set exactly when the nonce is in that set.
\<close>

datatype ReplayError = Replay u64 | TooOld u64 | StorageError string

record ReplayGuard =
  highest :: u64
  window :: "u64 list"

definition guard_new :: "nat \<Rightarrow> ReplayGuard" where
  "guard_new W = \<lparr>highest = 0, window = replicate W 0\<rparr>"

definition guard_slot :: "nat \<Rightarrow> u64 \<Rightarrow> nat" where
  "guard_slot W nonce = unat nonce mod W"

definition guard_mask :: "nat \<Rightarrow> u64 \<Rightarrow> u64" where
  "guard_mask W nonce = push_bit ((unat nonce div W) mod 64) 1"

definition guard_check :: "ReplayGuard \<Rightarrow> u64 \<Rightarrow> ReplayError + unit" where
  "guard_check g nonce =
     (let W = length (window g) in
      if nonce = 0 then Inl (TooOld nonce)
      else if nonce > highest g then Inr ()
      else if unat (highest g - nonce) \<ge> W * 64 then Inl (TooOld nonce)
      else if (window g ! guard_slot W nonce) AND guard_mask W nonce \<noteq> 0 then Inl (Replay nonce)
      else Inr ())"

primrec guard_reclaim :: "nat \<Rightarrow> u64 \<Rightarrow> nat \<Rightarrow> u64 list \<Rightarrow> u64 list" where
  "guard_reclaim W h 0 w = w"
| "guard_reclaim W h (Suc step) w =
     (let w' = guard_reclaim W h step w;
          reclaimed = h + of_nat (Suc step);
          slot = guard_slot W reclaimed
      in w'[slot := (w' ! slot) AND NOT (guard_mask W reclaimed)])"

definition guard_accept :: "ReplayGuard \<Rightarrow> u64 \<Rightarrow> ReplayGuard" where
  "guard_accept g nonce =
     (let W = length (window g);
          g1 = (if nonce > highest g then
                  (let advance = unat (nonce - highest g);
                       w = (if advance \<ge> W * 64 then replicate W 0
                            else guard_reclaim W (highest g) advance (window g))
                   in \<lparr>highest = nonce, window = w\<rparr>)
                else g);
          slot = guard_slot W nonce
      in g1\<lparr>window := (window g1)[slot := (window g1 ! slot) OR guard_mask W nonce]\<rparr>)"

definition guard_check_and_accept ::
    "ReplayGuard \<Rightarrow> u64 \<Rightarrow> (ReplayError + unit) \<times> ReplayGuard" where
  "guard_check_and_accept g nonce =
     (case guard_check g nonce of
        Inl e \<Rightarrow> (Inl e, g)
      | Inr u \<Rightarrow> (Inr (), guard_accept g nonce))"

definition guard_export_state :: "ReplayGuard \<Rightarrow> u64 \<times> u64 list" where
  "guard_export_state g = (highest g, window g)"

definition guard_import_state :: "ReplayGuard \<Rightarrow> u64 \<Rightarrow> u64 list \<Rightarrow> ReplayGuard" where
  "guard_import_state g h w = g\<lparr>highest := h, window := w\<rparr>"

subsection \<open>Bit positions\<close>

definition guard_pos :: "nat \<Rightarrow> nat \<Rightarrow> nat" where
  "guard_pos W n = n mod (W * 64)"

definition guard_bit :: "u64 list \<Rightarrow> nat \<Rightarrow> bool" where
  "guard_bit w n \<longleftrightarrow> bit (w ! (n mod length w)) ((n div length w) mod 64)"

lemma guard_pos_eq_iff:
  "guard_pos W m = guard_pos W n \<longleftrightarrow>
     m mod W = n mod W \<and> (m div W) mod 64 = (n div W) mod 64"
proof (cases "W = 0")
  case False
  have split: "guard_pos W k = W * ((k div W) mod 64) + k mod W" for k
    by (simp add: guard_pos_def mod_mult2_eq)
  show ?thesis
  proof
    assume eq: "guard_pos W m = guard_pos W n"
    then have "guard_pos W m mod W = guard_pos W n mod W" by simp
    then have md: "m mod W = n mod W" by (simp add: split)
    with eq False have "(m div W) mod 64 = (n div W) mod 64" by (simp add: split)
    with md show "m mod W = n mod W \<and> (m div W) mod 64 = (n div W) mod 64" ..
  qed (simp add: split)
qed (simp add: guard_pos_def)

lemma mask_test: "(x :: u64) AND guard_mask W nonce \<noteq> 0 \<longleftrightarrow> bit x ((unat nonce div W) mod 64)"
proof -
  have "x AND guard_mask W nonce = (if bit x ((unat nonce div W) mod 64) then guard_mask W nonce else 0)"
    unfolding guard_mask_def
    by (rule bit_eqI) (auto simp: bit_simps)
  moreover have "guard_mask W nonce \<noteq> 0"
    using push_bit_eq_0_iff
    by (auto simp: guard_mask_def bit_eq_iff bit_simps intro!: exI [of _ "(unat nonce div W) mod 64"])
  ultimately show ?thesis by simp
qed

lemma bit_guard_mask:
  "bit (guard_mask W nonce) i \<longleftrightarrow> i = (unat nonce div W) mod 64"
  by (auto simp: guard_mask_def bit_simps)

lemma guard_pos_inj:
  assumes "guard_pos W m = guard_pos W n" "m \<le> n" "n - m < W * 64"
  shows "m = n"
proof -
  from assms(1,2) have "W * 64 dvd n - m"
    using mod_eq_dvd_iff_nat [of m n "W * 64"] by (auto simp: guard_pos_def)
  with assms(3) have "n - m = 0" using dvd_imp_le by fastforce
  with assms(2) show ?thesis by simp
qed

lemma guard_pos_inj_window:
  assumes "m \<le> h" "n \<le> h" "h - m < W * 64" "h - n < W * 64"
  shows "guard_pos W m = guard_pos W n \<longleftrightarrow> m = n"
proof
  assume eq: "guard_pos W m = guard_pos W n"
  show "m = n"
  proof (cases "m \<le> n")
    case True
    have "n - m < W * 64" using assms by linarith
    with eq True show ?thesis by (rule guard_pos_inj)
  next
    case False
    then have "n \<le> m" and "m - n < W * 64" using assms by linarith+
    with eq [symmetric] show ?thesis by (rule guard_pos_inj [symmetric])
  qed
qed simp

lemma guard_bit_set:
  assumes "w \<noteq> []"
  shows "guard_bit (w[guard_slot (length w) n := (w ! guard_slot (length w) n) OR guard_mask (length w) n]) m
           \<longleftrightarrow> guard_bit w m \<or> guard_pos (length w) m = guard_pos (length w) (unat n)"
  using assms
  by (auto simp: guard_bit_def guard_slot_def guard_pos_eq_iff nth_list_update bit_simps bit_guard_mask)

lemma guard_bit_clear:
  assumes "w \<noteq> []"
  shows "guard_bit (w[guard_slot (length w) n := (w ! guard_slot (length w) n) AND NOT (guard_mask (length w) n)]) m
           \<longleftrightarrow> guard_bit w m \<and> guard_pos (length w) m \<noteq> guard_pos (length w) (unat n)"
  using assms
  by (auto simp: guard_bit_def guard_slot_def guard_pos_eq_iff nth_list_update bit_simps bit_guard_mask)

lemma length_guard_reclaim [simp]: "length (guard_reclaim W h k w) = length w"
  by (induction k) (auto simp: Let_def)

lemma unat_add_of_nat:
  fixes h :: u64
  assumes "unat h + k < 18446744073709551616"
  shows "unat (h + of_nat k) = unat h + k"
  using assms by (simp add: unat_word_ariths unsigned_of_nat take_bit_eq_mod)

lemma guard_bit_reclaim:
  assumes "w \<noteq> []" "unat h + k < 18446744073709551616"
  shows "guard_bit (guard_reclaim (length w) h k w) m \<longleftrightarrow>
           guard_bit w m \<and> (\<forall>j\<in>{1..k}. guard_pos (length w) m \<noteq> guard_pos (length w) (unat h + j))"
  using assms(2)
proof (induction k)
  case (Suc k)
  let ?w = "guard_reclaim (length w) h k w"
  have ne: "?w \<noteq> []" using assms(1) by (metis length_0_conv length_guard_reclaim)
  have u: "unat (h + of_nat (Suc k)) = unat h + Suc k"
    using Suc.prems by (rule unat_add_of_nat)
  have "guard_bit (guard_reclaim (length w) h (Suc k) w) m \<longleftrightarrow>
          guard_bit ?w m \<and> guard_pos (length w) m \<noteq> guard_pos (length w) (unat h + Suc k)"
    using guard_bit_clear [OF ne, of "h + of_nat (Suc k)" m] u by (simp add: Let_def del: of_nat_Suc)
  moreover have "{1..Suc k} = insert (Suc k) {1..k}" by auto
  ultimately show ?case using Suc.IH Suc.prems by auto
qed simp

subsection \<open>Refinement to the set of accepted nonces\<close>

definition guard_seen :: "ReplayGuard \<Rightarrow> u64 set \<Rightarrow> bool" where
  "guard_seen g A \<longleftrightarrow>
     window g \<noteq> [] \<and> (\<forall>n\<in>A. n \<noteq> 0 \<and> n \<le> highest g) \<and> (highest g = 0 \<or> highest g \<in> A) \<and>
     (\<forall>n. n \<noteq> 0 \<longrightarrow> n \<le> highest g \<longrightarrow> unat (highest g) - unat n < length (window g) * 64 \<longrightarrow>
        (guard_bit (window g) (unat n) \<longleftrightarrow> n \<in> A))"

definition spec_check :: "nat \<Rightarrow> u64 \<Rightarrow> u64 set \<Rightarrow> u64 \<Rightarrow> ReplayError + unit" where
  "spec_check sz h A n =
     (if n = 0 \<or> unat n + sz \<le> unat h then Inl (TooOld n)
      else if n \<in> A then Inl (Replay n) else Inr ())"

lemma guard_seen_new: "0 < W \<Longrightarrow> guard_seen (guard_new W) {}"
  by (auto simp: guard_seen_def guard_new_def)

lemma unat_diff: "(a :: u64) \<le> b \<Longrightarrow> unat (b - a) = unat b - unat a"
  by (simp add: unat_sub word_le_nat_alt)

lemma guard_check_spec:
  assumes "guard_seen g A"
  shows "guard_check g n = spec_check (length (window g) * 64) (highest g) A n"
proof -
  consider "n = 0" | "n > highest g" "n \<noteq> 0" | "n \<le> highest g" "n \<noteq> 0" by fastforce
  then show ?thesis
  proof cases
    case 2
    then have "n \<notin> A" using assms by (auto simp: guard_seen_def)
    with 2 show ?thesis
      by (auto simp: guard_check_def spec_check_def Let_def word_less_nat_alt)
  next
    case 3
    have *: "guard_bit (window g) (unat n) \<longleftrightarrow> n \<in> A"
      if "unat (highest g) - unat n < length (window g) * 64"
      using assms 3 that by (simp add: guard_seen_def)
    show ?thesis
    proof (cases "length (window g) * 64 \<le> unat (highest g) - unat n")
      case True
      with 3 show ?thesis
        by (auto simp: guard_check_def spec_check_def Let_def unat_diff word_le_nat_alt
              word_less_nat_alt)
    next
      case False
      with 3 * show ?thesis
        by (auto simp: guard_check_def spec_check_def Let_def unat_diff word_le_nat_alt word_less_nat_alt mask_test
              guard_bit_def guard_slot_def)
    qed
  qed (simp add: guard_check_def spec_check_def)
qed

lemma guard_accept_length [simp]: "length (window (guard_accept g n)) = length (window g)"
  by (simp add: guard_accept_def Let_def)

lemma guard_accept_highest: "highest (guard_accept g n) = max (highest g) n"
  by (auto simp: guard_accept_def Let_def max_def)

lemma guard_bit_accept_old:
  assumes "window g \<noteq> []" "n \<le> highest g"
  shows "guard_bit (window (guard_accept g n)) m \<longleftrightarrow>
           guard_bit (window g) m \<or> guard_pos (length (window g)) m = guard_pos (length (window g)) (unat n)"
proof -
  have "\<not> n > highest g" using assms(2) by simp
  with guard_bit_set [OF assms(1), of n m] show ?thesis by (simp add: guard_accept_def Let_def)
qed

lemma guard_bit_replicate [simp]: "0 < W \<Longrightarrow> \<not> guard_bit (replicate W 0) m"
  by (simp add: guard_bit_def)

lemma guard_bit_accept_new:
  assumes "window g \<noteq> []" "n > highest g" "unat m \<le> unat n" "unat n - unat m < length (window g) * 64"
  shows "guard_bit (window (guard_accept g n)) (unat m) \<longleftrightarrow>
           m = n \<or> (m \<le> highest g \<and> guard_bit (window g) (unat m))"
proof -
  let ?W = "length (window g)" and ?h = "unat (highest g)"
  let ?adv = "unat n - ?h"
  let ?w = "if ?adv \<ge> ?W * 64 then replicate ?W 0 else guard_reclaim ?W (highest g) ?adv (window g)"
  have lt: "?h < unat n" and adv: "unat (n - highest g) = ?adv"
    using assms(2) by (simp_all add: word_less_nat_alt unat_diff word_le_nat_alt)
  have ne: "?w \<noteq> []" and len: "length ?w = ?W"
    using assms(1) by (auto dest: arg_cong [of _ _ length])
  have "guard_bit (window (guard_accept g n)) (unat m) \<longleftrightarrow>
          guard_bit ?w (unat m) \<or> guard_pos ?W (unat m) = guard_pos ?W (unat n)"
    using guard_bit_set [OF ne, of n "unat m"] assms(2) adv len
    by (simp add: guard_accept_def Let_def)
  moreover have "guard_pos ?W (unat m) = guard_pos ?W (unat n) \<longleftrightarrow> m = n"
    using guard_pos_inj [of ?W "unat m" "unat n"] assms(3,4) by (auto simp: word_unat_eq_iff)
  moreover have "guard_bit ?w (unat m) \<longleftrightarrow> m \<le> highest g \<and> guard_bit (window g) (unat m)"
    if "m \<noteq> n"
  proof (cases "?adv \<ge> ?W * 64")
    case True
    then have "\<not> m \<le> highest g" using assms(4) lt by (auto simp: word_le_nat_alt)
    with True assms(1) show ?thesis by simp
  next
    case False
    have "?h + ?adv < 18446744073709551616" using lt unat_less_64 [of n] by simp
    note rec = guard_bit_reclaim [OF assms(1) this, of "unat m"]
    show ?thesis
    proof (cases "m \<le> highest g")
      case True
      have "guard_pos ?W (unat m) \<noteq> guard_pos ?W (?h + j)" if j: "j \<in> {1..?adv}" for j
      proof -
        have "unat m \<le> ?h" using True by (simp add: word_le_nat_alt)
        then have "unat m < ?h + j" "?h + j - unat m < ?W * 64" using j lt assms(4) by auto
        then show ?thesis using guard_pos_inj [of ?W "unat m" "?h + j"] by auto
      qed
      with True False rec show ?thesis by simp
    next
      case gt: False
      then have "unat m - ?h \<in> {1..?adv}" "?h + (unat m - ?h) = unat m"
        using assms(3) by (auto simp: word_le_nat_alt)
      then have "\<exists>j\<in>{1..?adv}. guard_pos ?W (unat m) = guard_pos ?W (?h + j)" by metis
      with gt False rec show ?thesis by simp
    qed
  qed
  ultimately show ?thesis by blast
qed

lemma guard_seen_accept:
  assumes "guard_seen g A" "n \<noteq> 0" "unat (highest g) < unat n + length (window g) * 64"
  shows "guard_seen (guard_accept g n) (insert n A)"
proof -
  let ?g = "guard_accept g n" and ?W = "length (window g)"
  have ne: "window g \<noteq> []" and A: "\<And>m. m \<in> A \<Longrightarrow> m \<noteq> 0 \<and> m \<le> highest g"
    and top: "highest g = 0 \<or> highest g \<in> A"
    and inv: "\<And>m. m \<noteq> 0 \<Longrightarrow> m \<le> highest g \<Longrightarrow> unat (highest g) - unat m < ?W * 64 \<Longrightarrow>
      guard_bit (window g) (unat m) \<longleftrightarrow> m \<in> A"
    using assms(1) by (auto simp: guard_seen_def)
  have "guard_bit (window ?g) (unat m) \<longleftrightarrow> m \<in> insert n A"
    if m: "m \<noteq> 0" "m \<le> highest ?g" "unat (highest ?g) - unat m < ?W * 64" for m
  proof (cases "n > highest g")
    case True
    then have h: "highest ?g = n" by (simp add: guard_accept_highest)
    have "guard_bit (window ?g) (unat m) \<longleftrightarrow> m = n \<or> (m \<le> highest g \<and> guard_bit (window g) (unat m))"
      using guard_bit_accept_new [OF ne True, of m] m h by (simp add: word_le_nat_alt)
    moreover have "unat (highest g) - unat m < ?W * 64"
      using m h True by (simp add: word_less_nat_alt)
    ultimately show ?thesis using inv [of m] m A [of m] by (cases "m \<le> highest g") auto
  next
    case False
    then have h: "highest ?g = highest g" by (simp add: guard_accept_highest)
    have "guard_pos ?W (unat m) = guard_pos ?W (unat n) \<longleftrightarrow> unat m = unat n"
    proof (rule guard_pos_inj_window [of _ "unat (highest g)"])
      show "unat (highest g) - unat n < ?W * 64"
        using assms(3) ne by (metis add.commute less_diff_conv2 nat_le_linear diff_is_0_eq length_greater_0_conv mult_pos_pos zero_less_numeral)
    qed (use m h False in \<open>simp_all add: word_le_nat_alt word_less_nat_alt\<close>)
    then have "guard_pos ?W (unat m) = guard_pos ?W (unat n) \<longleftrightarrow> m = n"
      by (simp add: word_unat_eq_iff)
    with guard_bit_accept_old [OF ne, of n "unat m"] inv [of m] m h False show ?thesis by auto
  qed
  moreover have "window ?g \<noteq> []" using ne by (metis guard_accept_length length_0_conv)
  moreover have "\<forall>m\<in>insert n A. m \<noteq> 0 \<and> m \<le> highest ?g"
    using A assms(2) by (auto simp: guard_accept_highest le_max_iff_disj)
  moreover have "highest ?g = 0 \<or> highest ?g \<in> insert n A"
    using top by (auto simp: guard_accept_highest max_def)
  ultimately show ?thesis by (simp add: guard_seen_def)
qed

lemma guard_seen_highest:
  assumes "guard_seen g A"
  shows "highest g = Max (insert 0 A)"
proof (rule sym, rule Max_eqI)
  show "finite (insert 0 A)" by simp
  show "highest g \<in> insert 0 A" using assms by (auto simp: guard_seen_def)
  show "\<And>y. y \<in> insert 0 A \<Longrightarrow> y \<le> highest g" using assms by (auto simp: guard_seen_def)
qed

subsection \<open>The contract and its consequences\<close>

definition guard_attempt :: "ReplayGuard \<Rightarrow> u64 \<Rightarrow> bool \<times> ReplayGuard" where
  "guard_attempt g n = (case guard_check_and_accept g n of (r, g') \<Rightarrow> (\<not> isl r, g'))"

lemma guard_attempt_simp:
  "guard_attempt g n = (if guard_check g n = Inr () then (True, guard_accept g n) else (False, g))"
  by (auto simp: guard_attempt_def guard_check_and_accept_def split: sum.splits)

lemma guard_checked_seen:
  assumes "guard_seen g A" "guard_check g n = Inr ()"
  shows "n \<notin> A" "guard_seen (guard_accept g n) (insert n A)"
proof -
  from assms have ok: "n \<noteq> 0" "unat (highest g) < unat n + length (window g) * 64" "n \<notin> A"
    by (auto simp: guard_check_spec spec_check_def split: if_splits)
  then show "n \<notin> A" "guard_seen (guard_accept g n) (insert n A)"
    using guard_seen_accept [OF assms(1)] by auto
qed

interpretation window_guard: once_only guard_attempt guard_seen
  by unfold_locales (auto simp: guard_attempt_simp dest: guard_checked_seen split: if_splits)

lemma guard_run_length [simp]:
  "length (window (guard_run guard_attempt g ns)) = length (window g)"
  by (induction ns arbitrary: g) (auto simp: guard_attempt_simp)

text \<open>
  C8. After any sequence of \<open>check_and_accept\<close> calls on a fresh guard of \<open>W\<close> words, \<open>check\<close> decides
  a nonce exactly as the reference definition over the set \<open>A\<close> of all nonces accepted so far:
  nonce zero and nonces at least \<open>W * 64\<close> below the highest accepted one are too old, members of
  \<open>A\<close> are replays, everything else is fresh.
\<close>
theorem guard_check_refines_set:
  assumes "0 < W"
  shows "guard_check (guard_run guard_attempt (guard_new W) ns) n =
           (let A = set (accepted_by guard_attempt (guard_new W) ns)
            in spec_check (W * 64) (Max (insert 0 A)) A n)"
proof -
  let ?A = "set (accepted_by guard_attempt (guard_new W) ns)"
  have "guard_seen (guard_run guard_attempt (guard_new W) ns) ?A"
    using window_guard.run_seen [OF guard_seen_new [OF assms(1)], of ns] by simp
  from guard_check_spec [OF this, of n] guard_seen_highest [OF this] show ?thesis
    by (simp add: guard_new_def Let_def)
qed

lemma guard_reclaim_numeral [simp]:
  "guard_reclaim W h (numeral k) w =
     (let w' = guard_reclaim W h (pred_numeral k) w;
          reclaimed = h + of_nat (numeral k);
          slot = guard_slot W reclaimed
      in w'[slot := (w' ! slot) AND NOT (guard_mask W reclaimed)])"
  by (simp only: numeral_eq_Suc guard_reclaim.simps)

lemmas guard_eval_simps = guard_attempt_simp guard_check_def guard_accept_def guard_new_def
  guard_slot_def guard_mask_def Let_def

lemma guard_eval: "accepted_by guard_attempt (guard_new 1) [2, 3, 2, 100, 1] = [2, 3, 100]"
  by (simp add: guard_eval_simps)

theorem guard_check_refines_set_witness:
  "(0::nat) < 1 \<and>
   guard_check (guard_run guard_attempt (guard_new 1) [2, 3, 2, 100, 1]) 100 = Inl (Replay 100) \<and>
   guard_check (guard_run guard_attempt (guard_new 1) [2, 3, 2, 100, 1]) 2 = Inl (TooOld 2) \<and>
   guard_check (guard_run guard_attempt (guard_new 1) [2, 3, 2, 100, 1]) 70 = Inr ()"
proof -
  have "Max {0, 2, 3, 100 :: u64} = 100" by (rule Max_eqI) auto
  with guard_check_refines_set [of 1 "[2, 3, 2, 100, 1]"]
  have "guard_check (guard_run guard_attempt (guard_new 1) [2, 3, 2, 100, 1]) n =
          spec_check 64 100 {2, 3, 100} n" for n
    by (simp only: guard_eval Let_def list.set mult_1 zero_less_one)
  then show ?thesis by (simp add: spec_check_def del: guard_run.simps)
qed

text \<open>
  No nonce is accepted twice by one guard, whatever the order and number of attempts.
\<close>
lemma guard_accepts_once:
  assumes "0 < W"
  shows "distinct (accepted_by guard_attempt (guard_new W) ns)"
  by (rule window_guard.accepted_distinct [OF guard_seen_new [OF assms]])

end
