(* ===== verification/Protocol_State.thy ===== *)
theory Protocol_State
  imports Prelude
begin

section \<open>Protocol phases and the pre-shared key store\<close>

text \<open>
  \<open>openhttpa-core/src/state.rs\<close>: the phase machine of a session (\<open>transition\<close>), and \<open>PskStore\<close>,
  the bounded store of single-use resumption keys. Instants are passed in; the write lock of the
  source makes each operation one step.
\<close>

datatype ProtocolPhase =
    Init | Preflight | AtHsInProgress | Attested | AtSpInProgress
  | SecretProvisioned | Rtt0 | Terminated

datatype TransitionError =
    InvalidTransition ProtocolPhase ProtocolPhase
  | NotPermitted ProtocolPhase

fun allows_trusted_request :: "ProtocolPhase \<Rightarrow> bool" where
  "allows_trusted_request Attested = True"
| "allows_trusted_request SecretProvisioned = True"
| "allows_trusted_request Rtt0 = True"
| "allows_trusted_request _ = False"

definition transition :: "ProtocolPhase \<Rightarrow> ProtocolPhase \<Rightarrow> TransitionError + ProtocolPhase" where
  "transition current next =
     (let valid = (case current of
          Init \<Rightarrow> next \<in> {Preflight, AtHsInProgress, Rtt0}
        | Preflight \<Rightarrow> next = AtHsInProgress
        | AtHsInProgress \<Rightarrow> next = Attested
        | Attested \<Rightarrow> next \<in> {AtSpInProgress, Terminated}
        | AtSpInProgress \<Rightarrow> next = SecretProvisioned
        | SecretProvisioned \<Rightarrow> next = Terminated
        | Rtt0 \<Rightarrow> next \<in> {Attested, Terminated}
        | Terminated \<Rightarrow> False)
      in if valid then Inr next else Inl (InvalidTransition current next))"

record PskEntry =
  psk :: bytes
  psk_expires_at :: time

record PskStore =
  tickets :: "(bytes \<times> PskEntry) list"
  max_capacity :: nat
  psk_ttl :: time

definition psk_store_new :: PskStore where
  "psk_store_new = \<lparr>tickets = [], max_capacity = 10000, psk_ttl = 86400\<rparr>"

definition with_ttl :: "PskStore \<Rightarrow> time \<Rightarrow> PskStore" where
  "with_ttl s ttl = s\<lparr>psk_ttl := ttl\<rparr>"

definition with_capacity :: "PskStore \<Rightarrow> nat \<Rightarrow> PskStore" where
  "with_capacity s cap = s\<lparr>max_capacity := cap\<rparr>"

primrec min_by_key :: "('a \<Rightarrow> nat) \<Rightarrow> 'a list \<Rightarrow> 'a option" where
  "min_by_key f [] = None"
| "min_by_key f (x # xs) =
     (case min_by_key f xs of
        None \<Rightarrow> Some x
      | Some y \<Rightarrow> if f x \<le> f y then Some x else Some y)"

lemma min_by_key_in: "min_by_key f xs = Some y \<Longrightarrow> y \<in> set xs"
  by (induction xs arbitrary: y) (auto split: option.splits if_splits)

lemma min_by_key_None [simp]: "min_by_key f xs = None \<longleftrightarrow> xs = []"
  by (cases xs) (auto split: option.splits)

lemma min_by_key_le: "min_by_key f xs = Some y \<Longrightarrow> x \<in> set xs \<Longrightarrow> f y \<le> f x"
proof (induction xs arbitrary: y)
  case (Cons a xs)
  show ?case
  proof (cases "min_by_key f xs")
    case None
    with Cons.prems show ?thesis by simp
  next
    case (Some z)
    with Cons.prems Cons.IH [OF Some] show ?thesis by (auto split: if_splits)
  qed
qed simp

function psk_evict :: "nat \<Rightarrow> (bytes \<times> PskEntry) list \<Rightarrow> (bytes \<times> PskEntry) list" where
  "psk_evict cap m =
     (if length m \<ge> cap then
        (case min_by_key (\<lambda>(_, v). psk_expires_at v) m of
           None \<Rightarrow> m
         | Some (k, v) \<Rightarrow> psk_evict cap (hm_remove k m))
      else m)"
  by pat_completeness auto
termination
  by (relation "measure (\<lambda>(cap, m). length m)")
    (force intro: length_hm_remove_less dest: min_by_key_in)+

definition store_psk :: "PskStore \<Rightarrow> time \<Rightarrow> bytes \<Rightarrow> bytes \<Rightarrow> bool \<times> PskStore" where
  "store_psk s now ticket_id key =
     (let ts = hm_retain (\<lambda>v. psk_expires_at v > now) (tickets s);
          ts = psk_evict (max_capacity s) ts
      in if length ts \<ge> max_capacity s then (False, s\<lparr>tickets := ts\<rparr>)
         else (True, s\<lparr>tickets := hm_insert ticket_id
                 \<lparr>psk = key, psk_expires_at = now + psk_ttl s\<rparr> ts\<rparr>))"

definition take_psk :: "PskStore \<Rightarrow> time \<Rightarrow> bytes \<Rightarrow> bytes option \<times> PskStore" where
  "take_psk s now ticket_id =
     (let s' = s\<lparr>tickets := hm_remove ticket_id (tickets s)\<rparr>
      in case map_of (tickets s) ticket_id of
           Some e \<Rightarrow> if psk_expires_at e > now then (Some (psk e), s') else (None, s')
         | None \<Rightarrow> (None, s'))"

definition purge_expired :: "PskStore \<Rightarrow> time \<Rightarrow> PskStore" where
  "purge_expired s now = s\<lparr>tickets := hm_retain (\<lambda>v. psk_expires_at v > now) (tickets s)\<rparr>"

definition psk_len :: "PskStore \<Rightarrow> nat" where
  "psk_len s = length (tickets s)"

definition psk_is_empty :: "PskStore \<Rightarrow> bool" where
  "psk_is_empty s \<longleftrightarrow> tickets s = []"

subsection \<open>Runs of the phase machine\<close>

text \<open>
  \<open>phase_step\<close> lists the arrows of the protocol; \<open>transition\<close> accepts exactly them. A run applies
  \<open>transition\<close> to a list of requested phases and stops at the first refusal.
\<close>

inductive phase_step :: "ProtocolPhase \<Rightarrow> ProtocolPhase \<Rightarrow> bool" where
  preflight: "phase_step Init Preflight"
| handshake: "p \<in> {Init, Preflight} \<Longrightarrow> phase_step p AtHsInProgress"
| resume: "phase_step Init Rtt0"
| attested: "p \<in> {AtHsInProgress, Rtt0} \<Longrightarrow> phase_step p Attested"
| provision: "phase_step Attested AtSpInProgress"
| provisioned: "phase_step AtSpInProgress SecretProvisioned"
| terminated: "p \<in> {Attested, SecretProvisioned, Rtt0} \<Longrightarrow> phase_step p Terminated"

inductive_cases phase_stepE: "phase_step p q"

lemma transition_phase_step: "transition p q = Inr r \<longleftrightarrow> phase_step p q \<and> r = q"
  by (cases p; cases q) (auto simp: transition_def intro: phase_step.intros elim: phase_stepE)

primrec phase_run :: "ProtocolPhase \<Rightarrow> ProtocolPhase list \<Rightarrow> TransitionError + ProtocolPhase" where
  "phase_run p [] = Inr p"
| "phase_run p (q # qs) = bind_result (transition p q) (\<lambda>r. phase_run r qs)"

lemma phase_run_Cons: "phase_run p (q # qs) = Inr r \<longleftrightarrow> phase_step p q \<and> phase_run q qs = Inr r"
  by (auto simp: bind_result_Inr_iff transition_phase_step)

fun phase_rank :: "ProtocolPhase \<Rightarrow> nat" where
  "phase_rank Init = 0"
| "phase_rank Preflight = 1"
| "phase_rank AtHsInProgress = 2"
| "phase_rank Rtt0 = 2"
| "phase_rank Attested = 3"
| "phase_rank AtSpInProgress = 4"
| "phase_rank SecretProvisioned = 5"
| "phase_rank Terminated = 6"

lemma phase_step_rank: "phase_step p q \<Longrightarrow> phase_rank p < phase_rank q"
  by (auto elim!: phase_stepE)

lemma phase_run_rank:
  "phase_run p qs = Inr r \<Longrightarrow> phase_rank p + length qs \<le> phase_rank r"
proof (induction qs arbitrary: p)
  case (Cons q qs)
  then have "phase_step p q" and "phase_run q qs = Inr r" by (simp_all only: phase_run_Cons)
  with Cons.IH [of q] phase_step_rank [of p q] show ?case by simp
qed simp

lemma phase_run_above: "phase_run p qs = Inr r \<Longrightarrow> q \<in> set qs \<Longrightarrow> phase_rank p < phase_rank q"
proof (induction qs arbitrary: p)
  case (Cons a qs)
  then have "phase_step p a" and run: "phase_run a qs = Inr r" by (simp_all only: phase_run_Cons)
  then have "phase_rank p < phase_rank a" by (blast intro: phase_step_rank)
  with Cons.IH [OF run] Cons.prems(2) show ?case by fastforce
qed simp

lemma phase_run_distinct: "phase_run p qs = Inr r \<Longrightarrow> distinct (p # qs)"
proof (induction qs arbitrary: p)
  case (Cons a qs)
  then have "phase_run a qs = Inr r" by (simp only: phase_run_Cons)
  then have "distinct (a # qs)" by (rule Cons.IH)
  moreover have "p \<notin> set (a # qs)" using phase_run_above [OF Cons.prems] by fastforce
  ultimately show ?case by simp
qed simp

lemma phase_run_handshake:
  assumes "phase_run AtHsInProgress qs = Inr r" "r \<noteq> AtHsInProgress"
  shows "\<exists>ys. qs = Attested # ys" and "Rtt0 \<notin> set qs"
proof -
  from assms obtain q ys where q: "qs = q # ys" by (cases qs) auto
  with assms(1) have "phase_step AtHsInProgress q" by (simp only: phase_run_Cons)
  with q show "\<exists>ys. qs = Attested # ys" by (auto elim: phase_stepE)
  show "Rtt0 \<notin> set qs" using phase_run_above [OF assms(1), of Rtt0] by auto
qed

lemma phase_run_entry:
  "phase_run p qs = Inr r \<Longrightarrow> p \<in> {Init, Preflight} \<Longrightarrow> r \<notin> {Init, Preflight, AtHsInProgress} \<Longrightarrow>
     (p = Init \<and> hd qs = Rtt0 \<and> Rtt0 \<in> set qs \<and> AtHsInProgress \<notin> set qs) \<or>
     ((\<exists>xs ys. qs = xs @ AtHsInProgress # Attested # ys \<and> set xs \<subseteq> {Preflight}) \<and> Rtt0 \<notin> set qs)"
proof (induction qs arbitrary: p)
  case (Cons q qs)
  then have st: "phase_step p q" and run: "phase_run q qs = Inr r" by (simp_all only: phase_run_Cons)
  from st Cons.prems(2) consider "q = Preflight" | "q = AtHsInProgress" | "q = Rtt0" "p = Init"
    by (auto elim: phase_stepE)
  then show ?case
  proof cases
    case 1
    with Cons.IH [OF run] Cons.prems(3) obtain xs ys where
      "qs = xs @ AtHsInProgress # Attested # ys" "set xs \<subseteq> {Preflight}" "Rtt0 \<notin> set qs" by auto
    with 1 show ?thesis by (intro disjI2 conjI exI [of _ "Preflight # xs"] exI [of _ ys]) auto
  next
    case 2
    with phase_run_handshake [of qs r] run Cons.prems(3) obtain ys where "qs = Attested # ys" "Rtt0 \<notin> set qs" by auto
    with 2 show ?thesis by (intro disjI2 conjI exI [of _ "[]"] exI [of _ ys]) auto
  next
    case 3
    with phase_run_above [OF run, of AtHsInProgress] show ?thesis by auto
  qed
qed auto

lemma trusted_phase_rank: "allows_trusted_request p \<Longrightarrow> phase_rank p \<le> 5"
  by (cases p) auto

text \<open>
  C35. There are exactly two ways from \<open>Init\<close> to a phase that allows trusted requests. Either the first
  transition is a 0-RTT resumption, and then the run contains no attestation handshake at all; or the run
  never resumes and, after at most a preflight, goes through the handshake and directly on to \<open>Attested\<close>. No phase is
  entered twice and such a run has at most five transitions.
\<close>
theorem trusted_only_after_attestation:
  assumes "phase_run Init ps = Inr p" and "allows_trusted_request p"
  shows "(if Rtt0 \<in> set ps then hd ps = Rtt0 \<and> AtHsInProgress \<notin> set ps
          else \<exists>xs ys. ps = xs @ AtHsInProgress # Attested # ys \<and> set xs \<subseteq> {Preflight}) \<and>
         distinct (Init # ps) \<and> length ps \<le> 5"
proof -
  have "p \<notin> {Init, Preflight, AtHsInProgress}" using assms(2) by auto
  with phase_run_entry [OF assms(1)] phase_run_distinct [OF assms(1)] phase_run_rank [OF assms(1)]
    trusted_phase_rank [OF assms(2)] show ?thesis by auto
qed

theorem trusted_only_after_attestation_witness:
  "phase_run Init [Preflight, AtHsInProgress, Attested] = Inr Attested \<and> phase_run Init [Rtt0] = Inr Rtt0 \<and>
   (\<exists>xs ys. [Preflight, AtHsInProgress, Attested] = xs @ AtHsInProgress # Attested # ys) \<and> AtHsInProgress \<notin> set [Rtt0]"
proof -
  have a: "phase_run Init [Preflight, AtHsInProgress, Attested] = Inr Attested" by (simp add: transition_def)
  have b: "phase_run Init [Rtt0] = Inr Rtt0" by (simp add: transition_def)
  show ?thesis
    using a b trusted_only_after_attestation [OF a] trusted_only_after_attestation [OF b] by auto
qed

subsection \<open>The key store\<close>

declare psk_evict.simps [simp del]

definition psk_inv :: "PskStore \<Rightarrow> bool" where
  "psk_inv s \<longleftrightarrow> hm_wf (tickets s) \<and> length (tickets s) \<le> max_capacity s"

lemma psk_evict_stop: "length m < cap \<or> m = [] \<Longrightarrow> psk_evict cap m = m"
  by (subst psk_evict.simps) auto

lemma psk_evict_go:
  "cap \<le> length m \<Longrightarrow> min_by_key (\<lambda>(_, v). psk_expires_at v) m = Some (k, v) \<Longrightarrow>
     psk_evict cap m = psk_evict cap (hm_remove k m)"
  by (subst psk_evict.simps) simp

lemma psk_evict_loop_induct [case_names stop go]:
  assumes "\<And>m. length m < cap \<or> m = [] \<Longrightarrow> P m"
    and "\<And>m k v. cap \<le> length m \<Longrightarrow> min_by_key (\<lambda>(_, v). psk_expires_at v) m = Some (k, v) \<Longrightarrow>
           P (hm_remove k m) \<Longrightarrow> P m"
  shows "P m"
proof (induction m rule: measure_induct_rule [where f = length])
  case (less m)
  show ?case
  proof (cases "length m < cap \<or> m = []")
    case False
    then obtain k v where min: "min_by_key (\<lambda>(_, v). psk_expires_at v) m = Some (k, v)"
      by (cases "min_by_key (\<lambda>(_, v). psk_expires_at v) m") auto
    then have "length (hm_remove k m) < length m"
      using min_by_key_in [OF min] by (force intro: length_hm_remove_less)
    with False min less assms(2) show ?thesis by (meson not_less)
  qed (rule assms(1))
qed

lemma psk_evict_wf: "hm_wf m \<Longrightarrow> hm_wf (psk_evict cap m)"
  by (induction m rule: psk_evict_loop_induct [of cap]) (auto simp: psk_evict_stop psk_evict_go)

lemma psk_evict_length: "length (psk_evict cap m) < cap \<or> psk_evict cap m = []"
  by (induction m rule: psk_evict_loop_induct [of cap]) (auto simp: psk_evict_stop psk_evict_go)

lemma psk_evict_subset: "set (psk_evict cap m) \<subseteq> set m"
proof (induction m rule: psk_evict_loop_induct [of cap])
  case (go m k v)
  then show ?case by (auto simp: psk_evict_go hm_remove_def)
qed (simp add: psk_evict_stop)

lemma psk_evict_earliest:
  "hm_wf m \<Longrightarrow> x \<in> set m \<Longrightarrow> x \<notin> set (psk_evict cap m) \<Longrightarrow> y \<in> set (psk_evict cap m) \<Longrightarrow>
     psk_expires_at (snd x) \<le> psk_expires_at (snd y)"
proof (induction m rule: psk_evict_loop_induct [of cap])
  case (go m k v)
  note ev = psk_evict_go [OF go(1,2)]
  show ?case
  proof (cases "x \<in> set (hm_remove k m)")
    case True
    with go ev show ?thesis by simp
  next
    case False
    with go.prems(2) have "fst x = k" by (auto simp: hm_remove_def)
    then have "x = (k, v)"
      using go.prems(1,2) min_by_key_in [OF go(2)] by (metis eq_key_imp_eq_value prod.collapse)
    moreover have "y \<in> set m" using go.prems(4) psk_evict_subset by blast
    ultimately show ?thesis using min_by_key_le [OF go(2), of y] by (auto split: prod.splits)
  qed
qed (simp add: psk_evict_stop)

lemma store_psk_inv:
  assumes "psk_inv s"
  shows "psk_inv (snd (store_psk s now k v))"
proof -
  let ?m = "psk_evict (max_capacity s) (hm_retain (\<lambda>v. psk_expires_at v > now) (tickets s))"
  have "hm_wf ?m" using assms by (simp add: psk_inv_def psk_evict_wf)
  moreover have "length ?m < max_capacity s \<or> ?m = []" by (rule psk_evict_length)
  moreover have "length (hm_remove k ?m) \<le> length ?m" by (rule length_hm_remove_le)
  moreover have "hm_wf (hm_insert k w ?m)" for w using \<open>hm_wf ?m\<close> by simp
  ultimately show ?thesis
    by (auto simp: psk_inv_def store_psk_def Let_def hm_insert_def simp del: hm_wf_insert)
qed

lemma store_psk_ok: "fst (store_psk s now k v) \<longleftrightarrow> 0 < max_capacity s"
  using psk_evict_length [of "max_capacity s" "hm_retain (\<lambda>v. psk_expires_at v > now) (tickets s)"]
  by (auto simp: store_psk_def Let_def)

lemma take_psk_inv: "psk_inv s \<Longrightarrow> psk_inv (snd (take_psk s now k))"
  using length_hm_remove_le [of k "tickets s"]
  by (auto simp: psk_inv_def take_psk_def Let_def split: option.splits)

lemma purge_expired_inv: "psk_inv s \<Longrightarrow> psk_inv (purge_expired s now)"
  using length_hm_retain_le [of "\<lambda>v. psk_expires_at v > now" "tickets s"]
  by (auto simp: psk_inv_def purge_expired_def)

datatype psk_op = Store time bytes bytes | Take time bytes | Purge time

fun psk_apply :: "PskStore \<Rightarrow> psk_op \<Rightarrow> PskStore" where
  "psk_apply s (Store now k v) = snd (store_psk s now k v)"
| "psk_apply s (Take now k) = snd (take_psk s now k)"
| "psk_apply s (Purge now) = purge_expired s now"

lemma psk_apply_inv: "psk_inv s \<Longrightarrow> psk_inv (psk_apply s x)"
  by (cases x) (simp_all add: store_psk_inv take_psk_inv purge_expired_inv)

lemma psk_apply_capacity: "max_capacity (psk_apply s x) = max_capacity s"
  by (cases x) (simp_all add: store_psk_def take_psk_def purge_expired_def Let_def split: option.splits)

lemma psk_run_inv:
  "psk_inv s \<Longrightarrow> psk_inv (foldl psk_apply s xs) \<and> max_capacity (foldl psk_apply s xs) = max_capacity s"
  by (induction xs arbitrary: s) (simp_all add: psk_apply_inv psk_apply_capacity)

text \<open>
  In a store built by any sequence of operations the number of tickets never exceeds the
  capacity, and storing under a positive capacity always succeeds. The key is then returned by the
  first \<open>take_psk\<close> before its lifetime ends, and by no later one (single use).
\<close>
lemma psk_store_bounded_single_use:
  assumes "0 < cap"
  shows "let s = foldl psk_apply (with_capacity psk_store_new cap) xs;
             (ok, s1) = store_psk s now k v;
             (r1, s2) = take_psk s1 t1 k; (r2, s3) = take_psk s2 t2 k
         in psk_len s \<le> cap \<and> ok \<and> r1 = (if t1 < now + psk_ttl s then Some v else None) \<and> r2 = None"
proof -
  let ?init = "with_capacity psk_store_new cap"
  let ?s = "foldl psk_apply ?init xs"
  have "psk_inv ?init" by (simp add: psk_inv_def with_capacity_def psk_store_new_def)
  from psk_run_inv [OF this] have inv: "psk_inv ?s" and cap: "max_capacity ?s = cap"
    by (simp_all add: with_capacity_def psk_store_new_def)
  have "fst (store_psk ?s now k v)" using assms(1) cap by (simp add: store_psk_ok)
  with inv cap show ?thesis
    by (auto simp: psk_inv_def psk_len_def store_psk_def take_psk_def Let_def split: if_splits)
qed

text \<open>
  When \<open>store_psk\<close> must evict, it evicts the earliest expiries: every live ticket that it drops
  expires no later than every ticket that it keeps.
\<close>
lemma psk_eviction_earliest_first:
  assumes "psk_inv s" and "(k1, e1) \<in> set (tickets s)" and "now < psk_expires_at e1"
    and "(k1, e1) \<notin> set (tickets s')" and "store_psk s now k v = (True, s')" and "k1 \<noteq> k"
    and "(k2, e2) \<in> set (tickets s')" and "k2 \<noteq> k"
  shows "psk_expires_at e1 \<le> psk_expires_at e2"
proof -
  let ?live = "hm_retain (\<lambda>v. psk_expires_at v > now) (tickets s)"
  let ?kept = "psk_evict (max_capacity s) ?live"
  have t: "tickets s' = hm_insert k \<lparr>psk = v, psk_expires_at = now + psk_ttl s\<rparr> ?kept"
    using assms(5) by (auto simp: store_psk_def Let_def split: if_splits)
  have "(k1, e1) \<in> set ?live" using assms(2,3) by (simp add: hm_retain_def)
  moreover have "(k1, e1) \<notin> set ?kept" and "(k2, e2) \<in> set ?kept"
    using assms(4,6-8) t by (auto simp: hm_insert_def hm_remove_def)
  moreover have "hm_wf ?live" using assms(1) by (simp add: psk_inv_def)
  ultimately show ?thesis using psk_evict_earliest [of ?live "(k1, e1)" _ "(k2, e2)"] by simp
qed

end
