(* ===== verification/Aead_Nonces.thy ===== *)
theory Aead_Nonces
  imports Prelude
begin

section \<open>AEAD keys and nonce counters\<close>

text \<open>
  \<open>openhttpa-crypto/src/nonce.rs\<close> and \<open>openhttpa-crypto/src/aead.rs\<close>. The AEAD ciphers of the
  \<open>aws-lc-rs\<close> package are a parameter: a record of the key check, the sealing and the opening
  function. Compare-and-exchange loops are one step, since the step takes effect at the successful
  exchange.

  The outcome of file operations is an input of the operations that perform them. A failed
  temp-file write or rename leaves the file as it was; the eight-byte counter write of
  \<open>FileNonceSequence\<close> takes effect as a whole or not at all.

  The lemmas show that every sequence of AEAD nonces that one sealing key uses is free of
  repetitions, that the nonce determines its counter, and what happens when a counter reaches its
  maximum.
\<close>

subsection \<open>Nonce manager\<close>

datatype NonceError = NonceReplay u64 u64 | Overflow | Storage string

datatype nonce_file =
    Absent
  | Unreadable string
  | Malformed string
  | Fields "u64 option" "u64 option"

definition file_nonce_save ::
    "string option \<Rightarrow> nonce_file \<Rightarrow> u64 \<Rightarrow> u64 \<Rightarrow> (NonceError + unit) \<times> nonce_file" where
  "file_nonce_save io f next_send last_seen =
     (case io of
        Some e \<Rightarrow> (Inl (Storage e), f)
      | None \<Rightarrow> (Inr (), Fields (Some next_send) (Some last_seen)))"

fun file_nonce_load :: "nonce_file \<Rightarrow> NonceError + u64 \<times> u64" where
  "file_nonce_load Absent = Inr (1, 0)"
| "file_nonce_load (Unreadable e) = Inl (Storage e)"
| "file_nonce_load (Malformed e) = Inl (Storage e)"
| "file_nonce_load (Fields n l) =
     Inr (case n of Some x \<Rightarrow> x | None \<Rightarrow> 1, case l of Some x \<Rightarrow> x | None \<Rightarrow> 0)"

record NonceManager =
  next_send :: u64
  last_seen :: u64
  storage :: "nonce_file option"

definition nonce_manager_new :: NonceManager where
  "nonce_manager_new = \<lparr>next_send = 1, last_seen = 0, storage = None\<rparr>"

definition with_storage :: "nonce_file \<Rightarrow> NonceError + NonceManager" where
  "with_storage f =
     bind_result (file_nonce_load f)
       (\<lambda>(n, l). Inr \<lparr>next_send = n, last_seen = l, storage = Some f\<rparr>)"

definition next_send_nonce ::
    "NonceManager \<Rightarrow> string option \<Rightarrow> (NonceError + u64) \<times> NonceManager" where
  "next_send_nonce m io =
     (let prev = next_send m; m1 = m\<lparr>next_send := prev + 1\<rparr>
      in if prev = - 1 then (Inl Overflow, m1)
         else case storage m1 of
             None \<Rightarrow> (Inr prev, m1)
           | Some f \<Rightarrow>
               (case file_nonce_save io f (prev + 1) (last_seen m1) of
                  (Inl e, f') \<Rightarrow> (Inl e, m1\<lparr>storage := Some f'\<rparr>)
                | (Inr u, f') \<Rightarrow> (Inr prev, m1\<lparr>storage := Some f'\<rparr>)))"

definition validate_recv ::
    "NonceManager \<Rightarrow> string option \<Rightarrow> u64 \<Rightarrow> (NonceError + unit) \<times> NonceManager" where
  "validate_recv m io nonce =
     (if nonce \<le> last_seen m then (Inl (NonceReplay nonce (last_seen m)), m)
      else
        let m1 = m\<lparr>last_seen := nonce\<rparr>
        in case storage m1 of
             None \<Rightarrow> (Inr (), m1)
           | Some f \<Rightarrow>
               (case file_nonce_save io f (next_send m1) nonce of
                  (r, f') \<Rightarrow> (r, m1\<lparr>storage := Some f'\<rparr>)))"

definition build_aead_nonce :: "u64 \<Rightarrow> bytes \<Rightarrow> bytes" where
  "build_aead_nonce counter write_iv =
     take 4 write_iv @ map2 (XOR) (drop 4 write_iv) (be64 counter)"

subsection \<open>AEAD keys\<close>

datatype AeadAlgorithm = Aes256Gcm | ChaCha20Poly1305

definition key_len :: "AeadAlgorithm \<Rightarrow> nat" where
  "key_len a = 32"

datatype AeadError =
    KeyConstruction | SealFailed | OpenFailed | InvalidNonceLength | IoError string

record aead_lib =
  unbound_key_ok :: "AeadAlgorithm \<Rightarrow> bytes \<Rightarrow> bool"
  lib_seal :: "AeadAlgorithm \<Rightarrow> bytes \<Rightarrow> bytes \<Rightarrow> bytes \<Rightarrow> bytes \<Rightarrow> bytes option"
  lib_open :: "AeadAlgorithm \<Rightarrow> bytes \<Rightarrow> bytes \<Rightarrow> bytes \<Rightarrow> bytes \<Rightarrow> bytes option"

definition nonce_from_slice :: "bytes \<Rightarrow> AeadError + bytes" where
  "nonce_from_slice b = (if length b = 12 then Inr b else Inl InvalidNonceLength)"

record AeadKey =
  raw :: bytes
  algorithm :: AeadAlgorithm

definition aead_key_new :: "aead_lib \<Rightarrow> AeadAlgorithm \<Rightarrow> bytes \<Rightarrow> AeadError + AeadKey" where
  "aead_key_new L alg key_bytes =
     (if unbound_key_ok L alg key_bytes then Inr \<lparr>raw = key_bytes, algorithm = alg\<rparr>
      else Inl KeyConstruction)"

definition seal_in_place ::
    "aead_lib \<Rightarrow> AeadKey \<Rightarrow> bytes \<Rightarrow> bytes \<Rightarrow> bytes \<Rightarrow> AeadError + bytes" where
  "seal_in_place L k nonce aad data =
     (if \<not> unbound_key_ok L (algorithm k) (raw k) then Inl KeyConstruction
      else ok_or SealFailed (lib_seal L (algorithm k) (raw k) nonce aad data))"

definition open_in_place ::
    "aead_lib \<Rightarrow> AeadKey \<Rightarrow> bytes \<Rightarrow> bytes \<Rightarrow> bytes \<Rightarrow> AeadError + bytes" where
  "open_in_place L k nonce aad ct =
     (if \<not> unbound_key_ok L (algorithm k) (raw k) then Inl KeyConstruction
      else ok_or OpenFailed (lib_open L (algorithm k) (raw k) nonce aad ct))"

subsection \<open>Nonce sequences and bound keys\<close>

datatype BoundAeadError = NonceOverflow | Aead AeadError

definition atomic_next_nonce :: "bytes \<Rightarrow> u64 \<Rightarrow> (BoundAeadError + bytes) \<times> u64" where
  "atomic_next_nonce iv counter =
     (if counter = - 1 then (Inl NonceOverflow, counter)
      else (Inr (build_aead_nonce counter iv), counter + 1))"

datatype file_io =
    FileOk | MutexPoisoned | OpenFails string | LockFails string | ReadFails string
  | WriteFails string | SyncFails string

definition read_counter :: "bytes \<Rightarrow> u64" where
  "read_counter content = (if length content < 8 then 1 else u64_of_be (take 8 content))"

definition write_counter :: "bytes \<Rightarrow> u64 \<Rightarrow> bytes" where
  "write_counter content counter = be64 counter @ drop 8 content"

definition file_next_nonce ::
    "bytes \<Rightarrow> bytes \<Rightarrow> file_io \<Rightarrow> (BoundAeadError + bytes) \<times> bytes" where
  "file_next_nonce iv content io =
     (case io of
        MutexPoisoned \<Rightarrow> (Inl (Aead (IoError ''Mutex poisoned'')), content)
      | OpenFails e \<Rightarrow> (Inl (Aead (IoError e)), content)
      | LockFails e \<Rightarrow> (Inl (Aead (IoError (''lock failed: '' @ e))), content)
      | ReadFails e \<Rightarrow> (Inl (Aead (IoError (''read failed: '' @ e))), content)
      | _ \<Rightarrow>
        (let count = read_counter content
         in if count = - 1 then (Inl NonceOverflow, content)
            else case io of
                WriteFails e \<Rightarrow> (Inl (Aead (IoError (''write failed: '' @ e))), content)
              | SyncFails e \<Rightarrow>
                  (Inl (Aead (IoError (''write failed: '' @ e))), write_counter content (count + 1))
              | _ \<Rightarrow> (Inr (build_aead_nonce count iv), write_counter content (count + 1))))"

record BoundAeadKey =
  bound_key :: AeadKey
  write_iv :: bytes
  seq_counter :: u64

definition bound_aead_key_new ::
    "aead_lib \<Rightarrow> AeadAlgorithm \<Rightarrow> bytes \<Rightarrow> bytes \<Rightarrow> AeadError + BoundAeadKey" where
  "bound_aead_key_new L alg key_bytes iv =
     bind_result (aead_key_new L alg key_bytes)
       (\<lambda>k. Inr \<lparr>bound_key = k, write_iv = iv, seq_counter = 1\<rparr>)"

definition bound_seal ::
    "aead_lib \<Rightarrow> BoundAeadKey \<Rightarrow> bytes \<Rightarrow> bytes \<Rightarrow> (BoundAeadError + bytes \<times> bytes) \<times> BoundAeadKey" where
  "bound_seal L b aad data =
     (case atomic_next_nonce (write_iv b) (seq_counter b) of
        (Inl e, c) \<Rightarrow> (Inl e, b\<lparr>seq_counter := c\<rparr>)
      | (Inr nonce, c) \<Rightarrow>
          (bind_result (map_err Aead (seal_in_place L (bound_key b) nonce aad data))
             (\<lambda>ct. Inr (nonce, ct)), b\<lparr>seq_counter := c\<rparr>))"

definition bound_open :: "aead_lib \<Rightarrow> BoundAeadKey \<Rightarrow> bytes \<Rightarrow> bytes \<Rightarrow> bytes \<Rightarrow> AeadError + bytes" where
  "bound_open L b nonce aad ct = open_in_place L (bound_key b) nonce aad ct"

record BatchPayload =
  p_nonce :: bytes
  p_aad :: bytes
  p_ciphertext_with_tag :: bytes
  p_plaintext :: "bytes option"
  p_error :: "AeadError option"

definition open_batch :: "aead_lib \<Rightarrow> BoundAeadKey \<Rightarrow> BatchPayload list \<Rightarrow> BatchPayload list" where
  "open_batch L b ps =
     map (\<lambda>p. case bound_open L b (p_nonce p) (p_aad p) (p_ciphertext_with_tag p) of
            Inr pt \<Rightarrow> p\<lparr>p_ciphertext_with_tag := [], p_plaintext := Some pt, p_error := None\<rparr>
          | Inl e \<Rightarrow> p\<lparr>p_ciphertext_with_tag := [], p_plaintext := None, p_error := Some e\<rparr>) ps"

subsection \<open>The nonce determines its counter\<close>

lemma map2_xor_cancel:
  fixes xs :: "'a::len word list"
  shows "length xs = length ys \<Longrightarrow> map2 (XOR) xs (map2 (XOR) xs ys) = ys"
  by (induction xs ys rule: list_induct2) (auto simp: xor.assoc [symmetric])

lemma build_aead_nonce_counter:
  assumes "length iv = 12"
  shows "u64_of_be (map2 (XOR) (drop 4 iv) (drop 4 (build_aead_nonce c iv))) = c"
proof -
  have "drop 4 (build_aead_nonce c iv) = map2 (XOR) (drop 4 iv) (be64 c)"
    using assms by (simp add: build_aead_nonce_def)
  with assms show ?thesis by (simp add: map2_xor_cancel)
qed

lemma build_aead_nonce_inj:
  "length iv = 12 \<Longrightarrow> build_aead_nonce c iv = build_aead_nonce d iv \<longleftrightarrow> c = d"
  by (metis build_aead_nonce_counter)

lemma length_build_aead_nonce [simp]: "length iv = 12 \<Longrightarrow> length (build_aead_nonce c iv) = 12"
  by (simp add: build_aead_nonce_def)

text \<open>
  AEAD nonces have twelve bytes, and the counter can be recovered from a nonce and the write IV,
  so under one IV different counters give different nonces.
\<close>
lemma aead_nonce_injective:
  assumes "length iv = 12"
  shows "length (build_aead_nonce c iv) = 12 \<and>
         u64_of_be (map2 (XOR) (drop 4 iv) (drop 4 (build_aead_nonce c iv))) = c \<and>
         (build_aead_nonce c iv = build_aead_nonce d iv \<longleftrightarrow> c = d)"
  using assms by (simp add: build_aead_nonce_counter build_aead_nonce_inj)

subsection \<open>Nonces issued by one key\<close>

definition nonces_below :: "bytes \<Rightarrow> u64 \<Rightarrow> bytes set" where
  "nonces_below iv c = (\<lambda>d. build_aead_nonce d iv) ` {d. d < c}"

lemma nonces_below_fresh: "length iv = 12 \<Longrightarrow> build_aead_nonce c iv \<notin> nonces_below iv c"
  by (auto simp: nonces_below_def build_aead_nonce_inj)

lemma word_less_plus_one: "(c :: u64) \<noteq> - 1 \<Longrightarrow> d < c + 1 \<longleftrightarrow> d < c \<or> d = c"
  using unat_Suc_word [of c] by (auto simp: word_less_nat_alt word_unat_eq_iff)

lemma nonces_below_step:
  "c \<noteq> - 1 \<Longrightarrow> nonces_below iv (c + 1) = insert (build_aead_nonce c iv) (nonces_below iv c)"
  by (auto simp: nonces_below_def word_less_plus_one)

definition bound_seal_step ::
    "aead_lib \<Rightarrow> BoundAeadKey \<Rightarrow> bytes \<times> bytes \<Rightarrow> (BoundAeadError + bytes) \<times> BoundAeadKey" where
  "bound_seal_step L b x =
     (case bound_seal L b (fst x) (snd x) of (r, b') \<Rightarrow> (bind_result r (\<lambda>y. Inr (fst y)), b'))"

definition bound_used :: "BoundAeadKey \<Rightarrow> bytes set \<Rightarrow> bool" where
  "bound_used b A \<longleftrightarrow> length (write_iv b) = 12 \<and> A \<subseteq> nonces_below (write_iv b) (seq_counter b)"

lemma bound_seal_step_cases:
  assumes "bound_seal_step L b x = (r, b')"
  obtains "seq_counter b = - 1" "r = Inl NonceOverflow" "b' = b"
  | e where "seq_counter b \<noteq> - 1" "r = Inl e" "b' = b\<lparr>seq_counter := seq_counter b + 1\<rparr>"
  | "seq_counter b \<noteq> - 1" "r = Inr (build_aead_nonce (seq_counter b) (write_iv b))"
    "b' = b\<lparr>seq_counter := seq_counter b + 1\<rparr>"
proof (cases "seq_counter b = - 1")
  case True
  with assms have "r = Inl NonceOverflow" "b' = b"
    by (auto simp: bound_seal_step_def bound_seal_def atomic_next_nonce_def)
  with True that(1) show thesis by blast
next
  case False
  let ?n = "build_aead_nonce (seq_counter b) (write_iv b)"
  show thesis
    using assms False that(2,3)
    by (cases "seal_in_place L (bound_key b) ?n (fst x) (snd x)")
      (auto simp: bound_seal_step_def bound_seal_def atomic_next_nonce_def)
qed

interpretation sealer: fresh_source "bound_seal_step L" bound_used for L
proof unfold_locales
  fix b A x n b' assume "bound_used b A" "bound_seal_step L b x = (Inr n, b')"
  then show "n \<notin> A"
    by (auto simp: bound_used_def elim!: bound_seal_step_cases dest: nonces_below_fresh)
next
  fix b A x n b' assume "bound_used b A" "bound_seal_step L b x = (Inr n, b')"
  then show "bound_used b' (insert n A)"
    by (auto simp: bound_used_def nonces_below_step elim!: bound_seal_step_cases)
next
  fix b A x e b' assume "bound_used b A" "bound_seal_step L b x = (Inl e, b')"
  then show "bound_used b' A"
    by (auto simp: bound_used_def nonces_below_step elim!: bound_seal_step_cases)
qed

text \<open>
  C28. A bound key never uses an AEAD nonce for two messages, however many messages are sealed and
  whatever seals fail in between; at the end of the counter range it refuses to seal.
\<close>
theorem bound_key_nonces_distinct:
  assumes "length iv = 12" and "bound_aead_key_new L alg key iv = Inr b"
  shows "distinct (issued_by (bound_seal_step L) b xs)"
proof -
  have "bound_used b {}"
    using assms by (auto simp: bound_aead_key_new_def bind_result_Inr_iff bound_used_def)
  then show ?thesis by (rule sealer.issued_distinct)
qed

subsection \<open>What the AEAD package promises\<close>

text \<open>
  \<open>aead_correct\<close> states the documented behaviour of the package: a key is accepted when it has the
  algorithm's length, and opening inverts sealing under the same key, nonce and associated data.
  \<open>tagged_aead\<close> is a concrete instance (the tag is the key, nonce and associated data in clear).
\<close>

definition aead_correct :: "aead_lib \<Rightarrow> bool" where
  "aead_correct L \<longleftrightarrow>
     (\<forall>a k. unbound_key_ok L a k \<longleftrightarrow> length k = key_len a) \<and>
     (\<forall>a k n d pt ct. lib_seal L a k n d pt = Some ct \<longrightarrow> lib_open L a k n d ct = Some pt)"

definition tagged_aead :: aead_lib where
  "tagged_aead =
     \<lparr>unbound_key_ok = (\<lambda>a k. length k = key_len a),
      lib_seal = (\<lambda>a k n d pt. Some (pt @ k @ n @ d)),
      lib_open = (\<lambda>a k n d ct.
        let t = k @ n @ d; l = length ct - length t
        in if drop l ct = t then Some (take l ct) else None)\<rparr>"

lemma tagged_aead_correct: "aead_correct tagged_aead"
  by (simp add: aead_correct_def tagged_aead_def)

lemma aead_seal_open:
  assumes "aead_correct L" "seal_in_place L k n d pt = Inr ct"
  shows "open_in_place L k n d ct = Inr pt"
proof -
  have "unbound_key_ok L (algorithm k) (raw k)" "lib_seal L (algorithm k) (raw k) n d pt = Some ct"
    using assms(2) by (auto simp: seal_in_place_def split: if_splits)
  with assms(1) show ?thesis by (auto simp: aead_correct_def open_in_place_def)
qed

theorem bound_key_nonces_distinct_witness:
  "length (replicate 12 (0 :: byte)) = 12 \<and>
   (let b = \<lparr>bound_key = \<lparr>raw = replicate 32 7, algorithm = Aes256Gcm\<rparr>,
             write_iv = replicate 12 0, seq_counter = 1\<rparr>
    in bound_aead_key_new tagged_aead Aes256Gcm (replicate 32 7) (replicate 12 0) = Inr b \<and>
       distinct (issued_by (bound_seal_step tagged_aead) b [([], [1]), ([], [1])]))"
  using bound_key_nonces_distinct [of "replicate 12 0" tagged_aead Aes256Gcm "replicate 32 7"
      "\<lparr>bound_key = \<lparr>raw = replicate 32 7, algorithm = Aes256Gcm\<rparr>, write_iv = replicate 12 0,
        seq_counter = 1\<rparr>" "[([], [1]), ([], [1])]"]
  by (simp add: bound_aead_key_new_def aead_key_new_def tagged_aead_def key_len_def Let_def
      del: issued_by.simps)

lemma bound_seal_open:
  assumes "aead_correct L" "bound_seal L b d pt = (Inr (n, ct), b')"
  shows "bound_open L b' n d ct = Inr pt"
  using assms aead_seal_open
  by (auto simp: bound_seal_def bound_open_def atomic_next_nonce_def bind_result_Inr_iff
      split: if_splits)

text \<open>
  What a bound key seals, the peer's bound key for the same key opens, and in a batch of sealed
  payloads every payload is opened, independently of the others: payload \<open>i\<close> of the batch holds
  either its plaintext or its error.
\<close>
lemma bound_key_round_trip:
  assumes "aead_correct L" and "bound_seal L b d pt = (Inr (n, ct), b')"
    and "bound_key peer = bound_key b"
    and "ps ! i = \<lparr>p_nonce = n, p_aad = d, p_ciphertext_with_tag = ct, p_plaintext = None, p_error = None\<rparr>"
    and "i < length ps"
  shows "bound_open L peer n d ct = Inr pt \<and>
         p_plaintext (open_batch L peer ps ! i) = Some pt \<and> p_error (open_batch L peer ps ! i) = None"
proof -
  have "bound_key b' = bound_key b"
    using assms(2) by (auto simp: bound_seal_def atomic_next_nonce_def bind_result_Inr_iff split: if_splits)
  with bound_seal_open [OF assms(1,2)] assms(3) have "bound_open L peer n d ct = Inr pt"
    by (simp add: bound_open_def)
  with assms(4,5) show ?thesis by (simp add: open_batch_def)
qed

lemma tagged_seal_eval:
  "bound_seal tagged_aead \<lparr>bound_key = \<lparr>raw = replicate 32 7, algorithm = Aes256Gcm\<rparr>,
      write_iv = replicate 12 0, seq_counter = 1\<rparr> [9] [1, 2] =
    (Inr (build_aead_nonce 1 (replicate 12 0),
          [1, 2] @ replicate 32 7 @ build_aead_nonce 1 (replicate 12 0) @ [9]),
     \<lparr>bound_key = \<lparr>raw = replicate 32 7, algorithm = Aes256Gcm\<rparr>, write_iv = replicate 12 0, seq_counter = 2\<rparr>)"
  by (simp add: bound_seal_def atomic_next_nonce_def seal_in_place_def tagged_aead_def key_len_def)

subsection \<open>Durable counters\<close>

definition file_used :: "bytes \<Rightarrow> bytes \<Rightarrow> bytes set \<Rightarrow> bool" where
  "file_used iv content A \<longleftrightarrow> length iv = 12 \<and> A \<subseteq> nonces_below iv (read_counter content)"

lemma read_write_counter [simp]: "read_counter (write_counter content c) = c"
  by (simp add: read_counter_def write_counter_def)

lemma file_next_nonce_Inr:
  "file_next_nonce iv content io = (Inr n, content') \<Longrightarrow>
     read_counter content \<noteq> - 1 \<and> n = build_aead_nonce (read_counter content) iv \<and>
     content' = write_counter content (read_counter content + 1)"
  by (cases io) (auto simp: file_next_nonce_def Let_def split: if_splits)

lemma file_next_nonce_Inl:
  "file_next_nonce iv content io = (Inl e, content') \<Longrightarrow>
     content' = content \<or>
     read_counter content \<noteq> - 1 \<and> content' = write_counter content (read_counter content + 1)"
  by (cases io) (auto simp: file_next_nonce_def Let_def split: if_splits)

interpretation file_sequence: fresh_source "file_next_nonce iv" "file_used iv" for iv
  by unfold_locales
    (auto simp: file_used_def nonces_below_step dest!: file_next_nonce_Inr file_next_nonce_Inl
        nonces_below_fresh)

text \<open>
  The file-backed nonce sequence repeats no nonce, across restarts of the process (the state is
  the file's content) and across any mixture of lock, read, write and sync failures.
\<close>
lemma file_sequence_nonces_distinct:
  assumes "length iv = 12"
  shows "distinct (issued_by (file_next_nonce iv) content ios)"
proof (rule file_sequence.issued_distinct)
  show "file_used iv content {}" using assms by (simp add: file_used_def)
qed

text \<open>
  A user of the manager sends, receives and restarts. A restart drops the manager and loads a new
  one from the file; as the error's documentation demands, the user sends no more after \<open>Overflow\<close>.
\<close>

datatype manager_op = Send "string option" | Receive "string option" u64 | Restart

record managed =
  manager :: NonceManager
  stopped :: bool

fun manager_step :: "managed \<Rightarrow> manager_op \<Rightarrow> (NonceError option + u64) \<times> managed" where
  "manager_step s (Send io) =
     (if stopped s then (Inl None, s)
      else case next_send_nonce (manager s) io of
        (r, m) \<Rightarrow> (map_err Some r, s\<lparr>manager := m, stopped := (r = Inl Overflow)\<rparr>))"
| "manager_step s (Receive io n) =
     (case validate_recv (manager s) io n of (r, m) \<Rightarrow> (Inl None, s\<lparr>manager := m\<rparr>))"
| "manager_step s Restart =
     (case storage (manager s) of
        None \<Rightarrow> (Inl None, s)
      | Some f \<Rightarrow> (case with_storage f of
            Inl e \<Rightarrow> (Inl (Some e), s)
          | Inr m \<Rightarrow> (Inl None, s\<lparr>manager := m\<rparr>)))"

definition manager_used :: "managed \<Rightarrow> u64 set \<Rightarrow> bool" where
  "manager_used s A \<longleftrightarrow>
     stopped s \<or>
     (\<exists>f n l. storage (manager s) = Some f \<and> file_nonce_load f = Inr (n, l) \<and>
        n \<le> next_send (manager s) \<and> (\<forall>a\<in>A. a < n))"

lemma word_le_plus_one: "(c :: u64) \<noteq> - 1 \<Longrightarrow> a \<le> c \<Longrightarrow> a \<le> c + 1"
  using unat_Suc_word [of c] by (simp add: word_le_nat_alt)

lemma word_lt_plus_one: "(c :: u64) \<noteq> - 1 \<Longrightarrow> c < c + 1"
  using unat_Suc_word [of c] by (simp add: word_less_nat_alt)

lemma send_used:
  assumes "manager_used s A" "\<not> stopped s" "next_send_nonce (manager s) io = (r, m)"
    and "r \<noteq> Inl Overflow"
  shows "(\<forall>n. r = Inr n \<longrightarrow> n \<notin> A \<and> manager_used (s\<lparr>manager := m, stopped := False\<rparr>) (insert n A)) \<and>
         ((\<exists>e. r = Inl e) \<longrightarrow> manager_used (s\<lparr>manager := m, stopped := False\<rparr>) A)"
proof -
  obtain f n l where f: "storage (manager s) = Some f" "file_nonce_load f = Inr (n, l)"
    "n \<le> next_send (manager s)" "\<forall>a\<in>A. a < n"
    using assms(1,2) by (auto simp: manager_used_def)
  let ?c = "next_send (manager s)"
  have c: "?c \<noteq> - 1" using assms(3,4) by (auto simp: next_send_nonce_def Let_def)
  have le: "n \<le> ?c + 1" "?c < ?c + 1" and fresh: "\<forall>a\<in>A. a < ?c" and A: "\<forall>a\<in>A. a < ?c + 1"
    using word_le_plus_one [OF c f(3)] word_lt_plus_one [OF c] f(3,4) by auto
  show ?thesis
    using assms(3) f c le fresh A
    by (cases io) (auto simp: next_send_nonce_def Let_def file_nonce_save_def manager_used_def)
qed

lemma manager_step_used:
  assumes "manager_used s A" "manager_step s x = (r, s')"
  shows "(\<forall>n. r = Inr n \<longrightarrow> n \<notin> A \<and> manager_used s' (insert n A)) \<and>
         ((\<exists>e. r = Inl e) \<longrightarrow> manager_used s' A)"
proof (cases x)
  case (Send io)
  show ?thesis
  proof (cases "stopped s")
    case False
    obtain q m where q: "next_send_nonce (manager s) io = (q, m)" by fastforce
    show ?thesis
    proof (cases "q = Inl Overflow")
      case True
      with q False assms(2) Send show ?thesis by (auto simp: manager_used_def)
    next
      case ne: False
      have "s\<lparr>manager := m, stopped := False\<rparr> = s'" "r = map_err Some q"
        using q ne False assms(2) Send by auto
      with send_used [OF assms(1) False q ne] show ?thesis by (cases q) auto
    qed
  qed (use assms Send in \<open>auto simp: manager_used_def\<close>)
next
  case (Receive io n)
  with assms show ?thesis
    by (cases io) (fastforce simp: manager_used_def validate_recv_def file_nonce_save_def Let_def
        split: if_splits option.splits)+
next
  case Restart
  with assms show ?thesis
    by (auto simp: manager_used_def with_storage_def split: option.splits sum.splits)
qed

interpretation durable_manager: fresh_source manager_step manager_used
  by unfold_locales (use manager_step_used in blast)+

text \<open>
  With durable storage, the send nonces of a manager never repeat, across restarts that reload
  the file, interleaved receptions and failed saves, up to the first \<open>Overflow\<close>.
\<close>
lemma durable_send_nonces_distinct:
  assumes "with_storage f = Inr m"
  shows "distinct (issued_by manager_step \<lparr>manager = m, stopped = False\<rparr> ops)"
proof (rule durable_manager.issued_distinct)
  show "manager_used \<lparr>manager = m, stopped = False\<rparr> {}"
    using assms by (auto simp: with_storage_def bind_result_Inr_iff manager_used_def)
qed

text \<open>
  At the end of the counter range \<open>next_send_nonce\<close> reports \<open>Overflow\<close> once, but it has already
  wrapped the counter: without storage the following calls hand out 0, 1, 2 again, so a caller that
  retries after the error reuses the first nonces of the session.
\<close>
lemma next_send_nonce_overflow_wraps:
  assumes "next_send m = - 1" and "storage m = None"
  shows "let (r0, m0) = next_send_nonce m None; (r1, m1) = next_send_nonce m0 None;
             (r2, m2) = next_send_nonce m1 None
         in r0 = Inl Overflow \<and> r1 = Inr 0 \<and> r2 = Inr 1 \<and>
            fst (next_send_nonce nonce_manager_new None) = r2"
  using assms by (simp add: next_send_nonce_def nonce_manager_new_def Let_def)

definition recv_step :: "NonceManager \<Rightarrow> string option \<times> u64 \<Rightarrow> (NonceError + u64) \<times> NonceManager" where
  "recv_step m x =
     (case validate_recv m (fst x) (snd x) of (r, m') \<Rightarrow> (bind_result r (\<lambda>_. Inr (snd x)), m'))"

definition recv_used :: "NonceManager \<Rightarrow> u64 set \<Rightarrow> bool" where
  "recv_used m A \<longleftrightarrow> (\<forall>a\<in>A. a \<le> last_seen m)"

lemma validate_recv_state:
  "validate_recv m io n = (r, m') \<Longrightarrow>
     (n \<le> last_seen m \<longrightarrow> r = Inl (NonceReplay n (last_seen m)) \<and> m' = m) \<and>
     (last_seen m < n \<longrightarrow> last_seen m' = n)"
  by (auto simp: validate_recv_def Let_def split: if_splits option.splits prod.splits)

interpretation receiver: fresh_source recv_step recv_used
proof unfold_locales
  fix m A x n m' assume "recv_used m A" "recv_step m x = (Inr n, m')"
  then show "n \<notin> A"
    by (fastforce simp: recv_step_def recv_used_def bind_result_Inr_iff split: prod.splits dest: validate_recv_state)
next
  fix m A x n m' assume "recv_used m A" "recv_step m x = (Inr n, m')"
  then show "recv_used m' (insert n A)"
    by (fastforce simp: recv_step_def recv_used_def bind_result_Inr_iff split: prod.splits dest: validate_recv_state)
next
  fix m A x e m' assume "recv_used m A" "recv_step m x = (Inl e, m')"
  then show "recv_used m' A"
    by (cases "snd x \<le> last_seen m")
      (fastforce simp: recv_step_def recv_used_def not_le split: prod.splits dest: validate_recv_state)+
qed

text \<open>
  A receiving manager validates every nonce at most once, whatever saves fail.
\<close>
lemma validate_recv_once: "distinct (issued_by recv_step m xs)"
proof (rule receiver.issued_distinct)
  show "recv_used m {}" by (simp add: recv_used_def)
qed

end
