(* ===== verification/Key_Schedule.thy ===== *)
theory Key_Schedule
  imports Prelude
begin

section \<open>The key schedule\<close>

text \<open>
  \<open>openhttpa-crypto/src/hkdf.rs\<close>. HKDF and SHA-384 come from packages and are a parameter, a record
  of functions. \<open>derive\<close> copies the transcript hash into a 48-byte array, which panics for any other
  length: the model returns \<open>None\<close> for a panic.

  The lemmas show that the keys have the lengths that the AEAD layer needs and that the info
  strings of all key slots, transcripts and modes are pairwise different, so that no two slots are
  expanded from the same input.
\<close>

datatype HkdfError = ExtractFailed | ExpandFailed

record hkdf_lib =
  hk_extract :: "bytes option \<Rightarrow> bytes \<Rightarrow> bytes"
  hk_prk_ok :: "bytes \<Rightarrow> bool"
  hk_expand :: "bytes \<Rightarrow> bytes \<Rightarrow> nat \<Rightarrow> bytes option"
  hk_sha384 :: "bytes \<Rightarrow> bytes"

definition extract_sha384 :: "hkdf_lib \<Rightarrow> bytes \<Rightarrow> bytes \<Rightarrow> HkdfError + bytes" where
  "extract_sha384 H salt ikm =
     (let salt_opt = (if salt = [] then None else Some salt) in Inr (hk_extract H salt_opt ikm))"

definition expand :: "hkdf_lib \<Rightarrow> bytes \<Rightarrow> bytes \<Rightarrow> nat \<Rightarrow> HkdfError + bytes" where
  "expand H prk info out_len =
     (if \<not> hk_prk_ok H prk then Inl ExtractFailed
      else ok_or ExpandFailed (hk_expand H prk info out_len))"

record SessionKeys =
  master_secret :: bytes
  resumption_master_secret :: bytes
  client_write_key :: bytes
  server_write_key :: bytes
  client_write_iv :: bytes
  server_write_iv :: bytes
  client_mac_key :: bytes
  server_mac_key :: bytes
  transcript_hash :: bytes

definition make_info :: "string \<Rightarrow> bytes \<Rightarrow> string \<Rightarrow> bytes" where
  "make_info pre binding label = str_bytes pre @ str_bytes label @ [0] @ binding"

definition expand_slots :: "hkdf_lib \<Rightarrow> bytes \<Rightarrow> string \<Rightarrow> bytes \<Rightarrow> bytes \<Rightarrow> HkdfError + SessionKeys" where
  "expand_slots H prk pre binding th =
     bind_result (expand H prk (make_info pre binding ''master secret'') 48) (\<lambda>ms.
     bind_result (expand H prk (make_info pre binding ''res master'') 48) (\<lambda>rms.
     bind_result (expand H prk (make_info pre binding ''client write key'') 32) (\<lambda>cwk.
     bind_result (expand H prk (make_info pre binding ''server write key'') 32) (\<lambda>swk.
     bind_result (expand H prk (make_info pre binding ''client write iv'') 12) (\<lambda>cwi.
     bind_result (expand H prk (make_info pre binding ''server write iv'') 12) (\<lambda>swi.
     bind_result (expand H prk (make_info pre binding ''client mac key'') 32) (\<lambda>cmk.
     bind_result (expand H prk (make_info pre binding ''server mac key'') 32) (\<lambda>smk.
       Inr \<lparr>master_secret = ms, resumption_master_secret = rms, client_write_key = cwk,
            server_write_key = swk, client_write_iv = cwi, server_write_iv = swi,
            client_mac_key = cmk, server_mac_key = smk, transcript_hash = th\<rparr>))))))))"

definition derive :: "hkdf_lib \<Rightarrow> bytes \<Rightarrow> bytes \<Rightarrow> (HkdfError + SessionKeys) option" where
  "derive H combined_secret th =
     (case extract_sha384 H (replicate 48 0) combined_secret of
        Inl e \<Rightarrow> Some (Inl e)
      | Inr prk \<Rightarrow>
          (case expand_slots H prk ''openhttpa_v2'' th th of
             Inl e \<Rightarrow> Some (Inl e)
           | Inr keys \<Rightarrow> if length th = 48 then Some (Inr keys) else None))"

definition derive_0rtt :: "hkdf_lib \<Rightarrow> bytes \<Rightarrow> bytes \<Rightarrow> HkdfError + SessionKeys" where
  "derive_0rtt H resumed_master_secret rtt0_salt =
     bind_result (extract_sha384 H rtt0_salt resumed_master_secret) (\<lambda>prk.
       expand_slots H prk ''openhttpa_v2_0rtt'' rtt0_salt (hk_sha384 H rtt0_salt))"

subsection \<open>Contract of the HKDF package\<close>

definition hkdf_correct :: "hkdf_lib \<Rightarrow> bool" where
  "hkdf_correct H \<longleftrightarrow>
     (\<forall>s i. hk_prk_ok H (hk_extract H s i)) \<and>
     (\<forall>prk info n. hk_prk_ok H prk \<and> n \<le> 255 * 48 \<longrightarrow>
        (\<exists>out. hk_expand H prk info n = Some out \<and> length out = n)) \<and>
     (\<forall>m. length (hk_sha384 H m) = 48)"

definition const_hkdf :: hkdf_lib where
  "const_hkdf =
     \<lparr>hk_extract = (\<lambda>s i. replicate 48 1), hk_prk_ok = (\<lambda>prk. length prk \<ge> 48),
      hk_expand = (\<lambda>prk info n. if n \<le> 255 * 48 then Some (replicate n 2) else None),
      hk_sha384 = (\<lambda>m. replicate 48 3)\<rparr>"

lemma const_hkdf_correct: "hkdf_correct const_hkdf"
  by (simp add: hkdf_correct_def const_hkdf_def)

lemma expand_ok:
  assumes "hkdf_correct H" "hk_prk_ok H prk" "n \<le> 255 * 48"
  obtains out where "expand H prk info n = Inr out" "length out = n"
proof -
  obtain out where "hk_expand H prk info n = Some out" "length out = n"
    using assms unfolding hkdf_correct_def by blast
  with assms(2) that show thesis by (simp add: expand_def)
qed

definition keys_wf :: "SessionKeys \<Rightarrow> bool" where
  "keys_wf k \<longleftrightarrow>
     length (master_secret k) = 48 \<and> length (resumption_master_secret k) = 48 \<and>
     length (client_write_key k) = 32 \<and> length (server_write_key k) = 32 \<and>
     length (client_write_iv k) = 12 \<and> length (server_write_iv k) = 12 \<and>
     length (client_mac_key k) = 32 \<and> length (server_mac_key k) = 32 \<and>
     length (transcript_hash k) = 48"

lemma expand_slots_ok:
  assumes "hkdf_correct H" "hk_prk_ok H prk" "length th = 48"
  shows "\<exists>k. expand_slots H prk pre binding th = Inr k \<and> keys_wf k \<and> transcript_hash k = th"
proof -
  note ex = expand_ok [OF assms(1,2)]
  obtain a where a: "expand H prk (make_info pre binding ''master secret'') 48 = Inr a" "length a = 48"
    by (rule ex [of 48 "make_info pre binding ''master secret''"]) auto
  obtain b where b: "expand H prk (make_info pre binding ''res master'') 48 = Inr b" "length b = 48"
    by (rule ex [of 48 "make_info pre binding ''res master''"]) auto
  obtain c where c: "expand H prk (make_info pre binding ''client write key'') 32 = Inr c" "length c = 32"
    by (rule ex [of 32 "make_info pre binding ''client write key''"]) auto
  obtain d where d: "expand H prk (make_info pre binding ''server write key'') 32 = Inr d" "length d = 32"
    by (rule ex [of 32 "make_info pre binding ''server write key''"]) auto
  obtain e where e: "expand H prk (make_info pre binding ''client write iv'') 12 = Inr e" "length e = 12"
    by (rule ex [of 12 "make_info pre binding ''client write iv''"]) auto
  obtain f where f: "expand H prk (make_info pre binding ''server write iv'') 12 = Inr f" "length f = 12"
    by (rule ex [of 12 "make_info pre binding ''server write iv''"]) auto
  obtain g where g: "expand H prk (make_info pre binding ''client mac key'') 32 = Inr g" "length g = 32"
    by (rule ex [of 32 "make_info pre binding ''client mac key''"]) auto
  obtain h where h: "expand H prk (make_info pre binding ''server mac key'') 32 = Inr h" "length h = 32"
    by (rule ex [of 32 "make_info pre binding ''server mac key''"]) auto
  show ?thesis
    using a b c d e f g h assms(3) by (simp add: expand_slots_def keys_wf_def)
qed

lemma derive_ok:
  assumes "hkdf_correct H"
  shows "(length th = 48 \<longrightarrow> (\<exists>k. derive H ss th = Some (Inr k) \<and> keys_wf k \<and> transcript_hash k = th)) \<and>
         (length th \<noteq> 48 \<longrightarrow> derive H ss th = None) \<and>
         (\<exists>k. derive_0rtt H ss salt = Inr k \<and> keys_wf k \<and> transcript_hash k = hk_sha384 H salt)"
proof -
  have prk: "hk_prk_ok H (hk_extract H s i)" for s i using assms by (simp add: hkdf_correct_def)
  have sha: "length (hk_sha384 H salt) = 48" using assms by (simp add: hkdf_correct_def)
  have 1: "derive H ss th = Some (Inr k)"
    if "expand_slots H (hk_extract H (Some (replicate 48 0)) ss) ''openhttpa_v2'' th th = Inr k" "length th = 48" for k
    using that by (simp add: derive_def extract_sha384_def)
  have "\<exists>k. expand_slots H (hk_extract H (Some (replicate 48 0)) ss) ''openhttpa_v2'' th th = Inr k"
  proof -
    have "\<exists>k. expand_slots H (hk_extract H (Some (replicate 48 0)) ss) ''openhttpa_v2'' th (replicate 48 0) = Inr k"
      using expand_slots_ok [OF assms prk, where th = "replicate 48 0"] by (metis length_replicate)
    then show ?thesis by (auto simp: expand_slots_def bind_result_Inr_iff)
  qed
  then have 2: "length th \<noteq> 48 \<Longrightarrow> derive H ss th = None"
    by (auto simp: derive_def extract_sha384_def)
  have 3: "\<exists>k. derive_0rtt H ss salt = Inr k \<and> keys_wf k \<and> transcript_hash k = hk_sha384 H salt"
    using expand_slots_ok [OF assms prk sha] by (simp add: derive_0rtt_def extract_sha384_def)
  show ?thesis using 1 2 3 expand_slots_ok [OF assms prk, where th = th and pre = "''openhttpa_v2''" and binding = th] by blast
qed

text \<open>
  When the HKDF package behaves as documented, \<open>derive\<close> succeeds for every 48-byte transcript hash
  and \<open>derive_0rtt\<close> for every salt; the keys have 32 bytes, the IVs 12, the secrets 48, and the
  stored transcript hash is the given one (the salt's hash in 0-RTT). For any other transcript
  length \<open>derive\<close> panics.
\<close>
lemma derive_total:
  assumes "hkdf_correct H"
  shows "(length th = 48 \<longrightarrow> (\<exists>k. derive H ss th = Some (Inr k) \<and> keys_wf k \<and> transcript_hash k = th)) \<and>
         (length th \<noteq> 48 \<longrightarrow> derive H ss th = None) \<and>
         (\<exists>k. derive_0rtt H ss salt = Inr k \<and> keys_wf k \<and> transcript_hash k = hk_sha384 H salt)"
  using assms by (rule derive_ok)

subsection \<open>Separation of the key slots\<close>

definition slot_labels :: "string list" where
  "slot_labels = [''master secret'', ''res master'', ''client write key'', ''server write key'',
     ''client write iv'', ''server write iv'', ''client mac key'', ''server mac key'']"

lemma split_at_zero:
  "0 \<notin> set a \<Longrightarrow> 0 \<notin> set b \<Longrightarrow> a @ (0 :: byte) # x = b @ 0 # y \<longleftrightarrow> a = b \<and> x = y"
proof (induction a arbitrary: b)
  case Nil
  then show ?case by (cases b) auto
next
  case (Cons c a)
  then show ?case by (cases b) auto
qed

lemma nul_char: "char_of (0 :: nat) = CHR 0x00"
  by (simp add: char_of_def)

lemma slot_labels_chars:
  "l \<in> set slot_labels \<Longrightarrow> CHR 0x00 \<notin> set l \<and> CHR ''_'' \<notin> set l"
  by (auto simp: slot_labels_def)

text \<open>
  The info strings that select the derived keys are injective: two of them agree only if the mode
  (full handshake or 0-RTT), the slot label and the binding (transcript hash or salt) all agree.
\<close>
lemma key_slots_separated:
  assumes "p \<in> {''openhttpa_v2'', ''openhttpa_v2_0rtt''}" "q \<in> {''openhttpa_v2'', ''openhttpa_v2_0rtt''}"
    and "l \<in> set slot_labels" "m \<in> set slot_labels"
  shows "make_info p x l = make_info q y m \<longleftrightarrow> p = q \<and> l = m \<and> x = y"
proof -
  have z: "0 \<notin> set (str_bytes p @ str_bytes l)" "0 \<notin> set (str_bytes q @ str_bytes m)"
    using assms slot_labels_chars by (auto simp: nul_char)
  have "str_bytes p @ str_bytes l = str_bytes q @ str_bytes m \<longleftrightarrow> p @ l = q @ m"
    using str_bytes_inj [of "p @ l" "q @ m"] by simp
  moreover have "p @ l = q @ m \<longleftrightarrow> p = q \<and> l = m"
    using assms(1,2) slot_labels_chars [OF assms(3)] slot_labels_chars [OF assms(4)] by auto
  ultimately show ?thesis
    using split_at_zero [OF z, of x y] by (simp add: make_info_def)
qed

end
