(* ===== verification/Key_Exchange.thy ===== *)
theory Key_Exchange
  imports Prelude
begin

section \<open>Hybrid key exchange\<close>

text \<open>
  \<open>openhttpa-crypto/src/key_exchange.rs\<close> and the ML-KEM part of \<open>pqc.rs\<close>. X25519 and HKDF-SHA-256 (of
  \<open>aws-lc-rs\<close> and \<open>hkdf\<close>) and ML-KEM-768 (of \<open>oqs\<close>) are a parameter. Random seeds are arguments. The
  length prefix of the combiner panics for fields above 65535 bytes; a panic is \<open>None\<close>.

  The lemmas show that both sides of an exchange compute the same secret, and that the combiner's
  input determines every field that went into it.
\<close>

datatype KeyExchangeError = KeyGeneration | Agreement | InvalidPeerKey | Pqc string

record kem_lib =
  x25519_public :: "bytes \<Rightarrow> bytes option"
  x25519_agree :: "bytes \<Rightarrow> bytes \<Rightarrow> bytes option"
  mlkem_keypair :: "bytes \<Rightarrow> string + bytes \<times> bytes"
  mlkem_key_ok :: "bytes \<Rightarrow> bool"
  mlkem_encapsulate :: "bytes \<Rightarrow> bytes \<Rightarrow> string + bytes \<times> bytes"
  mlkem_ct_ok :: "bytes \<Rightarrow> bool"
  mlkem_decapsulate :: "bytes \<Rightarrow> bytes \<Rightarrow> string + bytes"
  hkdf_sha256_combined :: "bytes \<Rightarrow> bytes option"

record EcdhePair =
  private_key :: bytes
  ecdhe_public_key :: bytes

record MlKemPair =
  decap_key :: bytes
  encap_key :: bytes

record KeyShare =
  ecdhe_public :: bytes
  mlkem_public :: bytes

record HybridKemPair =
  ecdhe :: EcdhePair
  mlkem :: MlKemPair

definition generate_x25519 :: "kem_lib \<Rightarrow> bytes \<Rightarrow> KeyExchangeError + EcdhePair" where
  "generate_x25519 K seed =
     (case x25519_public K seed of
        None \<Rightarrow> Inl KeyGeneration
      | Some pk \<Rightarrow> Inr \<lparr>private_key = seed, ecdhe_public_key = pk\<rparr>)"

definition agree :: "kem_lib \<Rightarrow> EcdhePair \<Rightarrow> bytes \<Rightarrow> KeyExchangeError + bytes" where
  "agree K p peer = ok_or Agreement (x25519_agree K (private_key p) peer)"

definition mlkem_generate :: "kem_lib \<Rightarrow> bytes \<Rightarrow> string + MlKemPair" where
  "mlkem_generate K seed =
     bind_result (mlkem_keypair K seed) (\<lambda>(ek, dk). Inr \<lparr>decap_key = dk, encap_key = ek\<rparr>)"

definition encapsulate :: "kem_lib \<Rightarrow> bytes \<Rightarrow> bytes \<Rightarrow> string + bytes \<times> bytes" where
  "encapsulate K seed peer =
     (if \<not> mlkem_key_ok K peer then Inl ''invalid peer encap key''
      else bind_result (mlkem_encapsulate K peer seed) (\<lambda>(ct, ss). Inr (ss, ct)))"

definition decapsulate :: "kem_lib \<Rightarrow> MlKemPair \<Rightarrow> bytes \<Rightarrow> string + bytes" where
  "decapsulate K p ct =
     (if \<not> mlkem_ct_ok K ct then Inl ''invalid ciphertext'' else mlkem_decapsulate K (decap_key p) ct)"

definition hybrid_generate :: "kem_lib \<Rightarrow> bytes \<Rightarrow> bytes \<Rightarrow> KeyExchangeError + HybridKemPair" where
  "hybrid_generate K xseed kseed =
     bind_result (generate_x25519 K xseed) (\<lambda>e.
     bind_result (map_err Pqc (mlkem_generate K kseed)) (\<lambda>m.
       Inr \<lparr>ecdhe = e, mlkem = m\<rparr>))"

definition public_key_share :: "HybridKemPair \<Rightarrow> KeyShare" where
  "public_key_share p =
     \<lparr>ecdhe_public = ecdhe_public_key (ecdhe p), mlkem_public = encap_key (mlkem p)\<rparr>"

definition encode_lengthed :: "bytes \<Rightarrow> bytes option" where
  "encode_lengthed data =
     (if length data < 65536 then Some (be_bytes 2 (length data) @ data) else None)"

definition combine_ikm ::
    "bytes \<Rightarrow> bytes \<Rightarrow> bytes \<Rightarrow> bytes \<Rightarrow> bytes \<Rightarrow> bytes \<Rightarrow> bytes option" where
  "combine_ikm ecdhe_ss mlkem_ss pk_client pk_server ek_client ct =
     (case (encode_lengthed (str_bytes ''openhttpa hybrid kem v1''), encode_lengthed pk_client,
            encode_lengthed pk_server, encode_lengthed ek_client, encode_lengthed ct) of
        (Some l, Some a, Some b, Some c, Some d) \<Rightarrow> Some (ecdhe_ss @ mlkem_ss @ l @ a @ b @ c @ d)
      | _ \<Rightarrow> None)"

definition combine ::
    "kem_lib \<Rightarrow> bytes \<Rightarrow> bytes \<Rightarrow> bytes \<Rightarrow> bytes \<Rightarrow> bytes \<Rightarrow> bytes \<Rightarrow> (KeyExchangeError + bytes) option" where
  "combine K ecdhe_ss mlkem_ss pk_client pk_server ek_client ct =
     (case combine_ikm ecdhe_ss mlkem_ss pk_client pk_server ek_client ct of
        None \<Rightarrow> None
      | Some ikm \<Rightarrow> Some (ok_or Agreement (hkdf_sha256_combined K ikm)))"

definition server_combine ::
    "kem_lib \<Rightarrow> HybridKemPair \<Rightarrow> bytes \<Rightarrow> KeyShare \<Rightarrow> (KeyExchangeError + bytes \<times> bytes) option" where
  "server_combine K p seed client_share =
     (case agree K (ecdhe p) (ecdhe_public client_share) of
        Inl e \<Rightarrow> Some (Inl e)
      | Inr ecdhe_ss \<Rightarrow>
          (case encapsulate K seed (mlkem_public client_share) of
             Inl msg \<Rightarrow> Some (Inl (Pqc msg))
           | Inr (mlkem_ss, ct) \<Rightarrow>
               (case combine K ecdhe_ss mlkem_ss (ecdhe_public client_share)
                       (ecdhe_public_key (ecdhe p)) (mlkem_public client_share) ct of
                  None \<Rightarrow> None
                | Some r \<Rightarrow> Some (bind_result r (\<lambda>combined. Inr (combined, ct))))))"

definition client_combine ::
    "kem_lib \<Rightarrow> HybridKemPair \<Rightarrow> KeyShare \<Rightarrow> bytes \<Rightarrow> (KeyExchangeError + bytes) option" where
  "client_combine K p server_share ct =
     (case agree K (ecdhe p) (ecdhe_public server_share) of
        Inl e \<Rightarrow> Some (Inl e)
      | Inr ecdhe_ss \<Rightarrow>
          (case decapsulate K (mlkem p) ct of
             Inl msg \<Rightarrow> Some (Inl (Pqc msg))
           | Inr mlkem_ss \<Rightarrow>
               combine K ecdhe_ss mlkem_ss (ecdhe_public_key (ecdhe p)) (ecdhe_public server_share)
                 (encap_key (mlkem p)) ct))"

subsection \<open>Both sides agree\<close>

definition kem_correct :: "kem_lib \<Rightarrow> bool" where
  "kem_correct K \<longleftrightarrow>
     (\<forall>a b pa pb. x25519_public K a = Some pa \<and> x25519_public K b = Some pb \<longrightarrow>
        x25519_agree K a pb = x25519_agree K b pa) \<and>
     (\<forall>s ek dk r ct ss. mlkem_keypair K s = Inr (ek, dk) \<and> mlkem_encapsulate K ek r = Inr (ct, ss) \<longrightarrow>
        mlkem_ct_ok K ct \<and> mlkem_decapsulate K dk ct = Inr ss)"

definition sum_kem :: kem_lib where
  "sum_kem =
     \<lparr>x25519_public = (\<lambda>s. Some s),
      x25519_agree = (\<lambda>a pb. Some (map2 (+) a pb)),
      mlkem_keypair = (\<lambda>s. Inr (s, s)), mlkem_key_ok = (\<lambda>ek. True),
      mlkem_encapsulate = (\<lambda>ek r. Inr (r, ek @ r)), mlkem_ct_ok = (\<lambda>ct. True),
      mlkem_decapsulate = (\<lambda>dk ct. Inr (dk @ ct)),
      hkdf_sha256_combined = (\<lambda>ikm. Some ikm)\<rparr>"

lemma map2_add_commute: "map2 (+) a (b :: bytes) = map2 (+) b a"
  by (induction a b rule: list_induct2') (auto simp: add.commute)

lemma sum_kem_correct: "kem_correct sum_kem"
  by (simp add: kem_correct_def sum_kem_def map2_add_commute)

lemma client_combine_agrees:
  assumes "kem_correct K" and "hybrid_generate K cx ck = Inr client" and "hybrid_generate K sx sk = Inr server"
    and "server_combine K server seed (public_key_share client) = Some (Inr (secret, ct))"
  shows "client_combine K client (public_key_share server) ct = Some (Inr secret)"
proof -
  obtain cp cek cdk where c: "x25519_public K cx = Some cp" "mlkem_keypair K ck = Inr (cek, cdk)"
    "client = \<lparr>ecdhe = \<lparr>private_key = cx, ecdhe_public_key = cp\<rparr>, mlkem = \<lparr>decap_key = cdk, encap_key = cek\<rparr>\<rparr>"
    using assms(2)
    by (auto simp: hybrid_generate_def generate_x25519_def mlkem_generate_def bind_result_Inr_iff split: option.splits)
  obtain sp sek sdk where s: "x25519_public K sx = Some sp"
    "server = \<lparr>ecdhe = \<lparr>private_key = sx, ecdhe_public_key = sp\<rparr>, mlkem = \<lparr>decap_key = sdk, encap_key = sek\<rparr>\<rparr>"
    using assms(3)
    by (auto simp: hybrid_generate_def generate_x25519_def mlkem_generate_def bind_result_Inr_iff split: option.splits)
  obtain es ms where e: "x25519_agree K sx cp = Some es" "mlkem_encapsulate K cek seed = Inr (ct, ms)"
    "combine K es ms cp sp cek ct = Some (Inr secret)"
    using assms(4) c s
    by (auto simp: server_combine_def agree_def public_key_share_def encapsulate_def bind_result_Inr_iff
        split: sum.splits option.splits if_splits prod.splits)
  have "x25519_agree K cx sp = Some es" "mlkem_ct_ok K ct" "mlkem_decapsulate K cdk ct = Inr ms"
    using assms(1) c(1,2) s(1) e(1,2) unfolding kem_correct_def by metis+
  with e(3) c s show ?thesis
    by (simp add: client_combine_def agree_def public_key_share_def decapsulate_def)
qed

text \<open>
  C29. When X25519 and ML-KEM behave as documented, the client that receives the server's key share and
  ciphertext derives exactly the secret that the server derived.
\<close>
theorem hybrid_exchange_agrees:
  assumes "kem_correct K" and "hybrid_generate K cx ck = Inr client" and "hybrid_generate K sx sk = Inr server"
    and "server_combine K server seed (public_key_share client) = Some (Inr (secret, ct))"
  shows "client_combine K client (public_key_share server) ct = Some (Inr secret)"
  using assms by (rule client_combine_agrees)

theorem hybrid_exchange_agrees_witness:
  "\<exists>client server secret ct.
     hybrid_generate sum_kem [1] [2] = Inr client \<and> hybrid_generate sum_kem [3] [4] = Inr server \<and>
     server_combine sum_kem server [5] (public_key_share client) = Some (Inr (secret, ct)) \<and>
     client_combine sum_kem client (public_key_share server) ct = Some (Inr secret)"
proof -
  obtain client where c: "hybrid_generate sum_kem [1] [2] = Inr client"
    by (simp add: hybrid_generate_def generate_x25519_def mlkem_generate_def sum_kem_def)
  obtain server where s: "hybrid_generate sum_kem [3] [4] = Inr server"
    by (simp add: hybrid_generate_def generate_x25519_def mlkem_generate_def sum_kem_def)
  obtain secret ct where k: "server_combine sum_kem server [5] (public_key_share client) = Some (Inr (secret, ct))"
    using c s
    by (auto simp: hybrid_generate_def generate_x25519_def mlkem_generate_def sum_kem_def server_combine_def
        agree_def public_key_share_def encapsulate_def combine_def combine_ikm_def encode_lengthed_def)
  from hybrid_exchange_agrees [OF sum_kem_correct c s k] c s k show ?thesis by blast
qed

subsection \<open>The combiner's input is unambiguous\<close>

lemma encode_lengthed_append_inj:
  assumes "encode_lengthed a = Some x" "encode_lengthed b = Some y"
  shows "x @ u = y @ v \<longleftrightarrow> a = b \<and> u = v"
proof -
  have x: "length a < 65536" "x = be_bytes 2 (length a) @ a" "length b < 65536" "y = be_bytes 2 (length b) @ b"
    using assms by (auto simp: encode_lengthed_def split: if_splits)
  show ?thesis
  proof
    assume "x @ u = y @ v"
    then have "be_bytes 2 (length a) = be_bytes 2 (length b)" and rest: "a @ u = b @ v"
      using x by (simp_all add: append_inj_length)
    then have "length a = length b" using x be_bytes_inj [of 2 "length a" "length b"] by simp
    with rest show "a = b \<and> u = v" by simp
  qed (use x in simp)
qed

text \<open>
  The input keying material of the combiner is an injective encoding: if it is equal for two
  exchanges with 32-byte shared secrets, both secrets, both ECDHE keys, the ML-KEM key and the
  ciphertext are equal. Fields of up to 65535 bytes never make it panic.
\<close>
lemma combiner_injective:
  assumes "length e = 32" "length e' = 32" "length m = 32" "length m' = 32"
    and "length a < 65536" "length b < 65536" "length c < 65536" "length d < 65536"
    and "length a' < 65536" "length b' < 65536" "length c' < 65536" "length d' < 65536"
  shows "combine_ikm e m a b c d \<noteq> None \<and>
         (combine_ikm e m a b c d = combine_ikm e' m' a' b' c' d' \<longleftrightarrow>
            e = e' \<and> m = m' \<and> a = a' \<and> b = b' \<and> c = c' \<and> d = d')"
proof -
  have enc: "encode_lengthed x = Some (be_bytes 2 (length x) @ x)" if "length x < 65536" for x
    using that by (simp add: encode_lengthed_def)
  have l: "encode_lengthed (str_bytes ''openhttpa hybrid kem v1'') \<noteq> None"
    by (simp add: encode_lengthed_def)
  show ?thesis
    using assms l
      encode_lengthed_append_inj [OF enc enc, of a a'] encode_lengthed_append_inj [OF enc enc, of b b']
      encode_lengthed_append_inj [OF enc enc, of c c'] encode_lengthed_append_inj [OF enc enc, of d d' "[]" "[]"]
    by (auto simp: combine_ikm_def enc append_inj_length)
qed

end
