(* ===== verification/Hpke.thy ===== *)
theory Hpke
  imports Aead_Nonces Key_Exchange
begin

section \<open>Encrypted client hello\<close>

text \<open>
  \<open>openhttpa-crypto/src/hpke.rs\<close>. HKDF-SHA-256 without salt is a parameter \<open>hk\<close> of shared secret, info
  string and length. \<open>seal\<close> splits the last 16 bytes off the sealed message and panics when there are
  fewer; a panic is \<open>None\<close>.
\<close>

datatype HpkeError = HpkePqc string | HpkeEncryption string | HpkeDecryption

record HpkeCiphertext =
  hpke_mlkem_ct :: bytes
  hpke_payload_ct :: bytes
  hpke_tag :: bytes

type_synonym hkdf256 = "bytes \<Rightarrow> string \<Rightarrow> nat \<Rightarrow> bytes option"

definition hpke_seal ::
    "kem_lib \<Rightarrow> aead_lib \<Rightarrow> hkdf256 \<Rightarrow> bytes \<Rightarrow> bytes \<Rightarrow> bytes \<Rightarrow> bytes \<Rightarrow>
     (HpkeError + HpkeCiphertext) option" where
  "hpke_seal K L hk gen_seed encap_seed tee_pk payload =
     (case bind_result (map_err HpkePqc (mlkem_generate K gen_seed)) (\<lambda>_.
           bind_result (map_err HpkePqc (encapsulate K encap_seed tee_pk)) (\<lambda>(ss, ct).
           bind_result (ok_or (HpkeEncryption ''hkdf failed'') (hk ss ''openhttpa_hpke_key'' 32)) (\<lambda>key.
           bind_result (ok_or (HpkeEncryption ''hkdf failed'') (hk ss ''openhttpa_hpke_nonce'' 12)) (\<lambda>nonce.
           bind_result (map_err (\<lambda>_. HpkeEncryption ''key'') (aead_key_new L Aes256Gcm key)) (\<lambda>k.
           bind_result (map_err (\<lambda>_. HpkeEncryption ''seal'') (seal_in_place L k nonce [] payload)) (\<lambda>data.
             Inr (ct, data))))))) of
        Inl e \<Rightarrow> Some (Inl e)
      | Inr (ct, data) \<Rightarrow>
          if length data < 16 then None
          else Some (Inr \<lparr>hpke_mlkem_ct = ct, hpke_payload_ct = take (length data - 16) data,
                           hpke_tag = drop (length data - 16) data\<rparr>))"

definition hpke_open ::
    "kem_lib \<Rightarrow> aead_lib \<Rightarrow> hkdf256 \<Rightarrow> MlKemPair \<Rightarrow> bytes \<Rightarrow> bytes \<Rightarrow> bytes \<Rightarrow> HpkeError + bytes" where
  "hpke_open K L hk pair mlkem_ct ciphertext tag =
     bind_result (map_err HpkePqc (decapsulate K pair mlkem_ct)) (\<lambda>ss.
     bind_result (ok_or HpkeDecryption (hk ss ''openhttpa_hpke_key'' 32)) (\<lambda>key.
     bind_result (ok_or HpkeDecryption (hk ss ''openhttpa_hpke_nonce'' 12)) (\<lambda>nonce.
     bind_result (map_err (\<lambda>_. HpkeDecryption) (aead_key_new L Aes256Gcm key)) (\<lambda>k.
     if length tag \<noteq> 16 then Inl HpkeDecryption
     else map_err (\<lambda>_. HpkeDecryption) (open_in_place L k nonce [] (ciphertext @ tag))))))"

lemma seal_then_open:
  "aead_correct L \<Longrightarrow> seal_in_place L k n d pt = Inr ct \<Longrightarrow> open_in_place L k n d ct = Inr pt"
  by (auto simp: seal_in_place_def open_in_place_def aead_correct_def split: if_splits)

text \<open>
  A payload sealed to a server's ML-KEM key is recovered by the holder of that key pair.
\<close>
lemma hpke_round_trip:
  assumes "kem_correct K" "aead_correct L" "mlkem_generate K s = Inr pair"
    and "hpke_seal K L hk g e (encap_key pair) payload = Some (Inr c)"
  shows "hpke_open K L hk pair (hpke_mlkem_ct c) (hpke_payload_ct c) (hpke_tag c) = Inr payload"
proof -
  obtain ss ct key nonce k data where st:
    "encapsulate K e (encap_key pair) = Inr (ss, ct)" "hk ss ''openhttpa_hpke_key'' 32 = Some key"
    "hk ss ''openhttpa_hpke_nonce'' 12 = Some nonce" "aead_key_new L Aes256Gcm key = Inr k"
    "seal_in_place L k nonce [] payload = Inr data" "length data \<ge> 16"
    "c = \<lparr>hpke_mlkem_ct = ct, hpke_payload_ct = take (length data - 16) data,
          hpke_tag = drop (length data - 16) data\<rparr>"
    using assms(4)
    by (auto simp: hpke_seal_def bind_result_Inr_iff split: sum.splits prod.splits if_splits)
  have "decapsulate K pair ct = Inr ss"
    using assms(1,3) st(1)
    by (auto simp: kem_correct_def encapsulate_def decapsulate_def mlkem_generate_def bind_result_Inr_iff
        split: if_splits)
  with st seal_then_open [OF assms(2) st(5)] show ?thesis by (simp add: hpke_open_def)
qed

end
