(* ===== verification/Proto.thy ===== *)
theory Proto
  imports Prelude
begin

section \<open>Protocol types\<close>

text \<open>
  \<open>openhttpa-proto/src/types.rs\<close> and \<open>error.rs\<close>, with the constant strings of \<open>openhttpa-config\<close>:
  versions, cipher suites, quote types, attestation claims, federation manifests and provenance
  chains. Fresh UUIDs, the environment and the clock are arguments. Display and parse functions
  are total functions on strings; a parse error is \<open>None\<close>.
\<close>

type_synonym uuid = "128 word"
type_synonym AtbId = uuid

subsection \<open>Versions and cipher suites\<close>

datatype ProtocolVersion = V1 | V2

fun version_numeric_id :: "ProtocolVersion \<Rightarrow> byte" where
  "version_numeric_id V1 = 1"
| "version_numeric_id V2 = 2"

fun show_version :: "ProtocolVersion \<Rightarrow> string" where
  "show_version V1 = ''httpa/1''"
| "show_version V2 = ''openhttpa''"

definition parse_version :: "string \<Rightarrow> ProtocolVersion option" where
  "parse_version s =
     (if s = ''httpa/1'' then Some V1 else if s = ''openhttpa'' then Some V2 else None)"

datatype CipherSuite =
    X25519MlKem768Aes256GcmSha384
  | P384MlKem1024Aes256GcmSha384
  | X25519Aes256GcmSha384
  | P256Aes256GcmSha256
  | X25519ChaCha20Poly1305Sha256

definition preferred_list :: "CipherSuite list" where
  "preferred_list = [X25519MlKem768Aes256GcmSha384, P384MlKem1024Aes256GcmSha384]"

fun is_post_quantum :: "CipherSuite \<Rightarrow> bool" where
  "is_post_quantum X25519MlKem768Aes256GcmSha384 = True"
| "is_post_quantum P384MlKem1024Aes256GcmSha384 = True"
| "is_post_quantum _ = False"

fun is_legacy :: "CipherSuite \<Rightarrow> bool" where
  "is_legacy P256Aes256GcmSha256 = True"
| "is_legacy _ = False"

fun suite_numeric_id :: "CipherSuite \<Rightarrow> u16" where
  "suite_numeric_id X25519MlKem768Aes256GcmSha384 = 0x0001"
| "suite_numeric_id P384MlKem1024Aes256GcmSha384 = 0x0002"
| "suite_numeric_id X25519Aes256GcmSha384 = 0x0101"
| "suite_numeric_id P256Aes256GcmSha256 = 0x0102"
| "suite_numeric_id X25519ChaCha20Poly1305Sha256 = 0x0103"

fun show_suite :: "CipherSuite \<Rightarrow> string" where
  "show_suite X25519MlKem768Aes256GcmSha384 = ''X25519_ML_KEM768_AES256GCM_SHA384''"
| "show_suite P384MlKem1024Aes256GcmSha384 = ''P384_ML_KEM1024_AES256GCM_SHA384''"
| "show_suite X25519Aes256GcmSha384 = ''X25519_AES256GCM_SHA384''"
| "show_suite P256Aes256GcmSha256 = ''P256_AES256GCM_SHA256''"
| "show_suite X25519ChaCha20Poly1305Sha256 = ''X25519_CHACHA20POLY1305_SHA256''"

definition parse_suite :: "string option \<Rightarrow> string \<Rightarrow> CipherSuite option" where
  "parse_suite allow_deprecated s =
     (if s = ''X25519_ML_KEM768_AES256GCM_SHA384'' then Some X25519MlKem768Aes256GcmSha384
      else if s = ''P384_ML_KEM1024_AES256GCM_SHA384'' then Some P384MlKem1024Aes256GcmSha384
      else if s = ''X25519_AES256GCM_SHA384'' then Some X25519Aes256GcmSha384
      else if s = ''P256_AES256GCM_SHA256'' then
        (if allow_deprecated = Some ''1'' then Some P256Aes256GcmSha256 else None)
      else if s = ''X25519_CHACHA20POLY1305_SHA256'' then Some X25519ChaCha20Poly1305Sha256
      else None)"

subsection \<open>Quotes\<close>

datatype QuoteType =
    Sgx | Tdx | SevSnp | TrustZone | Tpm | NvidiaGpu | AwsNitro | ZkCompressed | Mock
  | Unknown string

fun show_quote_type :: "QuoteType \<Rightarrow> string" where
  "show_quote_type Sgx = ''sgx''"
| "show_quote_type Tdx = ''tdx''"
| "show_quote_type SevSnp = ''sev_snp''"
| "show_quote_type TrustZone = ''trustzone''"
| "show_quote_type Tpm = ''tpm''"
| "show_quote_type NvidiaGpu = ''nvidia_gpu''"
| "show_quote_type AwsNitro = ''aws_nitro''"
| "show_quote_type ZkCompressed = ''zk_compressed''"
| "show_quote_type Mock = ''mock''"
| "show_quote_type (Unknown s) = s"

definition parse_quote_type :: "string \<Rightarrow> QuoteType" where
  "parse_quote_type s =
     (if s = ''sgx'' then Sgx else if s = ''tdx'' then Tdx else if s = ''sev_snp'' then SevSnp
      else if s = ''trustzone'' then TrustZone else if s = ''tpm'' then Tpm
      else if s = ''nvidia_gpu'' then NvidiaGpu else if s = ''aws_nitro'' then AwsNitro
      else if s = ''zk_compressed'' then ZkCompressed else if s = ''mock'' then Mock
      else Unknown s)"

datatype QuoteFormat = Raw | Eat | SevSnpBundleV1 | TdxBundleV1 | UnknownFormat string

fun show_quote_format :: "QuoteFormat \<Rightarrow> string" where
  "show_quote_format Raw = ''raw''"
| "show_quote_format Eat = ''eat''"
| "show_quote_format SevSnpBundleV1 = ''sev_snp_bundle_v1''"
| "show_quote_format TdxBundleV1 = ''tdx_bundle_v1''"
| "show_quote_format (UnknownFormat s) = s"

definition parse_quote_format :: "string \<Rightarrow> QuoteFormat" where
  "parse_quote_format s =
     (if s = ''raw'' then Raw else if s = ''eat'' then Eat
      else if s = ''sev_snp_bundle_v1'' then SevSnpBundleV1
      else if s = ''tdx_bundle_v1'' then TdxBundleV1 else UnknownFormat s)"

record AttestQuote =
  quote_type :: QuoteType
  format :: QuoteFormat
  quote_raw :: bytes
  qudd :: bytes
  collateral_uris :: "string list"

definition report_data_from_sha384 :: "bytes \<Rightarrow> bytes" where
  "report_data_from_sha384 digest = digest @ replicate 16 0"

subsection \<open>Attest bases, tickets and binders\<close>

datatype AtbCreation = New | Reuse | Shared

record AtbPolicy =
  direct_attestation :: bool
  allow_untrusted_requests :: bool

definition atb_policy_default :: AtbPolicy where
  "atb_policy_default = \<lparr>direct_attestation = True, allow_untrusted_requests = False\<rparr>"

datatype AtbTermination = Cleanup | Destroy | Keep

record SessionTicket =
  ticket :: bytes
  lifetime :: u32
  ticket_cipher_suite :: CipherSuite
  rtt0_eligible :: bool

record AttestTicket =
  att_nonce :: u64
  att_mac :: bytes
  rtt0_salt :: "bytes option"

record AttestBinder =
  request_nonce :: u64
  binder_mac :: bytes

record AttestBaseRecord =
  record_id :: AtbId
  service_uri :: string
  created_at :: time
  max_age :: nat
  record_policy :: AtbPolicy
  terminated :: bool

definition record_is_expired :: "AttestBaseRecord \<Rightarrow> time \<Rightarrow> bool" where
  "record_is_expired r now \<longleftrightarrow>
     terminated r \<or> (if now < created_at r then True else now - created_at r > max_age r)"

subsection \<open>Attestation results\<close>

datatype TeeClass =
    IntelSgx | IntelTdx | AmdSevSnp | ArmTrustZone | NvidiaGpu | AwsNitro | Tpm | Mock | Unknown

fun show_tee_class :: "TeeClass \<Rightarrow> string" where
  "show_tee_class IntelSgx = ''intel_sgx''"
| "show_tee_class IntelTdx = ''intel_tdx''"
| "show_tee_class AmdSevSnp = ''amd_sev_snp''"
| "show_tee_class ArmTrustZone = ''arm_trustzone''"
| "show_tee_class TeeClass.NvidiaGpu = ''nvidia_gpu''"
| "show_tee_class TeeClass.AwsNitro = ''aws_nitro''"
| "show_tee_class TeeClass.Tpm = ''tpm''"
| "show_tee_class TeeClass.Mock = ''mock''"
| "show_tee_class TeeClass.Unknown = ''unknown''"

fun tee_class_of :: "QuoteType \<Rightarrow> TeeClass" where
  "tee_class_of Sgx = IntelSgx"
| "tee_class_of Tdx = IntelTdx"
| "tee_class_of SevSnp = AmdSevSnp"
| "tee_class_of TrustZone = ArmTrustZone"
| "tee_class_of QuoteType.NvidiaGpu = TeeClass.NvidiaGpu"
| "tee_class_of QuoteType.AwsNitro = TeeClass.AwsNitro"
| "tee_class_of QuoteType.Tpm = TeeClass.Tpm"
| "tee_class_of QuoteType.Mock = TeeClass.Mock"
| "tee_class_of ZkCompressed = TeeClass.Unknown"
| "tee_class_of (QuoteType.Unknown s) = TeeClass.Unknown"

record EatClaims =
  ueid :: "bytes option"
  hwmodel :: "string option"
  hwversion :: "string option"
  oemid :: "string option"
  dbgstat :: "byte option"
  boot_progress :: "string option"
  security_version :: "u16 option"
  iat :: "u64 option"
  exp :: "u64 option"
  tee_class :: "TeeClass option"

datatype VerificationResult =
  VerificationResult (eat_token: "bytes option") (claims: EatClaims) (tcb_status: string)
    (measurement: "string option") (signer_id: "string option") (secondary: "VerificationResult list")

datatype AttestError =
    MalformedQuote string | SignatureInvalid | TcbOutOfDate string | ServiceError string
  | NetworkError string | PolicyViolation string | RevokedError string | Malformed string

definition reject_debug_builds :: "VerificationResult \<Rightarrow> bool \<Rightarrow> AttestError + unit" where
  "reject_debug_builds r allow_debug =
     (let is_debug = (case dbgstat (claims r) of None \<Rightarrow> 0 | Some d \<Rightarrow> d) \<noteq> 0
      in if is_debug \<and> \<not> allow_debug
         then Inl (PolicyViolation ''debug-mode enclave quotes are not accepted in production'')
         else Inr ())"

datatype ClientSecurityPosture = MutualTee TeeClass | SimulatedTee | OneDirectional

definition client_posture :: "VerificationResult option \<Rightarrow> ClientSecurityPosture" where
  "client_posture r =
     (case r of
        None \<Rightarrow> OneDirectional
      | Some res \<Rightarrow>
          (case tee_class (claims res) of
             Some TeeClass.Mock \<Rightarrow> SimulatedTee
           | Some cls \<Rightarrow> MutualTee cls
           | None \<Rightarrow> MutualTee TeeClass.Unknown))"

subsection \<open>Federation manifests\<close>

record FederationEntry =
  entry_tee_class :: TeeClass
  measurement_hex :: string
  label :: string
  min_svn :: "u16 option"
  allow_debug :: bool

datatype ManifestSignature =
    Operator bytes bytes
  | Quorum u32 "(bytes \<times> bytes) list"

record FederationManifest =
  manifest_version :: u32
  issued_at :: u64
  manifest_expires_at :: u64
  entries :: "FederationEntry list"
  manifest_signature :: ManifestSignature

definition manifest_is_valid :: "FederationManifest \<Rightarrow> u64 \<Rightarrow> bool" where
  "manifest_is_valid m now \<longleftrightarrow> now < manifest_expires_at m"

definition entries_for :: "FederationManifest \<Rightarrow> TeeClass \<Rightarrow> FederationEntry list" where
  "entries_for m c = filter (\<lambda>e. entry_tee_class e = c) (entries m)"

definition ascii_lower :: "char \<Rightarrow> char" where
  "ascii_lower c =
     (let n = of_char c :: nat in if 65 \<le> n \<and> n \<le> 90 then char_of (n + 32) else c)"

definition eq_ignore_ascii_case :: "string \<Rightarrow> string \<Rightarrow> bool" where
  "eq_ignore_ascii_case s t \<longleftrightarrow> map ascii_lower s = map ascii_lower t"

definition entry_allows :: "FederationEntry \<Rightarrow> string \<Rightarrow> u16 option \<Rightarrow> bool \<Rightarrow> bool" where
  "entry_allows e m svn is_debug \<longleftrightarrow>
     (let measurement_ok = measurement_hex e = [] \<or> eq_ignore_ascii_case (measurement_hex e) m;
          svn_ok = (case (min_svn e, svn) of
              (Some mn, Some actual) \<Rightarrow> actual \<ge> mn
            | (Some _, None) \<Rightarrow> False
            | (None, _) \<Rightarrow> True);
          debug_ok = \<not> is_debug \<or> allow_debug e
      in measurement_ok \<and> svn_ok \<and> debug_ok)"

definition manifest_allows ::
    "FederationManifest \<Rightarrow> TeeClass \<Rightarrow> string \<Rightarrow> u16 option \<Rightarrow> bool \<Rightarrow> bool" where
  "manifest_allows m c meas svn is_debug =
     list_ex (\<lambda>e. entry_allows e meas svn is_debug) (entries_for m c)"

subsection \<open>Provenance chains\<close>

record AgentMetadata =
  agent_id :: uuid
  agent_name :: string
  capabilities :: "string list"
  endpoint :: string
  public_key :: bytes
  last_quote :: "AttestQuote option"
  agent_signature :: bytes
  prev_hash :: "bytes option"

definition agent_anonymize :: "uuid \<Rightarrow> AgentMetadata \<Rightarrow> AgentMetadata" where
  "agent_anonymize fresh a =
     \<lparr>agent_id = fresh, agent_name = ''anonymous_agent'', capabilities = capabilities a,
      endpoint = [], public_key = public_key a, last_quote = None,
      agent_signature = agent_signature a, prev_hash = prev_hash a\<rparr>"

record ProvenanceChain =
  hops :: "AgentMetadata list"

definition chain_append :: "ProvenanceChain \<Rightarrow> AgentMetadata \<Rightarrow> ProvenanceChain" where
  "chain_append c a = c\<lparr>hops := hops c @ [a]\<rparr>"

definition contains_agent :: "ProvenanceChain \<Rightarrow> string \<Rightarrow> bool" where
  "contains_agent c name = list_ex (\<lambda>h. agent_name h = name) (hops c)"

definition chain_origin :: "ProvenanceChain \<Rightarrow> AgentMetadata option" where
  "chain_origin c = (case hops c of [] \<Rightarrow> None | h # _ \<Rightarrow> Some h)"

definition chain_previous :: "ProvenanceChain \<Rightarrow> AgentMetadata option" where
  "chain_previous c = (if hops c = [] then None else Some (last (hops c)))"

definition chain_anonymize :: "(nat \<Rightarrow> uuid) \<Rightarrow> ProvenanceChain \<Rightarrow> ProvenanceChain" where
  "chain_anonymize fresh c =
     \<lparr>hops = map2 (\<lambda>i h. agent_anonymize (fresh i) h) [0..<length (hops c)] (hops c)\<rparr>"

subsection \<open>Names and identifiers\<close>

lemma suite_numeric_id_inj [simp]: "suite_numeric_id a = suite_numeric_id b \<longleftrightarrow> a = b"
  by (cases a; cases b) simp_all

lemma version_numeric_id_inj [simp]: "version_numeric_id a = version_numeric_id b \<longleftrightarrow> a = b"
  by (cases a; cases b) simp_all

lemma show_parse_quote_type: "show_quote_type (parse_quote_type s) = s"
  by (simp add: parse_quote_type_def)

lemma show_parse_quote_format: "show_quote_format (parse_quote_format s) = s"
  by (simp add: parse_quote_format_def)

lemma parse_show_suite:
  "parse_suite env (show_suite c) = (if is_legacy c \<and> env \<noteq> Some ''1'' then None else Some c)"
  by (cases c) (simp_all add: parse_suite_def)

lemma parse_show_version: "parse_version (show_version v) = Some v"
  by (cases v) (simp_all add: parse_version_def)

lemma parse_show_quote_type:
  "(\<nexists>s. q = QuoteType.Unknown s) \<Longrightarrow> parse_quote_type (show_quote_type q) = q"
  by (cases q) (simp_all add: parse_quote_type_def)

text \<open>
  Names survive the wire: parsing a printed version or cipher suite gives it back, except that the
  deprecated P-256 suite parses only when the environment allows it; printing a parsed quote type
  or format gives the received string back, and known quote types parse to themselves.
\<close>
lemma wire_names_round_trip:
  "parse_version (show_version v) = Some v \<and>
   parse_suite env (show_suite c) = (if is_legacy c \<and> env \<noteq> Some ''1'' then None else Some c) \<and>
   show_quote_type (parse_quote_type s) = s \<and> show_quote_format (parse_quote_format s) = s \<and>
   parse_quote_type (show_quote_type (parse_quote_type s)) = parse_quote_type s"
  by (simp add: parse_show_version parse_show_suite show_parse_quote_type show_parse_quote_format)

lemma entry_allows_iff:
  "entry_allows e meas svn dbg \<longleftrightarrow>
     (measurement_hex e = [] \<or> map ascii_lower (measurement_hex e) = map ascii_lower meas) \<and>
     (\<forall>mn. min_svn e = Some mn \<longrightarrow> (\<exists>v. svn = Some v \<and> mn \<le> v)) \<and> (dbg \<longrightarrow> allow_debug e)"
  by (cases "min_svn e"; cases svn) (auto simp: entry_allows_def eq_ignore_ascii_case_def)

text \<open>
  A manifest admits an enclave exactly when some entry for its class has the measurement (compared
  without regard to letter case, or left empty as a wildcard), requires no higher security version
  than the enclave reports, and permits debug mode if the enclave is in debug mode. In particular
  an enclave in debug mode is refused by a manifest without a debug entry for its class.
\<close>
lemma manifest_allows_iff:
  "manifest_allows m c meas svn dbg \<longleftrightarrow>
     (\<exists>e\<in>set (entries m). entry_tee_class e = c \<and>
        (measurement_hex e = [] \<or> map ascii_lower (measurement_hex e) = map ascii_lower meas) \<and>
        (\<forall>mn. min_svn e = Some mn \<longrightarrow> (\<exists>v. svn = Some v \<and> mn \<le> v)) \<and>
        (dbg \<longrightarrow> allow_debug e))"
  unfolding manifest_allows_def entries_for_def list_ex_iff entry_allows_iff by auto

lemma ascii_lower_eval:
  "ascii_lower CHR ''A'' = CHR ''a''" "ascii_lower CHR ''B'' = CHR ''b''"
  "ascii_lower CHR ''a'' = CHR ''a''" "ascii_lower CHR ''b'' = CHR ''b''"
  by code_simp+

end
