(* ===== verification/Session.thy ===== *)
theory Session
  imports Replay_Guard Protocol_State Key_Schedule Proto
begin

section \<open>Attested sessions\<close>

text \<open>
  \<open>openhttpa-core/src/session/mod.rs\<close>. A session is the record behind the mutex; every method is one
  step on it. The clock readings of the source are arguments: \<open>now\<close> for \<open>Instant::now()\<close> and
  \<open>now_sys\<close> for \<open>SystemTime::now()\<close>. The closure that a caller passes in is a function argument; its
  result type carries the caller's error on the left. \<open>SealedSessionKeys\<close> only wraps the keys.

  The lemmas show that no request nonce is processed twice, what an unauthenticated request can
  change, and what export and restore keep.
\<close>

datatype SessionError = Transition TransitionError | Expired | NotAttested | ReplayRejected | CounterOverflow

datatype ReplayStrategy = StrictMonotonic | SlidingWindow nat

definition replay_strategy_default :: ReplayStrategy where
  "replay_strategy_default = SlidingWindow 64"

record AttestSession =
  session_id :: AtbId
  cipher_suite :: CipherSuite
  version :: ProtocolVersion
  phase :: ProtocolPhase
  keys :: SessionKeys
  expires_at :: time
  replay_guard :: ReplayGuard
  strict_last_seen :: u64
  replay_strategy :: ReplayStrategy
  client_counter :: u64
  server_counter :: u64
  attestation_result :: "VerificationResult option"

record SessionState =
  st_id :: AtbId
  st_cipher_suite :: CipherSuite
  st_version :: ProtocolVersion
  st_phase :: ProtocolPhase
  st_expires_at :: time
  st_attestation_result :: "VerificationResult option"

record DurableSessionState =
  d_id :: AtbId
  d_cipher_suite :: CipherSuite
  d_version :: ProtocolVersion
  d_phase :: ProtocolPhase
  d_keys :: SessionKeys
  d_resumption_secret :: bytes
  d_expires_at :: time
  d_client_counter :: u64
  d_server_counter :: u64
  d_replay_highest :: u64
  d_replay_window :: "u64 list"
  d_attestation_result :: "VerificationResult option"

definition session_new ::
    "AtbId \<Rightarrow> CipherSuite \<Rightarrow> ProtocolVersion \<Rightarrow> SessionKeys \<Rightarrow> time \<Rightarrow> ReplayStrategy \<Rightarrow>
     VerificationResult option \<Rightarrow> AttestSession" where
  "session_new i suite ver ks exp_at strategy res =
     \<lparr>session_id = i, cipher_suite = suite, version = ver, phase = Attested, keys = ks,
      expires_at = exp_at, replay_guard = guard_new 64, strict_last_seen = 0,
      replay_strategy = strategy, client_counter = 1, server_counter = 1,
      attestation_result = res\<rparr>"

definition session_state :: "AttestSession \<Rightarrow> SessionState" where
  "session_state s =
     \<lparr>st_id = session_id s, st_cipher_suite = cipher_suite s, st_version = version s,
      st_phase = phase s, st_expires_at = expires_at s,
      st_attestation_result = attestation_result s\<rparr>"

definition session_posture :: "AttestSession \<Rightarrow> ClientSecurityPosture" where
  "session_posture s = client_posture (attestation_result s)"

definition is_alive :: "AttestSession \<Rightarrow> time \<Rightarrow> bool" where
  "is_alive s now \<longleftrightarrow> now < expires_at s"

definition advance_phase :: "AttestSession \<Rightarrow> ProtocolPhase \<Rightarrow> (SessionError + unit) \<times> AttestSession" where
  "advance_phase s next =
     (case transition (phase s) next of
        Inl e \<Rightarrow> (Inl (Transition e), s)
      | Inr new_phase \<Rightarrow> (Inr (), s\<lparr>phase := new_phase\<rparr>))"

definition peek_keys :: "AttestSession \<Rightarrow> time \<Rightarrow> (SessionKeys \<Rightarrow> 'r) \<Rightarrow> SessionError + 'r" where
  "peek_keys s now f = (if now \<ge> expires_at s then Inl Expired else Inr (f (keys s)))"

definition trr_check :: "AttestSession \<Rightarrow> u64 \<Rightarrow> AttestSession option" where
  "trr_check s nonce =
     (case replay_strategy s of
        SlidingWindow _ \<Rightarrow> (case guard_check (replay_guard s) nonce of Inl e \<Rightarrow> None | Inr _ \<Rightarrow> Some s)
      | StrictMonotonic \<Rightarrow>
          if nonce \<le> strict_last_seen s then None else Some (s\<lparr>strict_last_seen := nonce\<rparr>))"

definition trr_commit :: "AttestSession \<Rightarrow> u64 \<Rightarrow> AttestSession" where
  "trr_commit s nonce =
     (case replay_strategy s of
        SlidingWindow _ \<Rightarrow> s\<lparr>replay_guard := guard_accept (replay_guard s) nonce\<rparr>
      | StrictMonotonic \<Rightarrow> s)"

definition trr_rollback :: "AttestSession \<Rightarrow> u64 \<Rightarrow> AttestSession" where
  "trr_rollback s nonce =
     (case replay_strategy s of
        StrictMonotonic \<Rightarrow> s\<lparr>strict_last_seen := saturating_sub nonce 1\<rparr>
      | SlidingWindow _ \<Rightarrow> s)"

definition with_keys_for_trr ::
    "AttestSession \<Rightarrow> time \<Rightarrow> u64 \<Rightarrow> (SessionKeys \<Rightarrow> u64 \<Rightarrow> 'e + 't) \<Rightarrow>
     (SessionError + ('e + 't)) \<times> AttestSession" where
  "with_keys_for_trr s now nonce f =
     (if now \<ge> expires_at s then (Inl Expired, s)
      else if \<not> allows_trusted_request (phase s) then (Inl NotAttested, s)
      else case trr_check s nonce of
          None \<Rightarrow> (Inl ReplayRejected, s)
        | Some s1 \<Rightarrow>
            (let counter = client_counter s1; result = f (keys s1) counter
             in case result of
                  Inr t \<Rightarrow>
                    (let s2 = trr_commit s1 nonce
                     in case checked_add1 (client_counter s2) of
                          None \<Rightarrow> (Inl CounterOverflow, s2)
                        | Some c \<Rightarrow> (Inr (Inr t), s2\<lparr>client_counter := c\<rparr>))
                | Inl e \<Rightarrow> (Inr (Inl e), trr_rollback s1 nonce)))"

definition with_keys_for_next_trr ::
    "AttestSession \<Rightarrow> time \<Rightarrow> (SessionKeys \<Rightarrow> u64 \<Rightarrow> 'e + 't) \<Rightarrow>
     (SessionError + ('e + 't)) \<times> AttestSession" where
  "with_keys_for_next_trr s now f = with_keys_for_trr s now (client_counter s) f"

definition with_keys_for_trs ::
    "AttestSession \<Rightarrow> time \<Rightarrow> (SessionKeys \<Rightarrow> u64 \<Rightarrow> 'r) \<Rightarrow> (SessionError + 'r) \<times> AttestSession" where
  "with_keys_for_trs s now f =
     (if now \<ge> expires_at s then (Inl Expired, s)
      else
        let counter = server_counter s; result = f (keys s) counter
        in case checked_add1 (server_counter s) of
             None \<Rightarrow> (Inl CounterOverflow, s)
           | Some c \<Rightarrow> (Inr result, s\<lparr>server_counter := c\<rparr>))"

definition export_durable :: "AttestSession \<Rightarrow> time \<Rightarrow> time \<Rightarrow> DurableSessionState" where
  "export_durable s now now_sys =
     \<lparr>d_id = session_id s, d_cipher_suite = cipher_suite s, d_version = version s, d_phase = phase s,
      d_keys = keys s, d_resumption_secret = resumption_master_secret (keys s),
      d_expires_at = (if expires_at s > now then now_sys + (expires_at s - now) else now_sys),
      d_client_counter = client_counter s, d_server_counter = server_counter s,
      d_replay_highest = fst (guard_export_state (replay_guard s)),
      d_replay_window = snd (guard_export_state (replay_guard s)),
      d_attestation_result = attestation_result s\<rparr>"

definition from_durable :: "DurableSessionState \<Rightarrow> time \<Rightarrow> time \<Rightarrow> AttestSession" where
  "from_durable d now now_sys =
     (let w = take 64 (d_replay_window d); w64 = w @ replicate (64 - length w) 0
      in \<lparr>session_id = d_id d, cipher_suite = d_cipher_suite d, version = d_version d,
          phase = d_phase d, keys = d_keys d,
          expires_at = (if d_expires_at d > now_sys then now + (d_expires_at d - now_sys) else now),
          replay_guard = guard_import_state (guard_new 64) (d_replay_highest d) w64,
          strict_last_seen = saturating_sub (d_client_counter d) 1,
          replay_strategy = replay_strategy_default, client_counter = d_client_counter d,
          server_counter = d_server_counter d, attestation_result = d_attestation_result d\<rparr>)"

subsection \<open>Refusals\<close>

lemma is_alive_iff [simp]: "is_alive s now \<longleftrightarrow> \<not> expires_at s \<le> now"
  by (auto simp: is_alive_def)

lemmas trr_defs = with_keys_for_trr_def trr_check_def trr_commit_def trr_rollback_def Let_def

lemma trr_frame:
  "with_keys_for_trr s now n f = (r, s') \<Longrightarrow>
     session_id s' = session_id s \<and> cipher_suite s' = cipher_suite s \<and> version s' = version s \<and>
     phase s' = phase s \<and> keys s' = keys s \<and> expires_at s' = expires_at s \<and>
     replay_strategy s' = replay_strategy s \<and> server_counter s' = server_counter s \<and>
     attestation_result s' = attestation_result s"
  by (auto simp: trr_defs split: if_splits option.splits sum.splits ReplayStrategy.splits)

text \<open>
  The keys are out of reach unless the session is alive, its phase allows trusted requests, and
  the nonce passes the replay check: otherwise the answer is the corresponding error, the session
  is unchanged, and neither depends on the caller's closure. An expired session likewise refuses
  \<open>peek_keys\<close> and \<open>with_keys_for_trs\<close>.
\<close>
lemma keys_refused:
  "(expires_at s \<le> now \<longrightarrow>
      with_keys_for_trr s now n f = (Inl Expired, s) \<and>
      with_keys_for_trs s now g = (Inl Expired, s) \<and> peek_keys s now h = Inl Expired) \<and>
   (is_alive s now \<and> \<not> allows_trusted_request (phase s) \<longrightarrow>
      with_keys_for_trr s now n f = (Inl NotAttested, s)) \<and>
   (is_alive s now \<and> allows_trusted_request (phase s) \<and> trr_check s n = None \<longrightarrow>
      with_keys_for_trr s now n f = (Inl ReplayRejected, s))"
  by (simp add: with_keys_for_trr_def with_keys_for_trs_def peek_keys_def)

subsection \<open>Every nonce is processed at most once\<close>

text \<open>
  A history of a session mixes trusted requests, responses, phase changes and restarts that export
  the session and restore it at later clock readings. A request issues its nonce when its closure
  succeeds and the session confirms it.
\<close>

datatype ('e, 't) session_op =
    Trr time u64 "SessionKeys \<Rightarrow> u64 \<Rightarrow> 'e + 't"
  | Trs time
  | Advance ProtocolPhase
  | ExportRestore time time time time

fun session_step :: "AttestSession \<Rightarrow> ('e, 't) session_op \<Rightarrow> (unit + u64) \<times> AttestSession" where
  "session_step s (Trr now nonce f) =
     (case with_keys_for_trr s now nonce f of
        (Inr (Inr t), s') \<Rightarrow> (Inr nonce, s')
      | (_, s') \<Rightarrow> (Inl (), s'))"
| "session_step s (Trs now) = (Inl (), snd (with_keys_for_trs s now (\<lambda>_ _. ())))"
| "session_step s (Advance p) = (Inl (), snd (advance_phase s p))"
| "session_step s (ExportRestore t1 t2 t3 t4) =
     (Inl (), from_durable (export_durable s t1 t2) t3 t4)"

definition sliding_used :: "AttestSession \<Rightarrow> u64 set \<Rightarrow> bool" where
  "sliding_used s A \<longleftrightarrow>
     (\<exists>w. replay_strategy s = SlidingWindow w) \<and> length (window (replay_guard s)) = 64 \<and>
     (\<exists>B. guard_seen (replay_guard s) B \<and> A \<subseteq> B)"

definition strict_used :: "AttestSession \<Rightarrow> u64 set \<Rightarrow> bool" where
  "strict_used s A \<longleftrightarrow> replay_strategy s = StrictMonotonic \<and> (\<forall>a\<in>A. a \<le> strict_last_seen s)"

lemma trr_sliding:
  assumes "replay_strategy s = SlidingWindow w" "with_keys_for_trr s now n f = (r, s')"
  shows "replay_guard s' = replay_guard s \<and> (\<nexists>t. r = Inr (Inr t)) \<or>
         guard_check (replay_guard s) n = Inr () \<and> replay_guard s' = guard_accept (replay_guard s) n"
  using assms by (auto simp: trr_defs split: if_splits option.splits sum.splits)

lemma saturating_sub_pos: "a < (n :: u64) \<Longrightarrow> saturating_sub n 1 = n - 1"
  using unat_less_64 [of n] by (auto simp: saturating_sub_def word_le_nat_alt word_less_nat_alt)

lemma word_le_pred: "a < (n :: u64) \<Longrightarrow> a \<le> n - 1"
proof -
  assume "a < n"
  then have "unat (n - 1) = unat n - 1"
    by (metis saturating_sub_pos unat_saturating_sub unsigned_1)
  with \<open>a < n\<close> show ?thesis by (simp add: word_le_nat_alt word_less_nat_alt)
qed

lemma trr_strict:
  assumes "replay_strategy s = StrictMonotonic" "with_keys_for_trr s now n f = (r, s')"
  shows "s' = s \<and> (\<nexists>t. r = Inr (Inr t)) \<or>
         strict_last_seen s < n \<and>
           (strict_last_seen s' = n \<or> strict_last_seen s' = n - 1 \<and> (\<nexists>t. r = Inr (Inr t)))"
  using assms
  by (auto simp: trr_defs saturating_sub_pos not_le split: if_splits option.splits sum.splits)

lemma export_restore_guard:
  "length (window (replay_guard s)) = 64 \<Longrightarrow>
     replay_guard (from_durable (export_durable s t1 t2) t3 t4) = replay_guard s"
  by (simp add: from_durable_def export_durable_def guard_export_state_def guard_import_state_def
      guard_new_def Let_def)

lemma session_step_Trr_Inr:
  "session_step s (Trr now n f) = (Inr m, s') \<Longrightarrow> m = n \<and> (\<exists>t. with_keys_for_trr s now n f = (Inr (Inr t), s'))"
  by (auto split: prod.splits sum.splits)

lemma session_step_Trr_Inl:
  "session_step s (Trr now n f) = (Inl u, s') \<Longrightarrow>
     \<exists>r. with_keys_for_trr s now n f = (r, s') \<and> (\<nexists>t. r = Inr (Inr t))"
  by (auto split: prod.splits sum.splits)

lemma sliding_used_trr:
  assumes "sliding_used s A" "with_keys_for_trr s now n f = (r, s')"
  shows "sliding_used s' A \<and> ((\<exists>t. r = Inr (Inr t)) \<longrightarrow> n \<notin> A \<and> sliding_used s' (insert n A))"
proof -
  obtain w B where s: "replay_strategy s = SlidingWindow w" "length (window (replay_guard s)) = 64"
    "guard_seen (replay_guard s) B" "A \<subseteq> B"
    using assms(1) by (auto simp: sliding_used_def)
  have st: "replay_strategy s' = SlidingWindow w" using trr_frame [OF assms(2)] s(1) by simp
  from trr_sliding [OF s(1) assms(2)] show ?thesis
  proof
    assume "replay_guard s' = replay_guard s \<and> (\<nexists>t. r = Inr (Inr t))"
    with st s show ?thesis by (auto simp: sliding_used_def)
  next
    assume g: "guard_check (replay_guard s) n = Inr () \<and> replay_guard s' = guard_accept (replay_guard s) n"
    then have "n \<notin> B" "guard_seen (replay_guard s') (insert n B)"
      using guard_checked_seen [OF s(3)] by auto
    with g st s show ?thesis by (auto simp: sliding_used_def)
  qed
qed

lemma strict_used_trr:
  assumes "strict_used s A" "with_keys_for_trr s now n f = (r, s')"
  shows "strict_used s' A \<and> ((\<exists>t. r = Inr (Inr t)) \<longrightarrow> n \<notin> A \<and> strict_used s' (insert n A))"
proof -
  have s: "replay_strategy s = StrictMonotonic" "\<forall>a\<in>A. a \<le> strict_last_seen s"
    using assms(1) by (auto simp: strict_used_def)
  have st: "replay_strategy s' = StrictMonotonic" using trr_frame [OF assms(2)] s(1) by simp
  from trr_strict [OF s(1) assms(2)] show ?thesis
  proof
    assume "strict_last_seen s < n \<and>
      (strict_last_seen s' = n \<or> strict_last_seen s' = n - 1 \<and> (\<nexists>t. r = Inr (Inr t)))"
    moreover from this have "strict_last_seen s \<le> n - 1"
      by (auto intro: word_le_pred)
    ultimately show ?thesis using st s(2) by (fastforce simp: strict_used_def)
  qed (use assms(1) in \<open>simp add: strict_used_def\<close>)
qed

lemma sliding_used_other:
  "sliding_used s A \<Longrightarrow> sliding_used (snd (with_keys_for_trs s now g)) A"
  "sliding_used s A \<Longrightarrow> sliding_used (snd (advance_phase s p)) A"
  "sliding_used s A \<Longrightarrow> sliding_used (from_durable (export_durable s t1 t2) t3 t4) A"
  by (auto simp: sliding_used_def with_keys_for_trs_def advance_phase_def export_restore_guard Let_def
      split: option.splits sum.splits)
    (auto simp: from_durable_def replay_strategy_default_def Let_def)

lemma strict_used_other:
  "strict_used s A \<Longrightarrow> strict_used (snd (with_keys_for_trs s now g)) A"
  "strict_used s A \<Longrightarrow> strict_used (snd (advance_phase s p)) A"
  by (auto simp: strict_used_def with_keys_for_trs_def advance_phase_def Let_def
      split: option.splits sum.splits)

lemma sliding_step_used:
  assumes "sliding_used s A" "session_step s x = (r, s')"
  shows "(\<forall>n. r = Inr n \<longrightarrow> n \<notin> A \<and> sliding_used s' (insert n A)) \<and>
         ((\<exists>e. r = Inl e) \<longrightarrow> sliding_used s' A)"
proof (cases x)
  case (Trr now n f)
  show ?thesis
  proof (cases r)
    case (Inl e)
    with Trr assms(2) obtain q where "with_keys_for_trr s now n f = (q, s')"
      using session_step_Trr_Inl by blast
    from sliding_used_trr [OF assms(1) this] Inl show ?thesis by simp
  next
    case (Inr m)
    with Trr assms(2) obtain t where "m = n" "with_keys_for_trr s now n f = (Inr (Inr t), s')"
      using session_step_Trr_Inr by blast
    with sliding_used_trr [OF assms(1) this(2)] Inr show ?thesis by simp
  qed
qed (use assms sliding_used_other [OF assms(1)] in auto)

fun live_step :: "AttestSession \<Rightarrow> ('e, 't) session_op \<Rightarrow> (unit + u64) \<times> AttestSession" where
  "live_step s (ExportRestore _ _ _ _) = (Inl (), s)"
| "live_step s op = session_step s op"

lemma strict_step_used:
  assumes "strict_used s A" "live_step s x = (r, s')"
  shows "(\<forall>n. r = Inr n \<longrightarrow> n \<notin> A \<and> strict_used s' (insert n A)) \<and>
         ((\<exists>e. r = Inl e) \<longrightarrow> strict_used s' A)"
proof (cases x)
  case (Trr now n f)
  with assms(2) have st: "session_step s (Trr now n f) = (r, s')" by simp
  show ?thesis
  proof (cases r)
    case (Inl e)
    with st obtain q where "with_keys_for_trr s now n f = (q, s')"
      using session_step_Trr_Inl by blast
    from strict_used_trr [OF assms(1) this] Inl show ?thesis by simp
  next
    case (Inr m)
    with st obtain t where "m = n" "with_keys_for_trr s now n f = (Inr (Inr t), s')"
      using session_step_Trr_Inr by blast
    with strict_used_trr [OF assms(1) this(2)] Inr show ?thesis by simp
  qed
qed (use assms strict_used_other [OF assms(1)] in auto)

interpretation sliding_session: fresh_source session_step sliding_used
  by unfold_locales (use sliding_step_used in blast)+

interpretation strict_session: fresh_source live_step strict_used
  by unfold_locales (use strict_step_used in blast)+

text \<open>
  C9. A session with the sliding-window strategy processes every request nonce at most once, over any
  history of requests, responses, phase changes, and restarts from exported state.
\<close>
theorem sliding_session_nonce_once:
  "distinct (issued_by session_step (session_new i suite ver ks e (SlidingWindow w) res) ops)"
proof (rule sliding_session.issued_distinct)
  show "sliding_used (session_new i suite ver ks e (SlidingWindow w) res) {}"
    using guard_seen_new [of 64] by (auto simp: sliding_used_def session_new_def guard_new_def)
qed

text \<open>
  A session with the strict-monotonic strategy processes every request nonce at most once while it
  lives, including after rolled-back requests.
\<close>
lemma strict_session_nonce_once:
  "distinct (issued_by live_step (session_new i suite ver ks e StrictMonotonic res) ops)"
proof (rule strict_session.issued_distinct)
  show "strict_used (session_new i suite ver ks e StrictMonotonic res) {}" by (simp add: strict_used_def session_new_def)
qed

subsection \<open>What an unauthenticated request can change\<close>

text \<open>
  With the sliding-window strategy a request whose closure fails (a forged or damaged message)
  leaves the session exactly as it was, so it can neither block a nonce nor advance a counter.
\<close>
lemma sliding_failed_request_no_effect:
  assumes "replay_strategy s = SlidingWindow w" and "\<And>k c. isl (f k c)"
  shows "snd (with_keys_for_trr s now n f) = s"
proof -
  have "\<exists>e. f k c = Inl e" for k c using assms(2) [of k c] by (cases "f k c") auto
  then obtain e where "f (keys s) (client_counter s) = Inl e" by blast
  with assms(1) show ?thesis
    by (auto simp: trr_defs split: option.splits sum.splits)
qed

definition some_keys :: SessionKeys where
  "some_keys = \<lparr>master_secret = [], resumption_master_secret = [], client_write_key = [],
     server_write_key = [], client_write_iv = [], server_write_iv = [], client_mac_key = [],
     server_mac_key = [], transcript_hash = []\<rparr>"

abbreviation demo_session :: "ReplayStrategy \<Rightarrow> AttestSession" where
  "demo_session st \<equiv> session_new 7 X25519MlKem768Aes256GcmSha384 V2 some_keys 100 st None"

text \<open>
  With the strict-monotonic strategy a request whose closure fails is not without effect: the
  rollback stores the failed nonce minus one instead of the previous value. After a forged request
  with nonce \<open>n\<close> every genuine nonce \<open>m\<close> below \<open>n\<close> is rejected as a replay, although it was never used.
\<close>
lemma strict_failed_request_locks_out:
  assumes "replay_strategy s = StrictMonotonic" and "is_alive s now" and "allows_trusted_request (phase s)"
    and "f (keys s) (client_counter s) = Inl e"
    and "strict_last_seen s < m" and "m < n"
  shows "\<exists>s'. with_keys_for_trr s now n f = (Inr (Inl e), s') \<and> strict_last_seen s' = n - 1 \<and>
           with_keys_for_trr s' now m g = (Inl ReplayRejected, s')"
proof -
  have "strict_last_seen s < n" using assms(5,6) by (rule less_trans)
  let ?t = "s\<lparr>strict_last_seen := n - 1\<rparr>"
  have "with_keys_for_trr s now n f = (Inr (Inl e), ?t)"
    using assms(1-4) \<open>strict_last_seen s < n\<close> saturating_sub_pos [OF assms(6)]
    by (simp add: trr_defs)
  moreover have "with_keys_for_trr ?t now m g = (Inl ReplayRejected, ?t)"
    using assms(1-3) word_le_pred [OF assms(6)] by (simp add: trr_defs)
  ultimately show ?thesis by fastforce
qed

subsection \<open>Export and restore\<close>

text \<open>
  Exporting a sliding-window session and restoring it later keeps its identity, keys, phase,
  counters, replay state and remaining lifetime: the restored session expires exactly as long
  after the restore as the original would have expired after the export, less the wall-clock time
  that passed.
\<close>
lemma export_restore_round_trip:
  assumes "length (window (replay_guard s)) = 64" and "replay_strategy s = SlidingWindow 64"
    and "now < expires_at s" and "sys \<le> sys'" and "sys' < sys + (expires_at s - now)"
  shows "from_durable (export_durable s now sys) now' sys' =
           s\<lparr>expires_at := now' + (expires_at s - now - (sys' - sys)),
             strict_last_seen := saturating_sub (client_counter s) 1\<rparr>"
  using assms export_restore_guard [OF assms(1), of now sys now' sys']
  by (cases s) (simp add: from_durable_def export_durable_def replay_strategy_default_def Let_def)

text \<open>
  A strict-monotonic session does not survive export and restore: the restored session runs the
  sliding-window strategy over a guard that never saw the accepted nonces, so the nonce of an
  already processed request is accepted a second time.
\<close>
lemma strict_restore_accepts_replay:
  assumes "s = session_new i suite ver ks e StrictMonotonic res" and "0 < n" and "now < e"
    and "\<And>k c. \<exists>t. f k c = Inr t" and "sys' < sys + (e - now)"
  shows "\<exists>t s1 u s2. with_keys_for_trr s now n f = (Inr (Inr t), s1) \<and>
           with_keys_for_trr (from_durable (export_durable s1 now sys) now' sys') now' n f = (Inr (Inr u), s2)"
proof -
  obtain t where t: "f (keys s) 1 = Inr t" using assms(4) by blast
  obtain u where u: "f (keys s) 2 = Inr u" using assms(4) by blast
  let ?s1 = "s\<lparr>strict_last_seen := n, client_counter := 2\<rparr>"
  have 1: "with_keys_for_trr s now n f = (Inr (Inr t), ?s1)"
    using t assms(1-3) by (simp add: session_new_def trr_defs checked_add1_def word_greater_zero_iff)
  let ?r = "from_durable (export_durable ?s1 now sys) now' sys'"
  have g: "replay_guard ?r = guard_new 64"
    using assms(1) export_restore_guard [of ?s1] by (simp add: session_new_def guard_new_def)
  have r: "phase ?r = Attested" "keys ?r = keys s" "client_counter ?r = 2" "now' < expires_at ?r"
    "replay_strategy ?r = SlidingWindow 64"
    using assms(1,3,5)
    by (simp_all add: from_durable_def export_durable_def Let_def session_new_def replay_strategy_default_def)
  have "guard_check (replay_guard ?r) n = Inr ()"
    using assms(2) g by (simp add: guard_check_def guard_new_def word_greater_zero_iff)
  then have "\<exists>s2. with_keys_for_trr ?r now' n f = (Inr (Inr u), s2)"
    using r u by (simp add: trr_defs checked_add1_def)
  with 1 show ?thesis by blast
qed

end
