(* ===== verification/Tickets.thy ===== *)
theory Tickets
  imports Session Aead_Nonces
begin

section \<open>Resumption tickets\<close>

text \<open>
  \<open>openhttpa-core/src/session/ticket.rs\<close>, \<open>session/builder.rs\<close> and
  \<open>openhttpa-server/src/ticket_engine_fs.rs\<close>. The \<open>postcard\<close> serialisation of the durable state and
  the AEAD package are parameters. Fresh random keys are arguments. A key file holds either the
  engine state that was last written or content that does not parse; a failed write or rename
  leaves it as it was.

  The lemmas show that a sealed ticket is unsealed to the same state until it expires, also after
  one key rotation, that one key seals with distinct nonces, and that the file-backed engine loses
  its counter over a restart.
\<close>

subsection \<open>Session builder\<close>

datatype builder_state = BuilderInit | BuilderAtHsInProgress

definition begin_handshake :: "builder_state \<Rightarrow> builder_state" where
  "begin_handshake b = BuilderAtHsInProgress"

definition complete_handshake ::
    "AtbId \<Rightarrow> CipherSuite \<Rightarrow> ProtocolVersion \<Rightarrow> SessionKeys \<Rightarrow> time \<Rightarrow> ReplayStrategy \<Rightarrow>
     VerificationResult option \<Rightarrow> AttestSession" where
  "complete_handshake = session_new"

subsection \<open>Ticket keys and the engine\<close>

record TicketKey =
  tk_key :: bytes
  tk_counter :: u64

definition ticket_key_from_parts :: "bytes \<Rightarrow> u64 \<Rightarrow> TicketKey" where
  "ticket_key_from_parts k c = \<lparr>tk_key = k, tk_counter = c\<rparr>"

definition ticket_key_to_parts :: "TicketKey \<Rightarrow> bytes \<times> u64" where
  "ticket_key_to_parts k = (tk_key k, tk_counter k)"

definition ticket_key_generate :: "bytes \<Rightarrow> TicketKey" where
  "ticket_key_generate entropy = \<lparr>tk_key = entropy, tk_counter = 1\<rparr>"

definition ticket_next_nonce :: "TicketKey \<Rightarrow> u64 \<times> TicketKey" where
  "ticket_next_nonce k = (tk_counter k, k\<lparr>tk_counter := tk_counter k + 1\<rparr>)"

record TicketEngine =
  current_key :: TicketKey
  previous_key :: "TicketKey option"

definition ticket_engine_new :: "TicketKey \<Rightarrow> TicketEngine" where
  "ticket_engine_new k = \<lparr>current_key = k, previous_key = None\<rparr>"

definition rotate :: "TicketEngine \<Rightarrow> bytes \<Rightarrow> TicketEngine" where
  "rotate e entropy =
     e\<lparr>previous_key := Some (current_key e), current_key := ticket_key_generate entropy\<rparr>"

record state_codec =
  to_allocvec :: "DurableSessionState \<Rightarrow> string + bytes"
  from_bytes :: "bytes \<Rightarrow> string + DurableSessionState"

definition ticket_nonce :: "u64 \<Rightarrow> bytes" where
  "ticket_nonce counter = replicate 4 0 @ be64 counter"

definition seal_session ::
    "aead_lib \<Rightarrow> state_codec \<Rightarrow> TicketEngine \<Rightarrow> DurableSessionState \<Rightarrow> nat \<Rightarrow>
     (AeadError + SessionTicket) \<times> TicketEngine" where
  "seal_session L P e st lifetime_secs =
     (case to_allocvec P st of
        Inl msg \<Rightarrow> (Inl (IoError (''ticket serialisation failed: '' @ msg)), e)
      | Inr data \<Rightarrow>
          (case ticket_next_nonce (current_key e) of (counter, k') \<Rightarrow>
             (bind_result (aead_key_new L Aes256Gcm (tk_key k')) (\<lambda>key.
              bind_result (seal_in_place L key (ticket_nonce counter) [] data) (\<lambda>ct.
                Inr \<lparr>ticket = ticket_nonce counter @ ct,
                     lifetime = (if lifetime_secs < 2 ^ 32 then of_nat lifetime_secs else - 1),
                     ticket_cipher_suite = d_cipher_suite st, rtt0_eligible = True\<rparr>)),
              e\<lparr>current_key := k'\<rparr>)))"

definition ticket_decode :: "state_codec \<Rightarrow> bytes \<Rightarrow> AeadError + DurableSessionState" where
  "ticket_decode P pt =
     map_err (\<lambda>msg. IoError (''ticket deserialisation failed: '' @ msg)) (from_bytes P pt)"

definition unseal_session ::
    "aead_lib \<Rightarrow> state_codec \<Rightarrow> TicketEngine \<Rightarrow> time \<Rightarrow> bytes \<Rightarrow> AeadError + DurableSessionState" where
  "unseal_session L P e now_sys tick =
     (if length tick < 12 then Inl (IoError ''ticket too short'')
      else
        let ct = drop 12 tick in
        bind_result (nonce_from_slice (take 12 tick)) (\<lambda>nonce.
        bind_result (aead_key_new L Aes256Gcm (tk_key (current_key e))) (\<lambda>key.
        bind_result
          (case open_in_place L key nonce [] ct of
             Inr pt \<Rightarrow> ticket_decode P pt
           | Inl _ \<Rightarrow>
               (case previous_key e of
                  Some prev \<Rightarrow>
                    bind_result (aead_key_new L Aes256Gcm (tk_key prev)) (\<lambda>pkey.
                    bind_result (open_in_place L pkey nonce [] ct) (\<lambda>pt. ticket_decode P pt))
                | None \<Rightarrow> Inl OpenFailed)) (\<lambda>st.
        if now_sys > d_expires_at st then Inl (IoError ''ticket expired'') else Inr st))))"

subsection \<open>Key files\<close>

datatype TicketEngineError = TicketIo string | Corrupt string

datatype key_file = NoFile | ReadError string | BadContent string | Engine TicketEngine

definition engine_save :: "string option \<Rightarrow> key_file \<Rightarrow> TicketEngine \<Rightarrow> (string + unit) \<times> key_file" where
  "engine_save io f e = (case io of Some msg \<Rightarrow> (Inl msg, f) | None \<Rightarrow> (Inr (), Engine e))"

fun engine_load :: "key_file \<Rightarrow> string + TicketEngine" where
  "engine_load NoFile = Inl ''not found''"
| "engine_load (ReadError msg) = Inl msg"
| "engine_load (BadContent msg) = Inl msg"
| "engine_load (Engine e) = Inr e"

record FileTicketEngine =
  fte_engine :: TicketEngine
  fte_file :: key_file

definition fte_persist :: "FileTicketEngine \<Rightarrow> string option \<Rightarrow> (string + unit) \<times> FileTicketEngine" where
  "fte_persist t io =
     (case engine_save io (fte_file t) (fte_engine t) of (r, f) \<Rightarrow> (r, t\<lparr>fte_file := f\<rparr>))"

definition fte_new ::
    "key_file \<Rightarrow> bytes \<Rightarrow> string option \<Rightarrow> TicketEngineError + FileTicketEngine" where
  "fte_new f entropy io =
     (case f of
        ReadError msg \<Rightarrow> Inl (TicketIo msg)
      | BadContent msg \<Rightarrow> Inl (Corrupt msg)
      | Engine e \<Rightarrow> Inr \<lparr>fte_engine = e, fte_file = f\<rparr>
      | NoFile \<Rightarrow>
          (case fte_persist \<lparr>fte_engine = ticket_engine_new (ticket_key_generate entropy), fte_file = NoFile\<rparr> io of
             (Inl msg, t) \<Rightarrow> Inl (TicketIo msg)
           | (Inr u, t) \<Rightarrow> Inr t))"

definition fte_rotate ::
    "FileTicketEngine \<Rightarrow> bytes \<Rightarrow> string option \<Rightarrow> (string + unit) \<times> FileTicketEngine" where
  "fte_rotate t entropy io = fte_persist (t\<lparr>fte_engine := rotate (fte_engine t) entropy\<rparr>) io"

definition fte_seal ::
    "aead_lib \<Rightarrow> state_codec \<Rightarrow> FileTicketEngine \<Rightarrow> DurableSessionState \<Rightarrow> nat \<Rightarrow>
     (AeadError + SessionTicket) \<times> FileTicketEngine" where
  "fte_seal L P t st secs =
     (case seal_session L P (fte_engine t) st secs of (r, e) \<Rightarrow> (r, t\<lparr>fte_engine := e\<rparr>))"

subsection \<open>Round trip\<close>

definition codec_correct :: "state_codec \<Rightarrow> bool" where
  "codec_correct P \<longleftrightarrow> (\<forall>st bs. to_allocvec P st = Inr bs \<longrightarrow> from_bytes P bs = Inr st)"

lemma length_ticket_nonce [simp]: "length (ticket_nonce c) = 12"
  by (simp add: ticket_nonce_def)

lemma seal_session_Inr:
  assumes "seal_session L P e st secs = (Inr t, e')"
  obtains data ct where "to_allocvec P st = Inr data"
    "unbound_key_ok L Aes256Gcm (tk_key (current_key e))"
    "lib_seal L Aes256Gcm (tk_key (current_key e)) (ticket_nonce (tk_counter (current_key e))) [] data = Some ct"
    "ticket t = ticket_nonce (tk_counter (current_key e)) @ ct"
    "current_key e' = (current_key e)\<lparr>tk_counter := tk_counter (current_key e) + 1\<rparr>"
    "previous_key e' = previous_key e"
  using assms
  by (auto simp: seal_session_def ticket_next_nonce_def bind_result_Inr_iff aead_key_new_def
      seal_in_place_def split: sum.splits if_splits)

lemma unseal_session_opened:
  assumes "tick = n @ ct" "length n = 12" "unbound_key_ok L Aes256Gcm (tk_key (current_key e))"
    and "lib_open L Aes256Gcm (tk_key (current_key e)) n [] ct = Some pt" "from_bytes P pt = Inr st"
  shows "unseal_session L P e now tick =
           (if now > d_expires_at st then Inl (IoError ''ticket expired'') else Inr st)"
  using assms
  by (simp add: unseal_session_def nonce_from_slice_def aead_key_new_def open_in_place_def ticket_decode_def)

lemma unseal_session_previous:
  assumes "tick = n @ ct" "length n = 12" "unbound_key_ok L Aes256Gcm (tk_key (current_key e))"
    and "lib_open L Aes256Gcm (tk_key (current_key e)) n [] ct = None"
    and "previous_key e = Some prev" "unbound_key_ok L Aes256Gcm (tk_key prev)"
    and "lib_open L Aes256Gcm (tk_key prev) n [] ct = Some pt" "from_bytes P pt = Inr st"
  shows "unseal_session L P e now tick =
           (if now > d_expires_at st then Inl (IoError ''ticket expired'') else Inr st)"
  using assms
  by (simp add: unseal_session_def nonce_from_slice_def aead_key_new_def open_in_place_def ticket_decode_def)

text \<open>
  A ticket unseals to exactly the session state it was sealed from, with the key that sealed it and
  also after one rotation to a new 32-byte key that does not open it, until the state's expiry;
  after that the ticket is refused.
\<close>
lemma ticket_round_trip:
  assumes "aead_correct L" and "codec_correct P" and "seal_session L P e st secs = (Inr t, e')"
    and "length fresh = 32"
    and "lib_open L Aes256Gcm fresh (take 12 (ticket t)) [] (drop 12 (ticket t)) = None"
  shows "unseal_session L P e' now (ticket t) =
           (if now > d_expires_at st then Inl (IoError ''ticket expired'') else Inr st) \<and>
         unseal_session L P (rotate e' fresh) now (ticket t) =
           (if now > d_expires_at st then Inl (IoError ''ticket expired'') else Inr st)"
proof -
  obtain data ct where s: "to_allocvec P st = Inr data"
    "unbound_key_ok L Aes256Gcm (tk_key (current_key e))"
    "lib_seal L Aes256Gcm (tk_key (current_key e)) (ticket_nonce (tk_counter (current_key e))) [] data = Some ct"
    "ticket t = ticket_nonce (tk_counter (current_key e)) @ ct"
    "current_key e' = (current_key e)\<lparr>tk_counter := tk_counter (current_key e) + 1\<rparr>"
    using assms(3) by (rule seal_session_Inr)
  have op: "lib_open L Aes256Gcm (tk_key (current_key e)) (ticket_nonce (tk_counter (current_key e))) [] ct = Some data"
    using assms(1) s(3) by (auto simp: aead_correct_def)
  have de: "from_bytes P data = Inr st" using assms(2) s(1) by (auto simp: codec_correct_def)
  have fk: "unbound_key_ok L Aes256Gcm fresh" using assms(1,4) by (simp add: aead_correct_def key_len_def)
  have 1: "unseal_session L P e' now (ticket t) =
      (if now > d_expires_at st then Inl (IoError ''ticket expired'') else Inr st)"
    by (rule unseal_session_opened [OF s(4) length_ticket_nonce _ _ de]) (use s op in simp_all)
  have 2: "unseal_session L P (rotate e' fresh) now (ticket t) =
      (if now > d_expires_at st then Inl (IoError ''ticket expired'') else Inr st)"
    by (rule unseal_session_previous [OF s(4) length_ticket_nonce, where prev = "current_key e'" and pt = data])
      (use s op de fk assms(5) in \<open>simp_all add: rotate_def ticket_key_generate_def\<close>)
  from 1 2 show ?thesis ..
qed

definition demo_state :: DurableSessionState where
  "demo_state = export_durable (demo_session (SlidingWindow 64)) 0 0"

definition demo_codec :: state_codec where
  "demo_codec =
     \<lparr>to_allocvec = (\<lambda>st. if st = demo_state then Inr [1] else Inl ''unsupported''),
      from_bytes = (\<lambda>bs. if bs = [1] then Inr demo_state else Inl ''unsupported'')\<rparr>"

lemma demo_codec_correct: "codec_correct demo_codec"
  by (simp add: codec_correct_def demo_codec_def)

abbreviation demo_engine :: "u64 \<Rightarrow> TicketEngine" where
  "demo_engine c \<equiv> \<lparr>current_key = \<lparr>tk_key = replicate 32 7, tk_counter = c\<rparr>, previous_key = None\<rparr>"

abbreviation demo_ticket :: "u64 \<Rightarrow> SessionTicket" where
  "demo_ticket c \<equiv>
     \<lparr>ticket = ticket_nonce c @ [1] @ replicate 32 7 @ ticket_nonce c, lifetime = 3600,
      ticket_cipher_suite = d_cipher_suite demo_state, rtt0_eligible = True\<rparr>"

lemma demo_seal:
  "seal_session tagged_aead demo_codec (demo_engine c) demo_state 3600 = (Inr (demo_ticket c), demo_engine (c + 1))"
  by (simp add: seal_session_def demo_codec_def ticket_next_nonce_def aead_key_new_def seal_in_place_def
      tagged_aead_def key_len_def)

subsection \<open>Nonces of ticket keys\<close>

primrec seal_all ::
    "aead_lib \<Rightarrow> state_codec \<Rightarrow> TicketEngine \<Rightarrow> (DurableSessionState \<times> nat) list \<Rightarrow> SessionTicket list" where
  "seal_all L P e [] = []"
| "seal_all L P e (x # xs) =
     (case seal_session L P e (fst x) (snd x) of
        (Inl err, e') \<Rightarrow> seal_all L P e' xs
      | (Inr t, e') \<Rightarrow> t # seal_all L P e' xs)"

lemma seal_session_counter:
  "seal_session L P e st secs = (r, e') \<Longrightarrow>
     tk_counter (current_key e') = tk_counter (current_key e) \<and> isl r \<or>
     tk_counter (current_key e') = tk_counter (current_key e) + 1"
  by (auto simp: seal_session_def ticket_next_nonce_def split: sum.splits)

lemma ticket_nonce_inj [simp]: "ticket_nonce c = ticket_nonce d \<longleftrightarrow> c = d"
  by (simp add: ticket_nonce_def)

lemma seal_all_nonces:
  "t \<in> set (seal_all L P e xs) \<Longrightarrow>
     \<exists>i < length xs. take 12 (ticket t) = ticket_nonce (tk_counter (current_key e) + of_nat i)"
proof (induction xs arbitrary: e)
  case (Cons x xs)
  obtain r e' where s: "seal_session L P e (fst x) (snd x) = (r, e')" by fastforce
  have later: "\<exists>i < length (x # xs). take 12 (ticket t) = ticket_nonce (tk_counter (current_key e) + of_nat i)"
    if "t \<in> set (seal_all L P e' xs)"
  proof -
    from Cons.IH [OF that] obtain i where i: "i < length xs"
      "take 12 (ticket t) = ticket_nonce (tk_counter (current_key e') + of_nat i)" by blast
    from seal_session_counter [OF s] show ?thesis
    proof
      assume "tk_counter (current_key e') = tk_counter (current_key e) \<and> isl r"
      with i show ?thesis by (intro exI [of _ i]) simp
    next
      assume "tk_counter (current_key e') = tk_counter (current_key e) + 1"
      with i show ?thesis by (intro exI [of _ "Suc i"]) (simp add: add.assoc)
    qed
  qed
  show ?case
  proof (cases r)
    case (Inl err)
    with Cons.prems s have "t \<in> set (seal_all L P e' xs)" by simp
    then show ?thesis by (rule later)
  next
    case (Inr u)
    with Cons.prems s consider "t = u" | "t \<in> set (seal_all L P e' xs)" by auto
    then show ?thesis
    proof cases
      case 1
      from s Inr have "seal_session L P e (fst x) (snd x) = (Inr u, e')" by simp
      then have "ticket u = ticket_nonce (tk_counter (current_key e)) @ drop 12 (ticket u)"
        by (rule seal_session_Inr) simp
      then have "take 12 (ticket u) = ticket_nonce (tk_counter (current_key e))"
        by (metis append_eq_conv_conj length_ticket_nonce)
      with 1 show ?thesis by (intro exI [of _ 0]) simp
    qed (rule later)
  qed
qed simp

lemma of_nat_u64_nonzero: "0 < i \<Longrightarrow> i < 18446744073709551616 \<Longrightarrow> (of_nat i :: u64) \<noteq> 0"
proof
  assume i: "0 < i" "i < 18446744073709551616" and "(of_nat i :: u64) = 0"
  then have "unat (of_nat i :: u64) = 0" by simp
  with i show False by (simp add: unsigned_of_nat take_bit_eq_mod)
qed

text \<open>
  One ticket key never seals two tickets under the same AEAD nonce, as long as it seals at most
  \<open>2^64\<close> tickets.
\<close>
lemma ticket_nonces_distinct:
  assumes "length xs \<le> 2 ^ 64"
  shows "distinct (map (\<lambda>t. take 12 (ticket t)) (seal_all L P e xs))"
  using assms
proof (induction xs arbitrary: e)
  case (Cons x xs)
  obtain r e' where s: "seal_session L P e (fst x) (snd x) = (r, e')" by fastforce
  have IH: "distinct (map (\<lambda>t. take 12 (ticket t)) (seal_all L P e' xs))"
    using Cons by simp
  show ?case
  proof (cases r)
    case (Inl err)
    with s IH show ?thesis by simp
  next
    case (Inr u)
    from s Inr have su: "seal_session L P e (fst x) (snd x) = (Inr u, e')" by simp
    have c: "tk_counter (current_key e') = tk_counter (current_key e) + 1"
      using seal_session_counter [OF su] by simp
    from su have "take 12 (ticket u) = ticket_nonce (tk_counter (current_key e))"
      by (rule seal_session_Inr) simp
    moreover have "take 12 (ticket t) \<noteq> ticket_nonce (tk_counter (current_key e))"
      if t: "t \<in> set (seal_all L P e' xs)" for t
    proof -
      obtain i where i: "i < length xs" "take 12 (ticket t) = ticket_nonce (tk_counter (current_key e) + (1 + of_nat i))"
        using seal_all_nonces [OF t] c by (auto simp: add.assoc)
      have "Suc i < 18446744073709551616" using i(1) Cons.prems by simp
      then have "(of_nat (Suc i) :: u64) \<noteq> 0" by (intro of_nat_u64_nonzero) simp
      with i(2) show ?thesis by simp
    qed
    ultimately have "take 12 (ticket u) \<notin> (\<lambda>t. take 12 (ticket t)) ` set (seal_all L P e' xs)"
      by force
    with s Inr IH show ?thesis by simp
  qed
qed simp

text \<open>
  The file-backed engine writes its key file only when it is created or rotated. The counter of a
  key that sealed a ticket is therefore lost over a restart, and the first ticket sealed after the
  restart reuses key and nonce of the first ticket sealed before it.
\<close>
lemma file_engine_restart_reuses_nonce:
  assumes "fte_new NoFile entropy None = Inr t0" and "fte_seal L P t0 st1 secs1 = (Inr a, t1)"
    and "fte_new (fte_file t1) entropy' io = Inr t2" and "fte_seal L P t2 st2 secs2 = (Inr b, t3)"
  shows "current_key (fte_engine t2) = current_key (fte_engine t0) \<and>
         take 12 (ticket a) = take 12 (ticket b)"
proof -
  have t0: "t0 = \<lparr>fte_engine = ticket_engine_new (ticket_key_generate entropy),
      fte_file = Engine (ticket_engine_new (ticket_key_generate entropy))\<rparr>"
    using assms(1) by (simp add: fte_new_def fte_persist_def engine_save_def)
  obtain e1 where e1: "seal_session L P (fte_engine t0) st1 secs1 = (Inr a, e1)" "t1 = t0\<lparr>fte_engine := e1\<rparr>"
    using assms(2) by (auto simp: fte_seal_def split: prod.splits)
  have t2: "t2 = t0" using assms(3) e1(2) t0 by (auto simp: fte_new_def)
  obtain e3 where e3: "seal_session L P (fte_engine t0) st2 secs2 = (Inr b, e3)"
    using assms(4) t2 by (auto simp: fte_seal_def split: prod.splits)
  from e1(1) have "take 12 (ticket a) = ticket_nonce (tk_counter (current_key (fte_engine t0)))"
    by (rule seal_session_Inr) simp
  moreover from e3 have "take 12 (ticket b) = ticket_nonce (tk_counter (current_key (fte_engine t0)))"
    by (rule seal_session_Inr) simp
  ultimately show ?thesis using t2 by simp
qed

end
