(* ===== verification/Handshake.thy ===== *)
theory Handshake
  imports Proto Key_Schedule Key_Exchange
begin

section \<open>The attestation handshake\<close>

text \<open>
  \<open>openhttpa-core/src/handshake.rs\<close>, the server side of the attested key exchange. The environment of
  one execution is an argument: hash functions, quote verifier, quote provider, signing key, policy
  engine and revocation provider, clock readings, and the random values drawn on the way. Error
  messages are kept as data instead of formatted strings. The optional \<open>zk\<close> feature is not modelled.

  The lemmas show what a successful negotiation selected, that the transcript determines every
  negotiated value, and that a client is recorded as attested only if every one of its quotes
  passed every check.
\<close>

datatype SigAlg = MlDsa65

fun sig_alg_as_str :: "SigAlg \<Rightarrow> string" where
  "sig_alg_as_str MlDsa65 = ''ml-dsa-65''"

datatype attest_failure =
    UnexpectedQuoteType QuoteType
  | DuplicateQuoteType QuoteType
  | MissingQuoteType QuoteType
  | EvidenceRejected string
  | QuoteTooOld
  | DebugRejected AttestError
  | EvidenceGenerationFailed string

datatype HandshakeError =
    NoCipherSuiteOverlap
  | NoVersionOverlap
  | KeyExchangeFailed KeyExchangeError
  | KeyDerivation HkdfError
  | Serialisation string
  | AttestationRequired
  | Attestation attest_failure
  | Revoked string
  | Policy string
  | Internal string
  | Panicked

datatype OpenHttpaError =
    NegotiationFailed
  | UnsupportedVersion string
  | KeyDerivationFailed
  | HandshakeIntegrityFailed

fun openhttpa_error_of :: "HandshakeError \<Rightarrow> OpenHttpaError" where
  "openhttpa_error_of NoCipherSuiteOverlap = NegotiationFailed"
| "openhttpa_error_of NoVersionOverlap = UnsupportedVersion []"
| "openhttpa_error_of (KeyDerivation _) = KeyDerivationFailed"
| "openhttpa_error_of _ = HandshakeIntegrityFailed"

record ClientKeyShare =
  c_ecdhe_public :: bytes
  c_mlkem_public :: bytes
  c_signature_alg :: "SigAlg option"

record ServerKeyShare =
  s_ecdhe_public :: bytes
  s_mlkem_public :: bytes
  s_mlkem_ciphertext :: bytes
  s_signature_alg :: "SigAlg option"

record AtHsRequest =
  client_suites :: "CipherSuite list"
  client_versions :: "ProtocolVersion list"
  client_random :: bytes
  client_challenge :: bytes
  client_share :: ClientKeyShare
  client_quotes :: "AttestQuote list"
  atb_ttl_secs :: u64
  provenance :: "ProvenanceChain option"

record AtHsResult =
  atb_id :: AtbId
  session_keys :: SessionKeys
  hs_expires_at :: time
  server_quotes :: "AttestQuote list"
  server_random :: bytes
  hs_transcript_hash :: bytes
  server_signatures :: "bytes list"
  client_attestation_result :: "VerificationResult option"

record AtHsExecutor =
  supported_suites :: "CipherSuite list"
  supported_versions :: "ProtocolVersion list"
  strict_attestation :: bool
  exec_allow_debug :: bool
  policy_engine :: "(VerificationResult \<Rightarrow> string + unit) option"
  revocation_provider :: "(VerificationResult \<Rightarrow> string + unit) option"
  required_client_quote_types :: "QuoteType list"

definition with_all ::
    "CipherSuite list \<Rightarrow> ProtocolVersion list \<Rightarrow> bool \<Rightarrow> bool \<Rightarrow>
     (VerificationResult \<Rightarrow> string + unit) option \<Rightarrow> (VerificationResult \<Rightarrow> string + unit) option \<Rightarrow>
     AtHsExecutor" where
  "with_all suites versions strict debug pe rp =
     \<lparr>supported_suites = (if suites = [] then preferred_list else suites),
      supported_versions = (if versions = [] then [V2, V1] else versions),
      strict_attestation = strict, exec_allow_debug = debug, policy_engine = pe,
      revocation_provider = rp, required_client_quote_types = []\<rparr>"

definition with_config ::
    "CipherSuite list \<Rightarrow> ProtocolVersion list \<Rightarrow> bool \<Rightarrow> bool \<Rightarrow> AtHsExecutor" where
  "with_config suites versions strict debug = with_all suites versions strict debug None None"

definition with_strict_mode ::
    "CipherSuite list \<Rightarrow> ProtocolVersion list \<Rightarrow> bool \<Rightarrow> AtHsExecutor" where
  "with_strict_mode suites versions strict = with_config suites versions strict False"

definition executor_new :: "CipherSuite list \<Rightarrow> ProtocolVersion list \<Rightarrow> AtHsExecutor" where
  "executor_new suites versions = with_config suites versions False False"

definition with_required_client_quote_types ::
    "(QuoteType \<Rightarrow> nat) \<Rightarrow> AtHsExecutor \<Rightarrow> QuoteType list \<Rightarrow> AtHsExecutor" where
  "with_required_client_quote_types debug_order x types =
     x\<lparr>required_client_quote_types := remdups_adj (sort_key debug_order types)\<rparr>"

fun check_quote_types ::
    "QuoteType list \<Rightarrow> QuoteType list \<Rightarrow> AttestQuote list \<Rightarrow> HandshakeError + QuoteType list" where
  "check_quote_types required seen [] = Inr seen"
| "check_quote_types required seen (q # qs) =
     (if quote_type q \<notin> set required then Inl (Attestation (UnexpectedQuoteType (quote_type q)))
      else if quote_type q \<in> set seen then Inl (Attestation (DuplicateQuoteType (quote_type q)))
      else check_quote_types required (seen @ [quote_type q]) qs)"

definition check_required_client_quote_types ::
    "AtHsExecutor \<Rightarrow> AttestQuote list \<Rightarrow> HandshakeError + unit" where
  "check_required_client_quote_types x quotes =
     (let required = required_client_quote_types x in
      if required = [] then Inr ()
      else if quotes = [] then Inl AttestationRequired
      else bind_result (check_quote_types required [] quotes) (\<lambda>seen.
        case find (\<lambda>t. t \<notin> set seen) required of
          Some missing \<Rightarrow> Inl (Attestation (MissingQuoteType missing))
        | None \<Rightarrow> Inr ()))"

subsection \<open>Transcript and report data\<close>

record hash_lib =
  sha384 :: "bytes \<Rightarrow> bytes"
  sha512 :: "bytes \<Rightarrow> bytes"

definition HS_SERVER_PREFIX :: bytes where
  "HS_SERVER_PREFIX = str_bytes ''openhttpa hs server''"

definition HS_CLIENT_PREFIX :: bytes where
  "HS_CLIENT_PREFIX = str_bytes ''openhttpa hs client''"

definition client_binding_input :: "AtHsRequest \<Rightarrow> bytes" where
  "client_binding_input req =
     lp64 (client_random req) @ lp64 (client_challenge req) @
     lp64 (c_ecdhe_public (client_share req)) @ lp64 (c_mlkem_public (client_share req))"

definition transcript_input ::
    "AtHsRequest \<Rightarrow> CipherSuite \<Rightarrow> ProtocolVersion \<Rightarrow> bytes \<Rightarrow> KeyShare \<Rightarrow> bytes \<Rightarrow> bytes" where
  "transcript_input req suite ver srandom share ct =
     lp64 (client_random req) @ lp64 (client_challenge req) @
     lp64 (c_ecdhe_public (client_share req)) @ lp64 (c_mlkem_public (client_share req)) @
     lp64 srandom @ lp64 (ecdhe_public share) @ lp64 ct @ lp64 (mlkem_public share) @
     be16 (suite_numeric_id suite) @ [version_numeric_id ver]"

definition compute_transcript_hash ::
    "hash_lib \<Rightarrow> AtHsRequest \<Rightarrow> CipherSuite \<Rightarrow> ProtocolVersion \<Rightarrow> bytes \<Rightarrow> KeyShare \<Rightarrow> bytes \<Rightarrow> bytes" where
  "compute_transcript_hash D req suite ver srandom share ct =
     sha384 D (transcript_input req suite ver srandom share ct)"

definition server_report_data :: "hash_lib \<Rightarrow> bytes \<Rightarrow> bytes" where
  "server_report_data D th = sha512 D (HS_SERVER_PREFIX @ th)"

definition client_report_data :: "hash_lib \<Rightarrow> AtHsRequest \<Rightarrow> bytes" where
  "client_report_data D req = sha512 D (HS_CLIENT_PREFIX @ sha384 D (client_binding_input req))"

subsection \<open>Client quotes\<close>

definition too_old :: "u64 \<Rightarrow> VerificationResult \<Rightarrow> bool" where
  "too_old now res \<longleftrightarrow>
     (case iat (claims res) of None \<Rightarrow> False | Some t \<Rightarrow> now > t \<and> now - t > 86400)"

definition add_secondary :: "VerificationResult option \<Rightarrow> VerificationResult \<Rightarrow> VerificationResult" where
  "add_secondary acc res =
     (case acc of
        None \<Rightarrow> res
      | Some p \<Rightarrow> VerificationResult (eat_token p) (claims p) (tcb_status p) (measurement p) (signer_id p)
                    (secondary p @ [res]))"

definition opt_check ::
    "(VerificationResult \<Rightarrow> string + unit) option \<Rightarrow> (string \<Rightarrow> HandshakeError) \<Rightarrow> VerificationResult \<Rightarrow>
     HandshakeError + unit" where
  "opt_check c err res = (case c of None \<Rightarrow> Inr () | Some f \<Rightarrow> map_err err (f res))"

fun verify_quotes ::
    "AtHsExecutor \<Rightarrow> (AttestQuote \<Rightarrow> bytes \<Rightarrow> string + VerificationResult) \<Rightarrow> bytes \<Rightarrow> u64 \<Rightarrow>
     VerificationResult option \<Rightarrow> AttestQuote list \<Rightarrow> HandshakeError + VerificationResult option" where
  "verify_quotes x v rd now acc [] = Inr acc"
| "verify_quotes x v rd now acc (q # qs) =
     bind_result (map_err (\<lambda>e. Attestation (EvidenceRejected e)) (v q rd)) (\<lambda>res.
     let acc' = Some (add_secondary acc res) in
     if too_old now res then Inl (Attestation QuoteTooOld)
     else bind_result (map_err (\<lambda>e. Attestation (DebugRejected e))
                         (reject_debug_builds res (exec_allow_debug x))) (\<lambda>_.
          bind_result (opt_check (policy_engine x) Policy res) (\<lambda>_.
          bind_result (opt_check (revocation_provider x) Revoked res) (\<lambda>_.
            verify_quotes x v rd now acc' qs))))"

definition verify_client_quotes ::
    "hash_lib \<Rightarrow> AtHsExecutor \<Rightarrow> AtHsRequest \<Rightarrow> (AttestQuote \<Rightarrow> bytes \<Rightarrow> string + VerificationResult) option \<Rightarrow>
     u64 \<Rightarrow> HandshakeError + VerificationResult option" where
  "verify_client_quotes D x req verifier now =
     bind_result (check_required_client_quote_types x (client_quotes req)) (\<lambda>_.
     if client_quotes req = [] then Inr None
     else bind_result (ok_or AttestationRequired verifier) (\<lambda>v.
       verify_quotes x v (client_report_data D req) now None (client_quotes req)))"

subsection \<open>The server side\<close>

record hs_env =
  kem :: kem_lib
  hkdf :: hkdf_lib
  hashes :: hash_lib
  tee_provider :: "(bytes \<Rightarrow> string + AttestQuote list) option"
  verifier :: "(AttestQuote \<Rightarrow> bytes \<Rightarrow> string + VerificationResult) option"
  identity_key :: "(bytes \<Rightarrow> string + bytes) option"
  x_seed :: bytes
  kem_seed :: bytes
  encap_seed :: bytes
  rng :: "bytes option"
  fresh_id :: AtbId
  unix_now :: u64
  instant_now :: time

definition negotiate ::
    "AtHsExecutor \<Rightarrow> AtHsRequest \<Rightarrow> HandshakeError + CipherSuite \<times> ProtocolVersion" where
  "negotiate x req =
     bind_result (ok_or NoCipherSuiteOverlap
       (find (\<lambda>cs. cs \<in> set (client_suites req)) (supported_suites x))) (\<lambda>suite.
     bind_result (ok_or NoVersionOverlap
       (find (\<lambda>v. v \<in> set (supported_versions x)) (client_versions req))) (\<lambda>ver.
     Inr (suite, ver)))"

definition make_server_quotes :: "hs_env \<Rightarrow> AtHsExecutor \<Rightarrow> bytes \<Rightarrow> HandshakeError + AttestQuote list" where
  "make_server_quotes E x th =
     (case tee_provider E of
        Some gen \<Rightarrow>
          (case gen (server_report_data (hashes E) th) of
             Inr qs \<Rightarrow> Inr qs
           | Inl e \<Rightarrow> if strict_attestation x then Inl (Attestation (EvidenceGenerationFailed e)) else Inr [])
      | None \<Rightarrow> if strict_attestation x then Inl AttestationRequired else Inr [])"

definition make_server_signatures :: "hs_env \<Rightarrow> bytes \<Rightarrow> HandshakeError + bytes list" where
  "make_server_signatures E th =
     (case identity_key E of
        None \<Rightarrow> Inr []
      | Some sign \<Rightarrow> bind_result (map_err (\<lambda>e. Internal (''ML-DSA sign failed: '' @ e)) (sign th)) (\<lambda>sg. Inr [sg]))"

definition or_panic :: "('e + 'a) option \<Rightarrow> ('e \<Rightarrow> HandshakeError) \<Rightarrow> HandshakeError + 'a" where
  "or_panic r f = (case r of None \<Rightarrow> Inl Panicked | Some q \<Rightarrow> map_err f q)"

definition execute_server ::
    "hs_env \<Rightarrow> AtHsExecutor \<Rightarrow> AtHsRequest \<Rightarrow>
     HandshakeError + CipherSuite \<times> ProtocolVersion \<times> ServerKeyShare \<times> AtHsResult" where
  "execute_server E x req =
     bind_result (negotiate x req) (\<lambda>(suite, ver).
     bind_result (map_err KeyExchangeFailed (hybrid_generate (kem E) (x_seed E) (kem_seed E))) (\<lambda>pair.
     let share = public_key_share pair;
         cshare = \<lparr>ecdhe_public = c_ecdhe_public (client_share req), mlkem_public = c_mlkem_public (client_share req)\<rparr>
     in
     bind_result (or_panic (server_combine (kem E) pair (encap_seed E) cshare) KeyExchangeFailed) (\<lambda>(ss, ct).
     bind_result (ok_or (Internal ''entropy source failure'') (rng E)) (\<lambda>srandom.
     let th = compute_transcript_hash (hashes E) req suite ver srandom share ct in
     bind_result (verify_client_quotes (hashes E) x req (verifier E) (unix_now E)) (\<lambda>attested.
     bind_result (or_panic (derive (hkdf E) ss th) KeyDerivation) (\<lambda>ks.
     bind_result (ok_or Panicked (instant_add (instant_now E) (atb_ttl_secs req))) (\<lambda>exp_at.
     bind_result (make_server_quotes E x th) (\<lambda>quotes.
     bind_result (make_server_signatures E th) (\<lambda>sigs.
       Inr (suite, ver,
            \<lparr>s_ecdhe_public = ecdhe_public share, s_mlkem_public = mlkem_public share, s_mlkem_ciphertext = ct,
             s_signature_alg = (if identity_key E = None then None else Some MlDsa65)\<rparr>,
            \<lparr>atb_id = fresh_id E, session_keys = ks,
             hs_expires_at = exp_at,
             server_quotes = quotes, server_random = srandom, hs_transcript_hash = th,
             server_signatures = sigs, client_attestation_result = attested\<rparr>))))))))))"

subsection \<open>Negotiation\<close>

lemma find_first:
  assumes "find P xs = Some x"
  shows "x \<in> set xs \<and> P x \<and> (\<exists>ys zs. xs = ys @ x # zs \<and> (\<forall>y\<in>set ys. \<not> P y))"
  using assms
proof (induction xs)
  case (Cons a xs)
  show ?case
  proof (cases "P a")
    case True
    with Cons.prems have "a = x" by simp
    with True show ?thesis by (intro conjI) (auto intro: exI [of _ "[]"])
  next
    case False
    with Cons obtain ys zs where "x \<in> set xs" "P x" "xs = ys @ x # zs" "\<forall>y\<in>set ys. \<not> P y" by auto
    moreover from this False have "a # xs = (a # ys) @ x # zs" "\<forall>y\<in>set (a # ys). \<not> P y" by simp_all
    ultimately show ?thesis by (meson list.set_intros(2))
  qed
qed simp

lemma find_none: "find P xs = None \<longleftrightarrow> (\<forall>x\<in>set xs. \<not> P x)"
  by (auto simp: find_None_iff)

text \<open>
  Negotiation picks the first suite in the server's order that the client offers and the first
  version in the client's order that the server supports; it fails exactly when there is no common
  suite, or no common version. With the default configuration the result is always post-quantum.
\<close>
lemma negotiation_correct:
  "case negotiate x req of
     Inr (suite, ver) \<Rightarrow>
       suite \<in> set (client_suites req) \<and> ver \<in> set (supported_versions x) \<and>
       (\<exists>ys zs. supported_suites x = ys @ suite # zs \<and> (\<forall>y\<in>set ys. y \<notin> set (client_suites req))) \<and>
       (\<exists>ys zs. client_versions req = ys @ ver # zs \<and> (\<forall>y\<in>set ys. y \<notin> set (supported_versions x))) \<and>
       (x = executor_new [] vs \<longrightarrow> is_post_quantum suite)
   | Inl e \<Rightarrow>
       (e = NoCipherSuiteOverlap \<and> set (supported_suites x) \<inter> set (client_suites req) = {}) \<or>
       (e = NoVersionOverlap \<and> set (supported_versions x) \<inter> set (client_versions req) = {})"
proof (cases "negotiate x req")
  case (Inl e)
  show ?thesis
  proof (cases "find (\<lambda>cs. cs \<in> set (client_suites req)) (supported_suites x)")
    case None
    moreover from None have "negotiate x req = Inl NoCipherSuiteOverlap" by (simp add: negotiate_def)
    ultimately show ?thesis by (auto simp: find_none)
  next
    case (Some c)
    with Inl have "find (\<lambda>v. v \<in> set (supported_versions x)) (client_versions req) = None"
      "e = NoVersionOverlap"
      by (cases "find (\<lambda>v. v \<in> set (supported_versions x)) (client_versions req)",
          auto simp: negotiate_def)+
    with Inl show ?thesis by (auto simp: find_none)
  qed
next
  case (Inr p)
  obtain suite ver where p: "p = (suite, ver)" by fastforce
  with Inr have f: "find (\<lambda>cs. cs \<in> set (client_suites req)) (supported_suites x) = Some suite"
    "find (\<lambda>v. v \<in> set (supported_versions x)) (client_versions req) = Some ver"
    by (auto simp: negotiate_def bind_result_Inr_iff)
  have "is_post_quantum suite" if "x = executor_new [] vs"
    using that find_first [OF f(1)]
    by (auto simp: executor_new_def with_config_def with_all_def preferred_list_def)
  with Inr p find_first [OF f(1)] find_first [OF f(2)] show ?thesis by simp
qed

subsection \<open>The transcript\<close>

definition request_wf :: "AtHsRequest \<Rightarrow> bool" where
  "request_wf req \<longleftrightarrow>
     length (client_random req) = 32 \<and> length (client_challenge req) = 48 \<and>
     length (c_ecdhe_public (client_share req)) < 2 ^ 64 \<and> length (c_mlkem_public (client_share req)) < 2 ^ 64"

definition share_wf :: "bytes \<Rightarrow> KeyShare \<Rightarrow> bytes \<Rightarrow> bool" where
  "share_wf srandom share ct \<longleftrightarrow>
     length srandom = 32 \<and> length (ecdhe_public share) < 2 ^ 64 \<and>
     length (mlkem_public share) < 2 ^ 64 \<and> length ct < 2 ^ 64"

text \<open>
  C20. The byte string that is hashed into the transcript is an injective encoding of what it covers:
  equal transcripts have equal client random, challenge and key share, server random, key share and
  ciphertext, cipher suite and version.
\<close>
theorem transcript_injective:
  assumes "request_wf r" "request_wf r'" "share_wf sr sh ct" "share_wf sr' sh' ct'"
  shows "transcript_input r suite ver sr sh ct = transcript_input r' suite' ver' sr' sh' ct' \<longleftrightarrow>
           client_random r = client_random r' \<and> client_challenge r = client_challenge r' \<and>
           c_ecdhe_public (client_share r) = c_ecdhe_public (client_share r') \<and>
           c_mlkem_public (client_share r) = c_mlkem_public (client_share r') \<and>
           sr = sr' \<and> sh = sh' \<and> ct = ct' \<and> suite = suite' \<and> ver = ver'"
proof -
  have "sh = sh' \<longleftrightarrow> ecdhe_public sh = ecdhe_public sh' \<and> mlkem_public sh = mlkem_public sh'"
    by (cases sh; cases sh') auto
  with assms show ?thesis
    by (auto simp: transcript_input_def request_wf_def share_wf_def lp64_append_inj lp64_inj)
qed

abbreviation demo_request :: AtHsRequest where
  "demo_request \<equiv>
     \<lparr>client_suites = [X25519MlKem768Aes256GcmSha384], client_versions = [V2],
      client_random = replicate 32 1, client_challenge = replicate 48 2,
      client_share = \<lparr>c_ecdhe_public = [3], c_mlkem_public = [4], c_signature_alg = None\<rparr>,
      client_quotes = [], atb_ttl_secs = 60, provenance = None\<rparr>"

abbreviation demo_share :: KeyShare where
  "demo_share \<equiv> \<lparr>ecdhe_public = [5], mlkem_public = [6]\<rparr>"

theorem transcript_injective_witness:
  "request_wf demo_request \<and> share_wf (replicate 32 9) demo_share [7] \<and>
   transcript_input demo_request X25519MlKem768Aes256GcmSha384 V2 (replicate 32 9) demo_share [7] \<noteq>
   transcript_input demo_request X25519Aes256GcmSha384 V2 (replicate 32 9) demo_share [7]"
  using transcript_injective [of demo_request demo_request "replicate 32 9" demo_share "[7]" "replicate 32 9"
      demo_share "[7]" X25519MlKem768Aes256GcmSha384 V2 X25519Aes256GcmSha384 V2]
  by (simp add: request_wf_def share_wf_def)

text \<open>
  The transcript does not cover the client's offer: two requests that differ only in the offered
  suites, offered versions, quotes, lifetime or provenance have the same transcript and the same
  client report data, so a shortened offer is not visible in it.
\<close>
lemma transcript_ignores_offer:
  "compute_transcript_hash D
       (r\<lparr>client_suites := cs, client_versions := vs, client_quotes := qs, atb_ttl_secs := t, provenance := pr\<rparr>)
       suite ver sr sh ct =
     compute_transcript_hash D r suite ver sr sh ct \<and>
   client_report_data D
       (r\<lparr>client_suites := cs, client_versions := vs, client_quotes := qs, atb_ttl_secs := t, provenance := pr\<rparr>) =
     client_report_data D r"
  by (simp add: compute_transcript_hash_def transcript_input_def client_report_data_def client_binding_input_def)

subsection \<open>Required quote types\<close>

lemma check_quote_types_Inr:
  "check_quote_types required seen qs = Inr r \<longleftrightarrow>
     r = seen @ map quote_type qs \<and> set (map quote_type qs) \<subseteq> set required \<and>
     distinct (map quote_type qs) \<and> set seen \<inter> set (map quote_type qs) = {}"
proof (induction qs arbitrary: seen)
  case (Cons q qs)
  show ?case
    using Cons.IH [of "seen @ [quote_type q]"] by auto
qed auto

lemma check_required_iff:
  "check_required_client_quote_types x qs = Inr () \<longleftrightarrow>
     required_client_quote_types x = [] \<or>
     distinct (map quote_type qs) \<and> set (map quote_type qs) = set (required_client_quote_types x)"
proof (cases "required_client_quote_types x = [] \<or> qs = []")
  case True
  then show ?thesis
    by (cases "required_client_quote_types x") (auto simp: check_required_client_quote_types_def)
next
  case False
  let ?req = "required_client_quote_types x"
  show ?thesis
  proof (cases "check_quote_types ?req [] qs")
    case (Inl e)
    then have "\<not> (set (map quote_type qs) \<subseteq> set ?req \<and> distinct (map quote_type qs))"
      using check_quote_types_Inr [of ?req "[]" qs "map quote_type qs"] by auto
    with False Inl show ?thesis by (auto simp: check_required_client_quote_types_def)
  next
    case (Inr seen)
    then have "seen = map quote_type qs" "set (map quote_type qs) \<subseteq> set ?req" "distinct (map quote_type qs)"
      by (simp_all add: check_quote_types_Inr)
    note seen = this
    show ?thesis
    proof (cases "find (\<lambda>t. t \<notin> set seen) ?req")
      case None
      then have "set ?req \<subseteq> set seen" by (auto simp: find_none)
      with False Inr None seen show ?thesis by (auto simp: check_required_client_quote_types_def)
    next
      case (Some t)
      then have "t \<in> set ?req" "t \<notin> set seen" using find_first [OF Some] by auto
      with False Inr Some seen show ?thesis by (auto simp: check_required_client_quote_types_def)
    qed
  qed
qed

lemma set_remdups_adj_sort: "set (remdups_adj (sort_key f xs)) = set xs"
  by simp

text \<open>
  A client bundle satisfies a configured quote-type requirement exactly when it has each required
  type once and no other type; an empty requirement accepts every bundle.
\<close>
lemma required_quote_types_exact:
  "check_required_client_quote_types (with_required_client_quote_types ord x types) qs = Inr () \<longleftrightarrow>
     types = [] \<or> distinct (map quote_type qs) \<and> set (map quote_type qs) = set types"
proof -
  have "remdups_adj (sort_key ord types) = [] \<longleftrightarrow> types = []"
    by (metis set_empty set_remdups_adj_sort)
  then show ?thesis by (simp add: check_required_iff with_required_client_quote_types_def)
qed

subsection \<open>Client attestation\<close>

definition quote_accepted ::
    "AtHsExecutor \<Rightarrow> (AttestQuote \<Rightarrow> bytes \<Rightarrow> string + VerificationResult) \<Rightarrow> bytes \<Rightarrow> u64 \<Rightarrow>
     AttestQuote \<Rightarrow> VerificationResult \<Rightarrow> bool" where
  "quote_accepted x v rd now q res \<longleftrightarrow>
     v q rd = Inr res \<and> \<not> too_old now res \<and> reject_debug_builds res (exec_allow_debug x) = Inr () \<and>
     (\<forall>f. policy_engine x = Some f \<longrightarrow> f res = Inr ()) \<and>
     (\<forall>f. revocation_provider x = Some f \<longrightarrow> f res = Inr ())"

lemma opt_check_Inr: "opt_check c err res = Inr () \<longleftrightarrow> (\<forall>f. c = Some f \<longrightarrow> f res = Inr ())"
  by (cases c) (auto simp: opt_check_def)

lemma verify_quotes_Cons:
  "verify_quotes x v rd now acc (q # qs) = Inr r \<longleftrightarrow>
     (\<exists>res. quote_accepted x v rd now q res \<and>
        verify_quotes x v rd now (Some (add_secondary acc res)) qs = Inr r)"
  by (auto simp: bind_result_Inr_iff quote_accepted_def opt_check_Inr Let_def split: if_splits)

lemma verify_quotes_all:
  "verify_quotes x v rd now acc qs = Inr r \<Longrightarrow>
     \<exists>rs. list_all2 (quote_accepted x v rd now) qs rs \<and>
       r = fold (\<lambda>res a. Some (add_secondary a res)) rs acc"
proof (induction qs arbitrary: acc)
  case (Cons q qs)
  then obtain res where res: "quote_accepted x v rd now q res"
    "verify_quotes x v rd now (Some (add_secondary acc res)) qs = Inr r"
    using verify_quotes_Cons by blast
  from Cons.IH [OF res(2)] obtain rs where "list_all2 (quote_accepted x v rd now) qs rs"
    "r = fold (\<lambda>res a. Some (add_secondary a res)) rs (Some (add_secondary acc res))" by blast
  with res(1) show ?case by (intro exI [of _ "res # rs"]) simp
qed simp

lemma add_secondary_None [simp]: "add_secondary None res = res"
  by (simp add: add_secondary_def)

lemma fold_add_secondary:
  "fold (\<lambda>res a. Some (add_secondary a res)) rs (Some p) =
     Some (VerificationResult (eat_token p) (claims p) (tcb_status p) (measurement p) (signer_id p) (secondary p @ rs))"
  by (induction rs arbitrary: p) (simp_all add: add_secondary_def)

text \<open>
  C2. Client attestation fails closed. When the server accepts a request, either the client sent no
  quote, none is required and no result is recorded; or a verifier is configured and every single
  quote was verified against the report data that binds this request's random, challenge and key
  share, is not older than 24 hours, not in debug mode unless allowed, and passed the policy engine
  and the revocation check. The recorded result is the first quote's, with the others as secondary.
\<close>
theorem client_attestation_fails_closed:
  assumes "verify_client_quotes D x req verif now = Inr r"
  shows "(client_quotes req = [] \<and> required_client_quote_types x = [] \<and> r = None) \<or>
         (\<exists>v p rs. verif = Some v \<and>
            list_all2 (quote_accepted x v (client_report_data D req) now) (client_quotes req) (p # rs) \<and>
            r = Some (VerificationResult (eat_token p) (claims p) (tcb_status p) (measurement p) (signer_id p)
                        (secondary p @ rs)))"
proof (cases "client_quotes req = []")
  case True
  with assms show ?thesis
    by (auto simp: verify_client_quotes_def bind_result_Inr_iff check_required_client_quote_types_def
        Let_def split: if_splits)
next
  case False
  with assms obtain v where v: "verif = Some v"
    "verify_quotes x v (client_report_data D req) now None (client_quotes req) = Inr r"
    by (auto simp: verify_client_quotes_def bind_result_Inr_iff)
  obtain rs where rs: "list_all2 (quote_accepted x v (client_report_data D req) now) (client_quotes req) rs"
    "r = fold (\<lambda>res a. Some (add_secondary a res)) rs None"
    using verify_quotes_all [OF v(2)] by blast
  from rs(1) False obtain p rs' where "rs = p # rs'" by (cases rs) auto
  with rs v(1) show ?thesis
    by (intro disjI2 exI [of _ v] exI [of _ p] exI [of _ rs'])
      (simp add: fold_add_secondary)
qed

abbreviation demo_result :: VerificationResult where
  "demo_result \<equiv> VerificationResult None
     \<lparr>ueid = None, hwmodel = None, hwversion = None, oemid = None, dbgstat = Some 0, boot_progress = None,
      security_version = None, iat = Some 1000, exp = None, tee_class = Some IntelTdx\<rparr> ''UpToDate'' None None []"

abbreviation demo_quote :: AttestQuote where
  "demo_quote \<equiv> \<lparr>quote_type = Tdx, format = Raw, quote_raw = [], qudd = [], collateral_uris = []\<rparr>"

abbreviation demo_hashes :: hash_lib where
  "demo_hashes \<equiv> \<lparr>sha384 = (\<lambda>m. take 48 (m @ replicate 48 0)), sha512 = (\<lambda>m. take 64 (m @ replicate 64 0))\<rparr>"

theorem client_attestation_fails_closed_witness:
  "let req = demo_request\<lparr>client_quotes := [demo_quote]\<rparr>; x = executor_new [] []
   in verify_client_quotes demo_hashes x req (Some (\<lambda>q rd. Inr demo_result)) 2000 = Inr (Some demo_result) \<and>
      quote_accepted x (\<lambda>q rd. Inr demo_result) (client_report_data demo_hashes req) 2000 demo_quote demo_result"
proof -
  let ?req = "demo_request\<lparr>client_quotes := [demo_quote]\<rparr>" and ?x = "executor_new [] []"
  have "verify_client_quotes demo_hashes ?x ?req (Some (\<lambda>q rd. Inr demo_result)) 2000 = Inr (Some demo_result)"
    by (simp add: verify_client_quotes_def check_required_client_quote_types_def executor_new_def with_config_def
        with_all_def too_old_def reject_debug_builds_def opt_check_def add_secondary_def)
  moreover from client_attestation_fails_closed [OF this] obtain p where
    "quote_accepted ?x (\<lambda>q rd. Inr demo_result) (client_report_data demo_hashes ?req) 2000 demo_quote p"
    by (auto simp: list_all2_Cons1)
  moreover from this have "p = demo_result" by (simp only: quote_accepted_def sum.inject)
  ultimately show ?thesis by (simp only: Let_def)
qed

subsection \<open>A successful execution\<close>

lemma execute_server_Inr:
  assumes "execute_server E x req = Inr (suite, ver, share, res)"
  obtains pair ss ct where
    "negotiate x req = Inr (suite, ver)"
    "derive (hkdf E) ss (hs_transcript_hash res) = Some (Inr (session_keys res))"
    "verify_client_quotes (hashes E) x req (verifier E) (unix_now E) = Inr (client_attestation_result res)"
    "make_server_quotes E x (hs_transcript_hash res) = Inr (server_quotes res)"
    "make_server_signatures E (hs_transcript_hash res) = Inr (server_signatures res)"
    "hs_transcript_hash res =
       compute_transcript_hash (hashes E) req suite ver (server_random res) (public_key_share pair) ct"
    "s_ecdhe_public share = ecdhe_public (public_key_share pair)"
    "s_mlkem_public share = mlkem_public (public_key_share pair)" "s_mlkem_ciphertext share = ct"
    "s_signature_alg share = (if identity_key E = None then None else Some MlDsa65)"
    "hybrid_generate (kem E) (x_seed E) (kem_seed E) = Inr pair"
    "server_combine (kem E) pair (encap_seed E)
       \<lparr>ecdhe_public = c_ecdhe_public (client_share req), mlkem_public = c_mlkem_public (client_share req)\<rparr> =
       Some (Inr (ss, ct))"
    "rng E = Some (server_random res)" "atb_id res = fresh_id E"
    "hs_expires_at res = instant_now E + unat (atb_ttl_secs req)"
proof -
  have or_panic_Inr: "or_panic r f = Inr y \<longleftrightarrow> r = Some (Inr y)" for r :: "('e + 'a) option" and f y
    by (cases r) (auto simp: or_panic_def)
  show thesis
    using assms unfolding execute_server_def Let_def
    by (clarsimp simp: bind_result_Inr_iff or_panic_Inr instant_add_Some_iff) (rule that; simp)
qed

text \<open>
  What a successful server execution guarantees: negotiated parameters, keys derived from the
  hybrid secret and the transcript, client evidence accepted as above; under strict attestation
  the server's own quotes were produced over the hash of the server prefix and this transcript,
  and a signature algorithm is advertised exactly when the transcript was signed.
\<close>
lemma execute_server_guarantees:
  assumes "execute_server E x req = Inr (suite, ver, share, res)"
  shows "negotiate x req = Inr (suite, ver) \<and>
         verify_client_quotes (hashes E) x req (verifier E) (unix_now E) = Inr (client_attestation_result res) \<and>
         hs_transcript_hash res =
           compute_transcript_hash (hashes E) req suite ver (server_random res)
             \<lparr>ecdhe_public = s_ecdhe_public share, mlkem_public = s_mlkem_public share\<rparr> (s_mlkem_ciphertext share) \<and>
         (\<exists>ss. derive (hkdf E) ss (hs_transcript_hash res) = Some (Inr (session_keys res))) \<and>
         (strict_attestation x \<longrightarrow>
            (\<exists>gen. tee_provider E = Some gen \<and>
               gen (server_report_data (hashes E) (hs_transcript_hash res)) = Inr (server_quotes res))) \<and>
         (s_signature_alg share \<noteq> None \<longleftrightarrow> server_signatures res \<noteq> []) \<and>
         (\<forall>sign. identity_key E = Some sign \<longrightarrow>
            (\<exists>sg. sign (hs_transcript_hash res) = Inr sg \<and> server_signatures res = [sg]))"
proof -
  obtain pair ss ct where
    st: "negotiate x req = Inr (suite, ver)"
    "derive (hkdf E) ss (hs_transcript_hash res) = Some (Inr (session_keys res))"
    "verify_client_quotes (hashes E) x req (verifier E) (unix_now E) = Inr (client_attestation_result res)"
    "make_server_quotes E x (hs_transcript_hash res) = Inr (server_quotes res)"
    "make_server_signatures E (hs_transcript_hash res) = Inr (server_signatures res)"
    "hs_transcript_hash res =
       compute_transcript_hash (hashes E) req suite ver (server_random res) (public_key_share pair) ct"
    "s_ecdhe_public share = ecdhe_public (public_key_share pair)"
    "s_mlkem_public share = mlkem_public (public_key_share pair)" "s_mlkem_ciphertext share = ct"
    "s_signature_alg share = (if identity_key E = None then None else Some MlDsa65)"
    using assms by (rule execute_server_Inr)
  have share: "public_key_share pair = \<lparr>ecdhe_public = s_ecdhe_public share, mlkem_public = s_mlkem_public share\<rparr>"
    using st(7,8) by simp
  have q: "strict_attestation x \<Longrightarrow> \<exists>gen. tee_provider E = Some gen \<and>
      gen (server_report_data (hashes E) (hs_transcript_hash res)) = Inr (server_quotes res)"
    using st(4) by (auto simp: make_server_quotes_def split: option.splits sum.splits)
  have sig: "(s_signature_alg share \<noteq> None \<longleftrightarrow> server_signatures res \<noteq> [])"
    "\<And>sign. identity_key E = Some sign \<Longrightarrow> \<exists>sg. sign (hs_transcript_hash res) = Inr sg \<and> server_signatures res = [sg]"
    using st(5,10) by (auto simp: make_server_signatures_def bind_result_Inr_iff split: option.splits if_splits)
  show ?thesis using st(1,2,3) st(6) [unfolded share] st(9) q sig by blast
qed

abbreviation demo_env :: hs_env where
  "demo_env \<equiv>
     \<lparr>kem = sum_kem, hkdf = const_hkdf, hashes = demo_hashes, tee_provider = Some (\<lambda>rd. Inr [demo_quote]),
      verifier = None, identity_key = Some (\<lambda>m. Inr [1]), x_seed = [5], kem_seed = [6], encap_seed = [7],
      rng = Some (replicate 32 8), fresh_id = 9, unix_now = 2000, instant_now = 0\<rparr>"

lemma execute_server_ok:
  assumes "negotiate x req = Inr (suite, ver)" "hybrid_generate (kem E) (x_seed E) (kem_seed E) = Inr pair"
    and "server_combine (kem E) pair (encap_seed E)
       \<lparr>ecdhe_public = c_ecdhe_public (client_share req), mlkem_public = c_mlkem_public (client_share req)\<rparr> =
       Some (Inr (ss, ct))"
    and "rng E = Some srandom" "verify_client_quotes (hashes E) x req (verifier E) (unix_now E) = Inr att"
    and "hkdf_correct (hkdf E)" "\<And>m. length (sha384 (hashes E) m) = 48"
    and "instant_now E + unat (atb_ttl_secs req) < 2 ^ 63"
    and "\<And>th. \<exists>qs. make_server_quotes E x th = Inr qs" "\<And>th. \<exists>sigs. make_server_signatures E th = Inr sigs"
  shows "\<exists>share res. execute_server E x req = Inr (suite, ver, share, res)"
proof -
  define th where "th = compute_transcript_hash (hashes E) req suite ver srandom (public_key_share pair) ct"
  have "length th = 48" by (simp add: th_def compute_transcript_hash_def assms(7))
  then obtain k where k: "derive (hkdf E) ss th = Some (Inr k)"
    using derive_ok [OF assms(6), of th ss] by blast
  obtain qs sigs where "make_server_quotes E x th = Inr qs" "make_server_signatures E th = Inr sigs"
    using assms(9,10) by blast
  with k assms(1-5,8) show ?thesis
    by (simp add: execute_server_def or_panic_def instant_add_def Let_def th_def [symmetric])
qed

lemma demo_execute:
  "\<exists>share res. execute_server demo_env (with_strict_mode [] [] True) demo_request =
     Inr (X25519MlKem768Aes256GcmSha384, V2, share, res)"
proof -
  obtain ss ct where ss: "server_combine sum_kem
      \<lparr>ecdhe = \<lparr>private_key = [5], ecdhe_public_key = [5]\<rparr>, mlkem = \<lparr>decap_key = [6], encap_key = [6]\<rparr>\<rparr> [7]
      \<lparr>ecdhe_public = [3], mlkem_public = [4]\<rparr> = Some (Inr (ss, ct))"
    by (simp add: server_combine_def agree_def encapsulate_def combine_def combine_ikm_def encode_lengthed_def sum_kem_def)
  have g: "hybrid_generate sum_kem [5] [6] =
      Inr \<lparr>ecdhe = \<lparr>private_key = [5], ecdhe_public_key = [5]\<rparr>, mlkem = \<lparr>decap_key = [6], encap_key = [6]\<rparr>\<rparr>"
    by (simp add: hybrid_generate_def generate_x25519_def mlkem_generate_def sum_kem_def)
  show ?thesis
    by (rule execute_server_ok
        [where pair = "\<lparr>ecdhe = \<lparr>private_key = [5], ecdhe_public_key = [5]\<rparr>, mlkem = \<lparr>decap_key = [6], encap_key = [6]\<rparr>\<rparr>"
          and ss = ss and ct = ct and srandom = "replicate 32 8" and att = None])
      (use g ss const_hkdf_correct in \<open>simp_all add: negotiate_def with_strict_mode_def with_config_def with_all_def
        preferred_list_def verify_client_quotes_def check_required_client_quote_types_def make_server_quotes_def
        make_server_signatures_def\<close>)
qed

end
