(* ===== verification/Messages.thy ===== *)
theory Messages
  imports Proto Handshake
begin

section \<open>Handshake messages\<close>

text \<open>
  The structs of \<open>openhttpa-headers/src/attest_headers.rs\<close> that the client and the server exchange, and
  the JSON codec of the two key shares (\<open>serde_json\<close>, a parameter whose serialisers may fail). Their encoding as
  HTTP headers is in the theory on the attest codec.
\<close>

record TrustedCargo =
  key_index :: byte
  encrypted_metadata :: bytes
  cargo_tag :: bytes
  padding_length :: u16

record AttestSecret =
  secret_index :: byte
  secret_ciphertext :: bytes
  secret_tag :: bytes

record AtHsRequestHeaders =
  rq_cipher_suites :: "CipherSuite list"
  rq_random :: bytes
  rq_versions :: "ProtocolVersion list"
  rq_key_shares_json :: bytes
  rq_date :: string
  rq_base_creation :: AtbCreation
  rq_direct_attestation :: bool
  rq_allow_untrusted_requests :: bool
  rq_client_quotes :: "AttestQuote list"
  rq_challenge :: "bytes option"
  rq_signatures :: "bytes list"
  rq_ticket :: "SessionTicket option"
  rq_provenance :: "ProvenanceChain option"
  rq_encrypted_hello :: "bytes option"

record AtHsResponseHeaders =
  rs_cipher_suite :: CipherSuite
  rs_random :: bytes
  rs_key_share_json :: bytes
  rs_base_id :: AtbId
  rs_version :: ProtocolVersion
  rs_expires_secs :: u64
  rs_quotes :: "AttestQuote list"
  rs_secrets :: "AttestSecret list"
  rs_cargo :: "TrustedCargo option"
  rs_ticket_resumption :: "SessionTicket option"
  rs_server_signatures :: "bytes list"
  rs_zk_proof :: "bytes option"

record PreflightResponseHeaders =
  pf_cipher_suites :: "CipherSuite list"
  pf_versions :: "ProtocolVersion list"
  pf_challenge :: bytes
  pf_oblivious_supported :: bool

record share_codec =
  client_share_json :: "ClientKeyShare \<Rightarrow> string + bytes"
  client_share_of_json :: "bytes \<Rightarrow> string + ClientKeyShare"
  server_share_json :: "ServerKeyShare \<Rightarrow> string + bytes"
  server_share_of_json :: "bytes \<Rightarrow> string + ServerKeyShare"

text \<open>Serialisation may fail; what it returns is read back.\<close>

definition share_codec_correct :: "share_codec \<Rightarrow> bool" where
  "share_codec_correct J \<longleftrightarrow>
     (\<forall>s b. client_share_json J s = Inr b \<longrightarrow> client_share_of_json J b = Inr s) \<and>
     (\<forall>s b. server_share_json J s = Inr b \<longrightarrow> server_share_of_json J b = Inr s)"

text \<open>An instance of the codec for witnesses: length-prefixed fields.\<close>

definition sig_byte :: "SigAlg option \<Rightarrow> byte" where
  "sig_byte a = (if a = None then 0 else 1)"

definition sig_of_byte :: "byte \<Rightarrow> SigAlg option" where
  "sig_of_byte b = (if b = 0 then None else Some MlDsa65)"

fun enc_field :: "bytes \<Rightarrow> bytes" where
  "enc_field [] = [0]"
| "enc_field (b # bs) = 1 # b # enc_field bs"

fun dec_field :: "bytes \<Rightarrow> (bytes \<times> bytes) option" where
  "dec_field (Cons h (Cons b r)) =
     (if h = 0 then Some ([], b # r) else map_option (\<lambda>(f, r'). (b # f, r')) (dec_field r))"
| "dec_field [h] = (if h = 0 then Some ([], []) else None)"
| "dec_field [] = None"

lemma dec_enc_field [simp]: "dec_field (enc_field f @ r) = Some (f, r)"
proof (induction f)
  case Nil
  show ?case by (cases r) auto
qed simp

lemma sig_of_byte_sig_byte [simp]: "sig_of_byte (sig_byte a) = a"
  by (cases a) (simp_all add: sig_byte_def sig_of_byte_def, metis SigAlg.exhaust)

definition demo_share_codec :: share_codec where
  "demo_share_codec =
     \<lparr>client_share_json = (\<lambda>s. Inr (enc_field (c_ecdhe_public s) @ enc_field (c_mlkem_public s) @ [sig_byte (c_signature_alg s)])),
      client_share_of_json = (\<lambda>b.
        case dec_field b of None \<Rightarrow> Inl ''json''
        | Some (e, r) \<Rightarrow> (case dec_field r of
            Some (m, [a]) \<Rightarrow> Inr \<lparr>c_ecdhe_public = e, c_mlkem_public = m, c_signature_alg = sig_of_byte a\<rparr>
          | _ \<Rightarrow> Inl ''json'')),
      server_share_json = (\<lambda>s. Inr (enc_field (s_ecdhe_public s) @ enc_field (s_mlkem_public s) @
                               enc_field (s_mlkem_ciphertext s) @ [sig_byte (s_signature_alg s)])),
      server_share_of_json = (\<lambda>b.
        case dec_field b of None \<Rightarrow> Inl ''json''
        | Some (e, r) \<Rightarrow> (case dec_field r of None \<Rightarrow> Inl ''json''
          | Some (m, r') \<Rightarrow> (case dec_field r' of
              Some (c, [a]) \<Rightarrow> Inr \<lparr>s_ecdhe_public = e, s_mlkem_public = m, s_mlkem_ciphertext = c,
                                     s_signature_alg = sig_of_byte a\<rparr>
            | _ \<Rightarrow> Inl ''json'')))\<rparr>"

lemma demo_share_codec_correct: "share_codec_correct demo_share_codec"
  by (auto simp: share_codec_correct_def demo_share_codec_def)

end
