(* ===== verification/Headers.thy ===== *)
theory Headers
  imports Proto "HOL-Library.List_Lexorder" "HOL-Library.Char_ord"
begin

section \<open>Attested header list and trailers\<close>

text \<open>
  \<open>openhttpa-headers/src/attest_headers.rs\<close> (the attested header list, which the request MAC covers)
  and \<open>trailers.rs\<close>. An \<open>http::HeaderMap\<close> is an association list from lower-case names to their values in order of
  insertion. The text checks of \<open>http::HeaderValue\<close> and Base64 are parameters, collected in \<open>http_lib\<close>.

  The lemmas show that the canonical byte string determines everything it is meant to bind, and that
  ticket and binder trailers are recovered by their decoders.
\<close>

subsection \<open>Header maps\<close>

type_synonym header_map = "(string \<times> bytes list) list"

definition hdr_get_all :: "header_map \<Rightarrow> string \<Rightarrow> bytes list" where
  "hdr_get_all h n = (case map_of h n of None \<Rightarrow> [] | Some vs \<Rightarrow> vs)"

definition hdr_get :: "header_map \<Rightarrow> string \<Rightarrow> bytes option" where
  "hdr_get h n = (case hdr_get_all h n of [] \<Rightarrow> None | v # _ \<Rightarrow> Some v)"

definition hdr_insert :: "string \<Rightarrow> bytes \<Rightarrow> header_map \<Rightarrow> header_map" where
  "hdr_insert n v h = hm_insert n [v] h"

definition result_ok :: "'e + 'a \<Rightarrow> 'a option" where
  "result_ok r = (case r of Inl _ \<Rightarrow> None | Inr x \<Rightarrow> Some x)"

lemma result_ok_simps [simp]: "result_ok (Inl e) = None" "result_ok (Inr x) = Some x"
  by (simp_all add: result_ok_def)

record http_lib =
  hl_to_str :: "bytes \<Rightarrow> string + bytes"
  hl_from_str :: "bytes \<Rightarrow> string + bytes"
  hl_b64_encode :: "bytes \<Rightarrow> bytes"
  hl_b64_decode :: "bytes \<Rightarrow> string + bytes"

lemma hdr_get_insert [simp]: "hdr_get (hdr_insert n v h) k = (if k = n then Some v else hdr_get h k)"
  by (simp add: hdr_get_def hdr_get_all_def hdr_insert_def)

lemma hdr_wf_insert [simp]: "hm_wf h \<Longrightarrow> hm_wf (hdr_insert n v h)"
  by (simp add: hdr_insert_def)

subsection \<open>The attested header list\<close>

datatype HeaderError =
    HeaderMissing string
  | HeaderInvalid string string
  | HeaderBase64 string string
  | TooManyHeaders nat
  | ValueTooLong string

definition MAX_AHL_HEADERS :: nat where "MAX_AHL_HEADERS = 64"
definition MAX_AHL_HEADER_NAME_LEN :: nat where "MAX_AHL_HEADER_NAME_LEN = 256"
definition MAX_AHL_HEADER_VALUE_LEN :: nat where "MAX_AHL_HEADER_VALUE_LEN = 4096"

definition ascii_upper :: "char \<Rightarrow> char" where
  "ascii_upper c =
     (let n = of_char c :: nat in if 97 \<le> n \<and> n \<le> 122 then char_of (n - 32) else c)"

fun show_nat :: "nat \<Rightarrow> string" where
  "show_nat n = (if n < 10 then [char_of (48 + n)] else show_nat (n div 10) @ [char_of (48 + n mod 10)])"

declare show_nat.simps [simp del]

definition counted :: "bytes \<Rightarrow> bytes" where
  "counted v = str_bytes (show_nat (length v)) @ str_bytes '':'' @ v"

definition ahl_base :: "string \<Rightarrow> string \<Rightarrow> string option \<Rightarrow> string \<Rightarrow> bytes" where
  "ahl_base meth path query authority =
     str_bytes ''7::method'' @ counted (str_bytes (map ascii_upper meth)) @
     str_bytes ''5::path'' @ counted (str_bytes path) @
     str_bytes ''6::query'' @ counted (str_bytes (case query of None \<Rightarrow> [] | Some q \<Rightarrow> q)) @
     str_bytes ''10::authority'' @ counted (str_bytes authority)"

definition ahl_names :: "header_map \<Rightarrow> string list" where
  "ahl_names h =
     sort_key (map ascii_lower)
       (filter (\<lambda>n. map ascii_lower n \<noteq> ''attest-ticket'' \<and> map ascii_lower n \<noteq> ''attest-binder'')
         (filter (\<lambda>n. prefix ''attest-'' (map ascii_lower n)) (map fst h)))"

fun join_comma :: "bytes list \<Rightarrow> bytes" where
  "join_comma [] = []"
| "join_comma [v] = v"
| "join_comma (v # vs) = v @ str_bytes '','' @ join_comma vs"

definition ahl_value :: "http_lib \<Rightarrow> header_map \<Rightarrow> string \<Rightarrow> bytes" where
  "ahl_value W h n = join_comma (List.map_filter (result_ok \<circ> hl_to_str W) (hdr_get_all h n))"

fun ahl_headers :: "http_lib \<Rightarrow> header_map \<Rightarrow> string list \<Rightarrow> HeaderError + bytes" where
  "ahl_headers W h [] = Inr []"
| "ahl_headers W h (n # ns) =
     (let name_str = map ascii_lower n; val_str = ahl_value W h n in
      if length name_str > MAX_AHL_HEADER_NAME_LEN then Inl (ValueTooLong name_str)
      else if length val_str > MAX_AHL_HEADER_VALUE_LEN then Inl (ValueTooLong name_str)
      else bind_result (ahl_headers W h ns) (\<lambda>rest. Inr (counted (str_bytes name_str) @ counted val_str @ rest)))"

definition update_ahl ::
    "http_lib \<Rightarrow> string \<Rightarrow> string \<Rightarrow> string option \<Rightarrow> string \<Rightarrow> header_map \<Rightarrow> HeaderError + bytes" where
  "update_ahl W meth path query authority h =
     (if length (ahl_names h) > MAX_AHL_HEADERS then Inl (TooManyHeaders MAX_AHL_HEADERS)
      else bind_result (ahl_headers W h (ahl_names h)) (\<lambda>hs. Inr (ahl_base meth path query authority @ hs)))"

definition canonicalize_ahl ::
    "http_lib \<Rightarrow> string \<Rightarrow> string \<Rightarrow> string option \<Rightarrow> string \<Rightarrow> header_map \<Rightarrow> HeaderError + bytes" where
  "canonicalize_ahl = update_ahl"

subsection \<open>Trailers\<close>

datatype TrailerError = TrailerMissing string | TrailerInvalid string string

definition encode_attest_ticket :: "http_lib \<Rightarrow> u64 \<Rightarrow> bytes \<Rightarrow> bytes option \<Rightarrow> bytes" where
  "encode_attest_ticket W nonce mac salt =
     (let payload = be64 nonce @ (case salt of Some s \<Rightarrow> [1] @ s | None \<Rightarrow> [0]) @ mac
      in case hl_from_str W (hl_b64_encode W payload) of Inl _ \<Rightarrow> [] | Inr v \<Rightarrow> v)"

record DecodedTicket =
  dt_nonce :: u64
  dt_mac :: bytes
  dt_salt :: "bytes option"

definition trailer_bytes :: "http_lib \<Rightarrow> header_map \<Rightarrow> string \<Rightarrow> nat \<Rightarrow> TrailerError + bytes" where
  "trailer_bytes W h name min_len =
     bind_result (ok_or (TrailerMissing name) (hdr_get h name)) (\<lambda>val.
     bind_result (map_err (TrailerInvalid name) (hl_to_str W val)) (\<lambda>s.
     bind_result (map_err (TrailerInvalid name) (hl_b64_decode W s)) (\<lambda>b.
     if length b < min_len then Inl (TrailerInvalid name ''payload too short'') else Inr b)))"

definition decode_attest_ticket :: "http_lib \<Rightarrow> header_map \<Rightarrow> TrailerError + DecodedTicket" where
  "decode_attest_ticket W h =
     bind_result (trailer_bytes W h ''attest-ticket'' 9) (\<lambda>b.
     let nonce = u64_of_be (take 8 b); mode = b ! 8
     in if mode = 1 then
          (if length b < 9 + 16 then Inl (TrailerInvalid ''attest-ticket'' ''0-RTT salt missing'')
           else Inr \<lparr>dt_nonce = nonce, dt_mac = drop 25 b, dt_salt = Some (take 16 (drop 9 b))\<rparr>)
        else Inr \<lparr>dt_nonce = nonce, dt_mac = drop 9 b, dt_salt = None\<rparr>)"

definition encode_attest_binder :: "http_lib \<Rightarrow> u64 \<Rightarrow> bytes \<Rightarrow> bytes" where
  "encode_attest_binder W req_nonce mac =
     (case hl_from_str W (hl_b64_encode W (be64 req_nonce @ mac)) of Inl _ \<Rightarrow> [] | Inr v \<Rightarrow> v)"

definition decode_attest_binder :: "http_lib \<Rightarrow> header_map \<Rightarrow> TrailerError + u64 \<times> bytes" where
  "decode_attest_binder W h =
     bind_result (trailer_bytes W h ''attest-binder'' 8) (\<lambda>b. Inr (u64_of_be (take 8 b), drop 8 b))"

subsection \<open>The libraries\<close>

text \<open>
  \<open>http_lib_correct\<close> states the documented behaviour: header values made of visible ASCII convert to
  text and back unchanged, Base64 text is visible ASCII, and decoding inverts encoding. \<open>demo_http\<close> is a
  concrete instance with two characters per byte.
\<close>

definition visible :: "byte \<Rightarrow> bool" where
  "visible b \<longleftrightarrow> 32 \<le> unat b \<and> unat b < 127"

definition http_lib_correct :: "http_lib \<Rightarrow> bool" where
  "http_lib_correct W \<longleftrightarrow>
     (\<forall>v. list_all visible v \<longrightarrow> hl_to_str W v = Inr v \<and> hl_from_str W v = Inr v) \<and>
     (\<forall>x. list_all visible (hl_b64_encode W x) \<and> hl_b64_decode W (hl_b64_encode W x) = Inr x)"

definition demo_encode :: "bytes \<Rightarrow> bytes" where
  "demo_encode x = concat (map (\<lambda>b. [64 + b div 16, 64 + b mod 16]) x)"

fun demo_decode :: "bytes \<Rightarrow> string + bytes" where
  "demo_decode [] = Inr []"
| "demo_decode [b] = Inl ''odd length''"
| "demo_decode (b # c # r) = bind_result (demo_decode r) (\<lambda>x. Inr (((b - 64) * 16 + (c - 64)) # x))"

definition demo_text :: "bytes \<Rightarrow> string + bytes" where
  "demo_text v = (if list_all visible v then Inr v else Inl ''not visible'')"

definition demo_http :: http_lib where
  "demo_http = \<lparr>hl_to_str = demo_text, hl_from_str = demo_text, hl_b64_encode = demo_encode,
     hl_b64_decode = demo_decode\<rparr>"

lemma demo_decode_encode [simp]: "demo_decode (demo_encode x) = Inr x"
proof (induction x)
  case (Cons a x)
  have "a div 16 * 16 + a mod 16 = a"
    using unat_less_8 [of a] by (simp add: word_unat_eq_iff unat_word_ariths unat_div unat_mod)
  with Cons show ?case by (simp add: demo_encode_def)
qed (simp add: demo_encode_def)

lemma visible_demo_encode [simp]: "list_all visible (demo_encode x)"
proof -
  have "visible (64 + b div 16)" "visible (64 + b mod 16)" for b :: byte
  proof -
    have "unat (b div 16) < 16" "unat (b mod 16) < 16"
      using unat_less_8 [of b] by (simp_all add: unat_div unat_mod)
    then have "unat (64 + b div 16) = 64 + unat (b div 16)" "unat (64 + b mod 16) = 64 + unat (b mod 16)"
      by (simp_all add: unat_word_ariths)
    with \<open>unat (b div 16) < 16\<close> \<open>unat (b mod 16) < 16\<close>
    show "visible (64 + b div 16)" "visible (64 + b mod 16)" by (simp_all add: visible_def)
  qed
  then show ?thesis by (auto simp: demo_encode_def list_all_iff)
qed

lemma demo_http_correct: "http_lib_correct demo_http"
  by (simp add: http_lib_correct_def demo_http_def demo_text_def)

subsection \<open>The header list determines what it binds\<close>

definition digits_val :: "string \<Rightarrow> nat" where
  "digits_val s = foldl (\<lambda>a c. a * 10 + (of_char c - 48)) 0 s"

lemma of_char_digit: "d < 10 \<Longrightarrow> of_char (char_of (48 + d :: nat)) = (48 + d :: nat)"
  by (simp add: of_char_of)

lemma digits_val_show_nat [simp]: "digits_val (show_nat n) = n"
proof (induction n rule: show_nat.induct)
  case (1 n)
  have "(of_char (char_of (48 + n mod 10 :: nat)) :: nat) = 48 + n mod 10" by (rule of_char_digit) simp
  with 1 show ?case
    by (cases "n < 10") (simp_all add: show_nat.simps [of n] digits_val_def of_char_digit)
qed

lemma show_nat_inj: "show_nat m = show_nat n \<longleftrightarrow> m = n"
  by (metis digits_val_show_nat)

lemma show_nat_digits: "c \<in> set (show_nat n) \<Longrightarrow> (of_char c :: nat) < 58"
proof (induction n rule: show_nat.induct)
  case (1 n)
  have "(of_char (char_of (48 + n mod 10 :: nat)) :: nat) = 48 + n mod 10" by (rule of_char_digit) simp
  with 1 show ?case
    by (cases "n < 10") (auto simp: show_nat.simps [of n] of_char_digit)
qed

lemma colon_not_digit: "58 \<notin> set (str_bytes (show_nat n))"
proof
  assume "58 \<in> set (str_bytes (show_nat n))"
  then obtain c where c: "c \<in> set (show_nat n)" "(58 :: byte) = word_of_nat (of_char c)"
    by (auto simp: str_bytes_def)
  have "unat (word_of_nat (of_char c) :: byte) = of_char c"
    using show_nat_digits [OF c(1)] by (simp add: unat_of_nat)
  moreover have "unat (58 :: byte) = 58" by simp
  ultimately have "(of_char c :: nat) = 58" using c(2) by simp
  with show_nat_digits [OF c(1)] show False by simp
qed

lemma counted_append_inj: "counted a @ u = counted b @ v \<longleftrightarrow> a = b \<and> u = v"
proof
  assume eq: "counted a @ u = counted b @ v"
  have split: "takeWhile (\<lambda>x. x \<noteq> 58) (counted c @ w) = str_bytes (show_nat (length c))" for c w
  proof -
    have "\<forall>x\<in>set (str_bytes (show_nat (length c))). x \<noteq> 58" using colon_not_digit by metis
    moreover have "counted c @ w = str_bytes (show_nat (length c)) @ 58 # c @ w"
      by (simp add: counted_def str_bytes_def)
    ultimately show ?thesis by (simp add: takeWhile_append2)
  qed
  from eq have "str_bytes (show_nat (length a)) = str_bytes (show_nat (length b))"
    using split [of a u] split [of b v] by simp
  then have "length a = length b" by (simp add: str_bytes_inj show_nat_inj)
  with eq show "a = b \<and> u = v" by (simp add: counted_def)
qed simp

lemmas counted_inj = counted_append_inj [of _ "[]" _ "[]", simplified]

definition ahl_entries :: "http_lib \<Rightarrow> header_map \<Rightarrow> (string \<times> bytes) list" where
  "ahl_entries W h = map (\<lambda>n. (map ascii_lower n, ahl_value W h n)) (ahl_names h)"

definition entry_bytes :: "(string \<times> bytes) list \<Rightarrow> bytes" where
  "entry_bytes es = concat (map (\<lambda>(n, v). counted (str_bytes n) @ counted v) es)"

lemma counted_not_Nil [simp]: "counted v \<noteq> []"
  by (simp add: counted_def str_bytes_def)

lemma entry_bytes_inj: "entry_bytes es = entry_bytes es' \<longleftrightarrow> es = es'"
proof (induction es arbitrary: es')
  case Nil
  show ?case by (cases es') (auto simp: entry_bytes_def)
next
  case (Cons e es)
  obtain n v where e: "e = (n, v)" by fastforce
  have step: "entry_bytes ((n, v) # es) = counted (str_bytes n) @ counted v @ entry_bytes es" for n v es
    by (simp add: entry_bytes_def)
  show ?case
  proof (cases es')
    case Nil
    then show ?thesis by (simp add: e entry_bytes_def)
  next
    case (Cons e' es'')
    then show ?thesis
      using Cons.IH by (cases e') (auto simp: e step counted_append_inj)
  qed
qed

lemma ahl_headers_Inr:
  "ahl_headers W h ns = Inr r \<longleftrightarrow>
     (\<forall>n\<in>set ns. length n \<le> MAX_AHL_HEADER_NAME_LEN \<and> length (ahl_value W h n) \<le> MAX_AHL_HEADER_VALUE_LEN) \<and>
     r = entry_bytes (map (\<lambda>n. (map ascii_lower n, ahl_value W h n)) ns)"
  by (induction ns arbitrary: r) (auto simp: bind_result_Inr_iff entry_bytes_def Let_def)

lemma update_ahl_Inr:
  assumes "update_ahl W m p q a h = Inr x"
  shows "x = ahl_base m p q a @ entry_bytes (ahl_entries W h)"
  using assms by (auto simp: update_ahl_def ahl_headers_Inr bind_result_Inr_iff ahl_entries_def split: if_splits)

definition query_text :: "string option \<Rightarrow> string" where
  "query_text q = (case q of None \<Rightarrow> [] | Some t \<Rightarrow> t)"

lemma ahl_base_inj:
  "ahl_base m p q a @ u = ahl_base m' p' q' a' @ v \<longleftrightarrow>
     map ascii_upper m = map ascii_upper m' \<and> p = p' \<and> query_text q = query_text q' \<and> a = a' \<and> u = v"
  unfolding ahl_base_def query_text_def
  by (simp only: append_assoc same_append_eq counted_append_inj str_bytes_inj)

text \<open>
  C26. The attested header list is unambiguous: two requests have the same canonical bytes exactly when
  they agree on the upper-cased method, the path, the query text, the authority, and on the sorted
  list of attest header names with their joined values. A query that is absent and one that is
  empty give the same bytes.
\<close>
theorem ahl_injective:
  assumes "canonicalize_ahl W m p q a h = Inr x" "canonicalize_ahl W m' p' q' a' h' = Inr x'"
  shows "x = x' \<longleftrightarrow>
           map ascii_upper m = map ascii_upper m' \<and> p = p' \<and> query_text q = query_text q' \<and> a = a' \<and>
           ahl_entries W h = ahl_entries W h'"
proof -
  have "x = ahl_base m p q a @ entry_bytes (ahl_entries W h)"
    "x' = ahl_base m' p' q' a' @ entry_bytes (ahl_entries W h')"
    using assms by (simp_all add: canonicalize_ahl_def update_ahl_Inr)
  then show ?thesis by (simp add: ahl_base_inj entry_bytes_inj)
qed

theorem ahl_injective_witness:
  "\<exists>x x'. canonicalize_ahl demo_http ''get'' ''/a'' None ''h'' [(''attest-date'', [])] = Inr x \<and>
          canonicalize_ahl demo_http ''GET'' ''/a'' (Some ''x=1'') ''h'' [(''attest-date'', [])] = Inr x' \<and> x \<noteq> x'"
proof -
  have n: "ahl_names [(''attest-date'', [])] = [''attest-date'']"
    by (simp add: ahl_names_def ascii_lower_def)
  have v: "ahl_value demo_http [(''attest-date'', [])] ''attest-date'' = []"
    by (simp add: ahl_value_def hdr_get_all_def List.map_filter_def)
  obtain x where x: "canonicalize_ahl demo_http ''get'' ''/a'' None ''h'' [(''attest-date'', [])] = Inr x"
    by (simp add: canonicalize_ahl_def update_ahl_def n v MAX_AHL_HEADERS_def MAX_AHL_HEADER_NAME_LEN_def Let_def)
  obtain x' where x': "canonicalize_ahl demo_http ''GET'' ''/a'' (Some ''x=1'') ''h'' [(''attest-date'', [])] = Inr x'"
    by (simp add: canonicalize_ahl_def update_ahl_def n v MAX_AHL_HEADERS_def MAX_AHL_HEADER_NAME_LEN_def Let_def)
  have "x \<noteq> x'" using ahl_injective [OF x x'] by (simp add: query_text_def)
  with x x' show ?thesis by blast
qed

subsection \<open>Which headers the list depends on\<close>

definition bound_header :: "string \<Rightarrow> bool" where
  "bound_header n \<longleftrightarrow> prefix ''attest-'' n \<and> n \<noteq> ''attest-ticket'' \<and> n \<noteq> ''attest-binder''"

definition header_map_wf :: "header_map \<Rightarrow> bool" where
  "header_map_wf h \<longleftrightarrow> hm_wf h \<and> (\<forall>n\<in>set (map fst h). map ascii_lower n = n)"

lemma header_map_wf_insert:
  "header_map_wf h \<Longrightarrow> map ascii_lower n = n \<Longrightarrow> header_map_wf (hdr_insert n v h)"
  by (auto simp: header_map_wf_def hdr_insert_def hm_insert_def hm_remove_def)

lemma ahl_names_lower:
  assumes "header_map_wf h"
  shows "ahl_names h = sort (filter bound_header (map fst h))"
proof -
  let ?ns = "filter bound_header (map fst h)"
  have low: "map ascii_lower n = n" if "n \<in> set (map fst h)" for n
    using that assms by (auto simp: header_map_wf_def)
  have "filter (\<lambda>n. map ascii_lower n \<noteq> ''attest-ticket'' \<and> map ascii_lower n \<noteq> ''attest-binder'')
         (filter (\<lambda>n. prefix ''attest-'' (map ascii_lower n)) (map fst h)) = ?ns"
    unfolding filter_filter using low by (intro filter_cong) (auto simp: bound_header_def)
  moreover have "sort_key (map ascii_lower) ?ns = sort ?ns"
  proof (rule sorted_distinct_set_unique)
    have "map (map ascii_lower) (sort_key (map ascii_lower) ?ns) = sort_key (map ascii_lower) ?ns"
      by (rule map_idI, rule low) auto
    then show "sorted (sort_key (map ascii_lower) ?ns)" by (metis sorted_sort_key)
  qed (use assms in \<open>simp_all add: header_map_wf_def\<close>)
  ultimately show ?thesis by (simp add: ahl_names_def)
qed

lemma ahl_names_cong:
  assumes "header_map_wf h" "header_map_wf h'" and "\<And>n. bound_header n \<Longrightarrow> map_of h n = map_of h' n"
  shows "ahl_names h = ahl_names h'"
proof -
  have "set (filter bound_header (map fst h)) = set (filter bound_header (map fst h'))"
    using assms(3) by (auto simp: map_of_eq_None_iff [symmetric] dom_map_of_conv_image_fst [symmetric] dom_def
        simp del: not_None_eq)
  moreover have "distinct (filter bound_header (map fst h))" "distinct (filter bound_header (map fst h'))"
    using assms(1,2) by (simp_all add: header_map_wf_def)
  ultimately show ?thesis
    using assms(1,2) by (simp add: ahl_names_lower sorted_distinct_set_unique)
qed

lemma ahl_headers_cong:
  "(\<And>n. n \<in> set ns \<Longrightarrow> ahl_value W h n = ahl_value W h' n) \<Longrightarrow> ahl_headers W h ns = ahl_headers W h' ns"
  by (induction ns) (simp_all add: Let_def)

lemma update_ahl_cong:
  assumes "header_map_wf h" "header_map_wf h'" and "\<And>n. bound_header n \<Longrightarrow> map_of h n = map_of h' n"
  shows "update_ahl W m p q a h = update_ahl W m p q a h'"
proof -
  have "bound_header n" if "n \<in> set (ahl_names h)" for n
    using that assms(1) by (simp add: ahl_names_lower)
  then have "ahl_headers W h (ahl_names h) = ahl_headers W h' (ahl_names h)"
    using assms(3) by (intro ahl_headers_cong) (simp add: ahl_value_def hdr_get_all_def)
  then show ?thesis
    using ahl_names_cong [OF assms] by (simp add: update_ahl_def)
qed

subsection \<open>Trailers are recovered\<close>

lemma trailer_bytes_insert:
  assumes "http_lib_correct W" "length payload \<ge> k" "hdr_get h name = Some (hl_b64_encode W payload)"
  shows "trailer_bytes W h name k = Inr payload"
  using assms by (simp add: trailer_bytes_def http_lib_correct_def)

lemma encode_attest_ticket_value:
  assumes "http_lib_correct W"
  shows "encode_attest_ticket W nonce mac salt =
     hl_b64_encode W (be64 nonce @ (case salt of Some s \<Rightarrow> [1] @ s | None \<Rightarrow> [0]) @ mac)"
  using assms by (simp add: encode_attest_ticket_def http_lib_correct_def Let_def)

lemma decode_encode_ticket:
  assumes "http_lib_correct W" "\<And>s. salt = Some s \<Longrightarrow> length s = 16"
    "hdr_get h ''attest-ticket'' = Some (encode_attest_ticket W nonce mac salt)"
  shows "decode_attest_ticket W h = Inr \<lparr>dt_nonce = nonce, dt_mac = mac, dt_salt = salt\<rparr>"
proof -
  have "trailer_bytes W h ''attest-ticket'' 9 =
      Inr (be64 nonce @ (case salt of Some s \<Rightarrow> [1] @ s | None \<Rightarrow> [0]) @ mac)"
    using assms by (intro trailer_bytes_insert) (simp_all add: encode_attest_ticket_value split: option.split)
  then show ?thesis
    using assms(2) by (cases salt) (simp_all add: decode_attest_ticket_def Let_def nth_append)
qed

text \<open>
  Trailers round-trip. A ticket put into a header map is decoded to the same nonce, MAC and salt
  (present or absent), a binder to the same request nonce and MAC, whatever other headers the map
  carries; the two trailers do not disturb each other.
\<close>
lemma trailers_round_trip:
  assumes "http_lib_correct W" and "\<And>s. salt = Some s \<Longrightarrow> length s = 16"
  shows "decode_attest_ticket W (hdr_insert ''attest-binder'' b (hdr_insert ''attest-ticket'' (encode_attest_ticket W nonce mac salt) h)) =
           Inr \<lparr>dt_nonce = nonce, dt_mac = mac, dt_salt = salt\<rparr> \<and>
         decode_attest_binder W (hdr_insert ''attest-ticket'' b (hdr_insert ''attest-binder'' (encode_attest_binder W nonce mac) h)) =
           Inr (nonce, mac)"
proof
  show "decode_attest_ticket W (hdr_insert ''attest-binder'' b (hdr_insert ''attest-ticket'' (encode_attest_ticket W nonce mac salt) h)) =
           Inr \<lparr>dt_nonce = nonce, dt_mac = mac, dt_salt = salt\<rparr>"
    using assms by (intro decode_encode_ticket) simp_all
  have "encode_attest_binder W nonce mac = hl_b64_encode W (be64 nonce @ mac)"
    using assms(1) by (simp add: encode_attest_binder_def http_lib_correct_def)
  then have "trailer_bytes W (hdr_insert ''attest-ticket'' b (hdr_insert ''attest-binder'' (encode_attest_binder W nonce mac) h))
      ''attest-binder'' 8 = Inr (be64 nonce @ mac)"
    using assms(1) by (intro trailer_bytes_insert) simp_all
  then show "decode_attest_binder W (hdr_insert ''attest-ticket'' b (hdr_insert ''attest-binder'' (encode_attest_binder W nonce mac) h)) =
           Inr (nonce, mac)"
    by (simp add: decode_attest_binder_def)
qed

end
