(* ===== verification/Attest_Codec.thy ===== *)
theory Attest_Codec
  imports Headers Messages
begin

section \<open>Encoding of the handshake headers\<close>

text \<open>
  The typed encoders and decoders of \<open>openhttpa-headers/src/attest_headers.rs\<close>. Structured fields are
  serialised and parsed by the \<open>sfv\<close> crate, whose items, lists and dictionaries are datatypes here and whose
  functions are the parameters in \<open>sfv_lib\<close>; \<open>serde_json\<close>, UUID texts and the environment variable that admits the
  deprecated suite are collected in \<open>header_lib\<close>. Texts are byte lists. An encoder that panics returns \<open>None\<close>.

  The lemmas show what a decoder makes of the encoder's output, for requests, responses, trusted
  requests and preflight answers, and when the encoders panic.
\<close>

subsection \<open>Structured fields\<close>

type_synonym htext = bytes

datatype BareItem =
    BareToken htext
  | BareString htext
  | BareBytes bytes
  | BareInteger int
  | BareBoolean bool
  | BareOther htext

datatype Item = Item (bare_item: BareItem) (item_params: "(htext \<times> BareItem) list")

datatype ListEntry =
    EntryItem Item
  | EntryInner "Item list" "(htext \<times> BareItem) list"

record sfv_lib =
  sf_token :: "htext \<Rightarrow> bool"
  sf_string :: "htext \<Rightarrow> bool"
  sf_item :: "Item \<Rightarrow> htext"
  sf_list :: "ListEntry list \<Rightarrow> htext option"
  sf_parse_item :: "htext \<Rightarrow> string + Item"
  sf_parse_list :: "htext \<Rightarrow> string + ListEntry list"
  sf_parse_dict :: "htext \<Rightarrow> string + (htext \<times> ListEntry) list"

record header_lib =
  hc_http :: http_lib
  hc_sfv :: sfv_lib
  hc_uuid_show :: "AtbId \<Rightarrow> htext"
  hc_uuid_parse :: "htext \<Rightarrow> string + AtbId"
  hc_ticket_json :: "SessionTicket \<Rightarrow> string + bytes"
  hc_ticket_of_json :: "bytes \<Rightarrow> string + SessionTicket"
  hc_provenance_json :: "ProvenanceChain \<Rightarrow> string + bytes"
  hc_provenance_of_json :: "bytes \<Rightarrow> string + ProvenanceChain"
  hc_allow_deprecated :: "string option"

fun as_token :: "BareItem \<Rightarrow> htext option" where
  "as_token (BareToken t) = Some t"
| "as_token _ = None"

fun as_string :: "BareItem \<Rightarrow> htext option" where
  "as_string (BareString t) = Some t"
| "as_string _ = None"

fun as_byte_sequence :: "BareItem \<Rightarrow> bytes option" where
  "as_byte_sequence (BareBytes b) = Some b"
| "as_byte_sequence _ = None"

fun as_integer :: "BareItem \<Rightarrow> int option" where
  "as_integer (BareInteger n) = Some n"
| "as_integer _ = None"

fun as_boolean :: "BareItem \<Rightarrow> bool option" where
  "as_boolean (BareBoolean b) = Some b"
| "as_boolean _ = None"

subsection \<open>Text\<close>

definition blank :: "byte \<Rightarrow> bool" where
  "blank b \<longleftrightarrow> b = 32 \<or> 9 \<le> b \<and> b \<le> 13"

definition trim :: "htext \<Rightarrow> htext" where
  "trim s = rev (dropWhile blank (rev (dropWhile blank s)))"

definition parse_u64 :: "htext \<Rightarrow> u64 option" where
  "parse_u64 s =
     (let ds = bytes_str (case s of c # r \<Rightarrow> if c = 43 then r else s | [] \<Rightarrow> s)
      in if ds \<noteq> [] \<and> list_all (\<lambda>c. 48 \<le> (of_char c :: nat) \<and> (of_char c :: nat) \<le> 57) ds \<and> digits_val ds < 2 ^ 64
         then Some (word_of_nat (digits_val ds)) else None)"

fun contains_text :: "htext \<Rightarrow> htext \<Rightarrow> bool" where
  "contains_text p [] \<longleftrightarrow> p = []"
| "contains_text p (c # s) \<longleftrightarrow> prefix p (c # s) \<or> contains_text p s"

definition header_value_or :: "header_lib \<Rightarrow> htext \<Rightarrow> htext \<Rightarrow> bytes" where
  "header_value_or L fallback t = (case hl_from_str (hc_http L) t of Inl _ \<Rightarrow> fallback | Inr v \<Rightarrow> v)"

definition header_text :: "header_lib \<Rightarrow> header_map \<Rightarrow> string \<Rightarrow> htext option" where
  "header_text L h name = Option.bind (hdr_get h name) (\<lambda>v. result_ok (hl_to_str (hc_http L) v))"

definition header_texts :: "header_lib \<Rightarrow> header_map \<Rightarrow> string \<Rightarrow> htext list" where
  "header_texts L h name = List.map_filter (\<lambda>v. result_ok (hl_to_str (hc_http L) v)) (hdr_get_all h name)"

subsection \<open>Items and lists\<close>

definition encode_bytes_sfv :: "header_lib \<Rightarrow> bytes \<Rightarrow> bytes" where
  "encode_bytes_sfv L b = header_value_or L (str_bytes ''::'') (sf_item (hc_sfv L) (Item (BareBytes b) []))"

definition decode_bytes_sfv :: "header_lib \<Rightarrow> header_map \<Rightarrow> string \<Rightarrow> HeaderError + bytes" where
  "decode_bytes_sfv L h name =
     bind_result (ok_or (HeaderMissing name) (hdr_get h name)) (\<lambda>val.
     bind_result (map_err (HeaderInvalid name) (hl_to_str (hc_http L) val)) (\<lambda>s.
     bind_result (map_err (HeaderInvalid name) (sf_parse_item (hc_sfv L) s)) (\<lambda>item.
       ok_or (HeaderInvalid name ''expected a Byte Sequence item'') (as_byte_sequence (bare_item item)))))"

definition UNKNOWN_TOKEN :: htext where
  "UNKNOWN_TOKEN = str_bytes ''unknown''"

definition token_item :: "header_lib \<Rightarrow> htext \<Rightarrow> Item" where
  "token_item L s =
     Item (if sf_token (hc_sfv L) s then BareToken s
           else if sf_string (hc_sfv L) s then BareString s else BareToken UNKNOWN_TOKEN) []"

definition encode_token_list :: "header_lib \<Rightarrow> htext list \<Rightarrow> bytes" where
  "encode_token_list L values =
     (case sf_list (hc_sfv L) (map (\<lambda>s. EntryItem (token_item L s)) values) of
        None \<Rightarrow> []
      | Some s \<Rightarrow> header_value_or L [] s)"

fun entry_text :: "ListEntry \<Rightarrow> htext option" where
  "entry_text (EntryItem item) =
     (case as_token (bare_item item) of Some t \<Rightarrow> Some t | None \<Rightarrow> as_string (bare_item item))"
| "entry_text (EntryInner items ps) = None"

definition decode_token_list_strings :: "header_lib \<Rightarrow> header_map \<Rightarrow> string \<Rightarrow> HeaderError + htext list" where
  "decode_token_list_strings L h name =
     (let values = header_texts L h name; s = join_comma values in
      if values = [] then Inl (HeaderMissing name)
      else if trim s = [] then Inr []
      else bind_result (map_err (HeaderInvalid name) (sf_parse_list (hc_sfv L) s)) (\<lambda>l.
             Inr (List.map_filter entry_text l)))"

definition MAX_SFV_INT :: nat where
  "MAX_SFV_INT = 999999999999999"

definition encode_integer_sfv :: "header_lib \<Rightarrow> u64 \<Rightarrow> bytes" where
  "encode_integer_sfv L n =
     header_value_or L (str_bytes ''0'')
       (sf_item (hc_sfv L) (Item (BareInteger (int (min (unat n) MAX_SFV_INT))) []))"

definition encode_token_sfv :: "header_lib \<Rightarrow> htext \<Rightarrow> bytes" where
  "encode_token_sfv L s = header_value_or L [] (sf_item (hc_sfv L) (token_item L s))"

subsection \<open>Quotes and policies\<close>

fun all_or_panic :: "'a option list \<Rightarrow> 'a list option" where
  "all_or_panic [] = Some []"
| "all_or_panic (x # xs) = Option.bind x (\<lambda>y. map_option ((#) y) (all_or_panic xs))"

definition uri_item :: "header_lib \<Rightarrow> string \<Rightarrow> Item option" where
  "uri_item L u = (if sf_string (hc_sfv L) (str_bytes u) then Some (Item (BareString (str_bytes u)) []) else None)"

definition token_or_panic :: "header_lib \<Rightarrow> string \<Rightarrow> BareItem option" where
  "token_or_panic L s = (if sf_token (hc_sfv L) (str_bytes s) then Some (BareToken (str_bytes s)) else None)"

definition quote_params :: "header_lib \<Rightarrow> AttestQuote \<Rightarrow> (htext \<times> BareItem) list option" where
  "quote_params L q =
     (if format q = Raw then Some []
      else map_option (\<lambda>t. [(str_bytes ''format'', t)]) (token_or_panic L (show_quote_format (format q))))"

definition quote_entry :: "header_lib \<Rightarrow> AttestQuote \<Rightarrow> ListEntry option" where
  "quote_entry L q =
     Option.bind (token_or_panic L (show_quote_type (quote_type q))) (\<lambda>t.
     Option.bind (quote_params L q) (\<lambda>ps.
     Option.bind (all_or_panic (map (uri_item L) (collateral_uris q))) (\<lambda>uris.
       Some (EntryInner ([Item t [], Item (BareBytes (quote_raw q)) ps] @ uris) []))))"

definition insert_list :: "header_lib \<Rightarrow> string \<Rightarrow> ListEntry list \<Rightarrow> header_map \<Rightarrow> header_map" where
  "insert_list L name es h =
     (case Option.bind (sf_list (hc_sfv L) es) (\<lambda>s. result_ok (hl_from_str (hc_http L) s)) of
        None \<Rightarrow> h
      | Some hv \<Rightarrow> hdr_insert name hv h)"

definition insert_quotes :: "header_lib \<Rightarrow> AttestQuote list \<Rightarrow> header_map \<Rightarrow> header_map option" where
  "insert_quotes L qs h =
     (if qs = [] then Some h
      else map_option (\<lambda>es. insert_list L ''attest-quotes'' es h) (all_or_panic (map (quote_entry L) qs)))"

definition decode_quote :: "ListEntry \<Rightarrow> AttestQuote option" where
  "decode_quote e =
     (case e of
        EntryInner (a # b # rest) _ \<Rightarrow>
          Some \<lparr>quote_type =
                  parse_quote_type (bytes_str (case as_token (bare_item a) of Some t \<Rightarrow> t | None \<Rightarrow> UNKNOWN_TOKEN)),
                format =
                  parse_quote_format (bytes_str
                    (case Option.bind (map_of (item_params b) (str_bytes ''format'')) as_token of
                       Some t \<Rightarrow> t | None \<Rightarrow> str_bytes ''raw'')),
                quote_raw = (case as_byte_sequence (bare_item b) of Some x \<Rightarrow> x | None \<Rightarrow> []),
                qudd = [],
                collateral_uris = map bytes_str (List.map_filter (as_string \<circ> bare_item) rest)\<rparr>
      | _ \<Rightarrow> None)"

definition decode_quotes_sfv :: "header_lib \<Rightarrow> header_map \<Rightarrow> string \<Rightarrow> HeaderError + AttestQuote list" where
  "decode_quotes_sfv L h name =
     (let values = header_texts L h name; s = join_comma values in
      if values = [] then Inr []
      else if trim s = [] then Inr []
      else bind_result (map_err (HeaderInvalid name) (sf_parse_list (hc_sfv L) s)) (\<lambda>l.
             Inr (List.map_filter decode_quote l)))"

fun entry_boolean :: "ListEntry \<Rightarrow> bool option" where
  "entry_boolean (EntryItem i) = as_boolean (bare_item i)"
| "entry_boolean (EntryInner items ps) = None"

definition policy_flag :: "(htext \<times> ListEntry) list \<Rightarrow> string \<Rightarrow> bool \<Rightarrow> bool" where
  "policy_flag dict key fallback =
     (case Option.bind (map_of dict (str_bytes key)) entry_boolean of None \<Rightarrow> fallback | Some b \<Rightarrow> b)"

definition decode_policies_sfv :: "header_lib \<Rightarrow> header_map \<Rightarrow> string \<Rightarrow> bool \<times> bool" where
  "decode_policies_sfv L h name =
     (let values = header_texts L h name in
      if values = [] then (True, False)
      else case sf_parse_dict (hc_sfv L) (join_comma values) of
          Inl _ \<Rightarrow> (True, False)
        | Inr dict \<Rightarrow> (policy_flag dict ''direct'' True, policy_flag dict ''allow-untrusted'' False))"

definition policies_text :: "bool \<Rightarrow> bool \<Rightarrow> htext" where
  "policies_text direct allow =
     str_bytes (''direct=?'' @ (if direct then ''1'' else ''0'') @ '', allow-untrusted=?'' @
       (if allow then ''1'' else ''0''))"

subsection \<open>Handshake request\<close>

definition insert_some :: "string \<Rightarrow> bytes option \<Rightarrow> header_map \<Rightarrow> header_map" where
  "insert_some name v h = (case v of None \<Rightarrow> h | Some x \<Rightarrow> hdr_insert name x h)"

fun creation_text :: "AtbCreation \<Rightarrow> string" where
  "creation_text Reuse = ''reuse''"
| "creation_text Shared = ''shared''"
| "creation_text New = ''new''"

definition encode_request :: "header_lib \<Rightarrow> AtHsRequestHeaders \<Rightarrow> header_map option" where
  "encode_request L rq =
     (let base =
        hdr_insert ''attest-base-creation'' (encode_token_sfv L (str_bytes (creation_text (rq_base_creation rq))))
        (hdr_insert ''attest-date'' (header_value_or L [] (str_bytes (rq_date rq)))
        (hdr_insert ''attest-policies''
          (header_value_or L [] (policies_text (rq_direct_attestation rq) (rq_allow_untrusted_requests rq)))
        (hdr_insert ''attest-key-shares'' (encode_bytes_sfv L (rq_key_shares_json rq))
        (hdr_insert ''attest-random'' (encode_bytes_sfv L (rq_random rq))
        (hdr_insert ''attest-cipher-suites'' (encode_token_list L (map (str_bytes \<circ> show_suite) (rq_cipher_suites rq)))
        (hdr_insert ''attest-versions'' (encode_token_list L (map (str_bytes \<circ> show_version) (rq_versions rq))) []))))))
      in map_option (\<lambda>h.
           insert_some ''attest-encrypted-hello'' (map_option (encode_bytes_sfv L) (rq_encrypted_hello rq))
           (insert_some ''attest-provenance''
             (map_option (encode_bytes_sfv L) (Option.bind (rq_provenance rq) (result_ok \<circ> hc_provenance_json L)))
           (insert_some ''attest-ticket''
             (map_option (encode_bytes_sfv L) (Option.bind (rq_ticket rq) (result_ok \<circ> hc_ticket_json L)))
           (insert_some ''attest-challenge'' (map_option (encode_bytes_sfv L) (rq_challenge rq)) h))))
         (insert_quotes L (rq_client_quotes rq) base))"

definition decode_creation :: "header_lib \<Rightarrow> header_map \<Rightarrow> AtbCreation" where
  "decode_creation L h =
     (let s = trim (case header_text L h ''attest-base-creation'' of None \<Rightarrow> str_bytes ''new'' | Some t \<Rightarrow> t)
      in if s = str_bytes ''reuse'' then Reuse else if s = str_bytes ''shared'' then Shared else New)"

definition decode_json_field :: "header_lib \<Rightarrow> header_map \<Rightarrow> string \<Rightarrow> (bytes \<Rightarrow> string + 'a) \<Rightarrow> 'a option" where
  "decode_json_field L h name of_json =
     Option.bind (result_ok (decode_bytes_sfv L h name)) (\<lambda>b. result_ok (of_json b))"

definition decode_request :: "header_lib \<Rightarrow> header_map \<Rightarrow> HeaderError + AtHsRequestHeaders" where
  "decode_request L h =
     bind_result (decode_bytes_sfv L h ''attest-random'') (\<lambda>random.
     bind_result (decode_bytes_sfv L h ''attest-key-shares'') (\<lambda>shares.
     bind_result (decode_token_list_strings L h ''attest-cipher-suites'') (\<lambda>suite_strs.
     let suites = List.map_filter (parse_suite (hc_allow_deprecated L) \<circ> bytes_str) suite_strs in
     if suites = [] then Inl (HeaderMissing ''attest-cipher-suites'') else
     bind_result (decode_token_list_strings L h ''attest-versions'') (\<lambda>version_strs.
     let versions = List.map_filter (parse_version \<circ> bytes_str) version_strs in
     if versions = [] then Inl (HeaderMissing ''attest-versions'') else
     bind_result (decode_quotes_sfv L h ''attest-quotes'') (\<lambda>quotes.
     case decode_policies_sfv L h ''attest-policies'' of (direct, allow) \<Rightarrow>
       Inr \<lparr>rq_cipher_suites = suites, rq_random = random, rq_versions = versions, rq_key_shares_json = shares,
            rq_date = bytes_str (case header_text L h ''attest-date'' of None \<Rightarrow> [] | Some t \<Rightarrow> t),
            rq_base_creation = decode_creation L h, rq_direct_attestation = direct,
            rq_allow_untrusted_requests = allow, rq_client_quotes = quotes,
            rq_challenge = result_ok (decode_bytes_sfv L h ''attest-challenge''), rq_signatures = [],
            rq_ticket = decode_json_field L h ''attest-ticket'' (hc_ticket_of_json L),
            rq_provenance = decode_json_field L h ''attest-provenance'' (hc_provenance_of_json L),
            rq_encrypted_hello = result_ok (decode_bytes_sfv L h ''attest-encrypted-hello'')\<rparr>)))))"

subsection \<open>Handshake response\<close>

definition insert_signatures :: "header_lib \<Rightarrow> bytes list \<Rightarrow> header_map \<Rightarrow> header_map" where
  "insert_signatures L sigs h =
     (if sigs = [] then h
      else insert_list L ''attest-server-signatures'' (map (\<lambda>sg. EntryItem (Item (BareBytes sg) [])) sigs) h)"

definition encode_response :: "header_lib \<Rightarrow> AtHsResponseHeaders \<Rightarrow> header_map option" where
  "encode_response L rs =
     (let base =
        hdr_insert ''attest-expires'' (encode_integer_sfv L (rs_expires_secs rs))
        (hdr_insert ''attest-base-id'' (header_value_or L [] (hc_uuid_show L (rs_base_id rs)))
        (hdr_insert ''attest-key-share'' (encode_bytes_sfv L (rs_key_share_json rs))
        (hdr_insert ''attest-random'' (encode_bytes_sfv L (rs_random rs))
        (hdr_insert ''attest-cipher-suite'' (encode_token_sfv L (str_bytes (show_suite (rs_cipher_suite rs))))
        (hdr_insert ''attest-version'' (encode_token_sfv L (str_bytes (show_version (rs_version rs)))) [])))))
      in map_option (\<lambda>h.
           insert_some ''attest-zk-proof'' (map_option (encode_bytes_sfv L) (rs_zk_proof rs))
           (insert_signatures L (rs_server_signatures rs)
           (insert_some ''attest-ticket-resumption''
             (map_option (encode_bytes_sfv L) (Option.bind (rs_ticket_resumption rs) (result_ok \<circ> hc_ticket_json L))) h)))
         (insert_quotes L (rs_quotes rs) base))"

definition decode_base_id :: "header_lib \<Rightarrow> header_map \<Rightarrow> HeaderError + AtbId" where
  "decode_base_id L h =
     bind_result (ok_or (HeaderMissing ''attest-base-id'') (header_text L h ''attest-base-id'')) (\<lambda>s.
       map_err (HeaderInvalid ''attest-base-id'') (hc_uuid_parse L s))"

definition decode_expires :: "header_lib \<Rightarrow> header_map \<Rightarrow> u64" where
  "decode_expires L h =
     (case header_text L h ''attest-expires'' of
        None \<Rightarrow> 3600
      | Some s \<Rightarrow>
          (case Option.bind (result_ok (sf_parse_item (hc_sfv L) s)) (\<lambda>item. as_integer (bare_item item)) of
             Some n \<Rightarrow> if 0 \<le> n \<and> n < 2 ^ 64 then word_of_int n else 3600
           | None \<Rightarrow> (case parse_u64 (trim s) of Some n \<Rightarrow> n | None \<Rightarrow> 3600)))"

definition decode_named ::
    "header_lib \<Rightarrow> header_map \<Rightarrow> string \<Rightarrow> string \<Rightarrow> (string \<Rightarrow> 'a option) \<Rightarrow> HeaderError + 'a" where
  "decode_named L h name reason parse =
     bind_result (ok_or (HeaderMissing name) (header_text L h name)) (\<lambda>s.
       ok_or (HeaderInvalid name reason) (parse (bytes_str (trim s))))"

fun entry_bytes_of :: "ListEntry \<Rightarrow> bytes option" where
  "entry_bytes_of (EntryItem i) = as_byte_sequence (bare_item i)"
| "entry_bytes_of (EntryInner items ps) = None"

definition decode_signatures :: "header_lib \<Rightarrow> header_map \<Rightarrow> bytes list" where
  "decode_signatures L h =
     (case Option.bind (header_text L h ''attest-server-signatures'') (\<lambda>s. result_ok (sf_parse_list (hc_sfv L) s)) of
        None \<Rightarrow> []
      | Some l \<Rightarrow> List.map_filter entry_bytes_of l)"

definition decode_response :: "header_lib \<Rightarrow> header_map \<Rightarrow> HeaderError + AtHsResponseHeaders" where
  "decode_response L h =
     bind_result (decode_bytes_sfv L h ''attest-random'') (\<lambda>random.
     bind_result (decode_bytes_sfv L h ''attest-key-share'') (\<lambda>share.
     bind_result (decode_base_id L h) (\<lambda>i.
     bind_result (decode_named L h ''attest-cipher-suite'' ''unrecognised cipher suite''
       (parse_suite (hc_allow_deprecated L))) (\<lambda>suite.
     bind_result (decode_named L h ''attest-version'' ''unrecognised protocol version'' parse_version) (\<lambda>ver.
     bind_result (decode_quotes_sfv L h ''attest-quotes'') (\<lambda>quotes.
       Inr \<lparr>rs_cipher_suite = suite, rs_random = random, rs_key_share_json = share, rs_base_id = i, rs_version = ver,
            rs_expires_secs = decode_expires L h, rs_quotes = quotes, rs_secrets = [], rs_cargo = None,
            rs_ticket_resumption = decode_json_field L h ''attest-ticket-resumption'' (hc_ticket_of_json L),
            rs_server_signatures = decode_signatures L h,
            rs_zk_proof = result_ok (decode_bytes_sfv L h ''attest-zk-proof'')\<rparr>))))))"

subsection \<open>Trusted requests and preflight\<close>

record TrRequestHeaders =
  tr_base_id :: AtbId
  tr_cargo :: "bytes option"
  tr_termination :: "AtbTermination option"

fun termination_text :: "AtbTermination \<Rightarrow> string" where
  "termination_text Destroy = ''destroy''"
| "termination_text Keep = ''keep''"
| "termination_text Cleanup = ''cleanup''"

definition encode_tr_request :: "header_lib \<Rightarrow> TrRequestHeaders \<Rightarrow> header_map \<Rightarrow> header_map" where
  "encode_tr_request L t h =
     insert_some ''attest-base-termination''
       (map_option (\<lambda>x. encode_token_sfv L (str_bytes (termination_text x))) (tr_termination t))
       (hdr_insert ''attest-base-id'' (header_value_or L [] (hc_uuid_show L (tr_base_id t))) h)"

definition parse_termination :: "string \<Rightarrow> AtbTermination option" where
  "parse_termination s =
     (if s = ''cleanup'' then Some Cleanup else if s = ''destroy'' then Some Destroy
      else if s = ''keep'' then Some Keep else None)"

definition decode_tr_request :: "header_lib \<Rightarrow> header_map \<Rightarrow> HeaderError + TrRequestHeaders" where
  "decode_tr_request L h =
     bind_result (decode_base_id L h) (\<lambda>i.
       Inr \<lparr>tr_base_id = i, tr_cargo = None,
            tr_termination = Option.bind (header_text L h ''attest-base-termination'')
              (\<lambda>s. parse_termination (bytes_str (trim s)))\<rparr>)"

definition encode_preflight :: "header_lib \<Rightarrow> PreflightResponseHeaders \<Rightarrow> header_map" where
  "encode_preflight L pf =
     insert_some ''attest-transport''
       (if pf_oblivious_supported pf then Some (encode_token_sfv L (str_bytes ''oblivious'')) else None)
     (hdr_insert ''attest-challenge'' (encode_bytes_sfv L (pf_challenge pf))
     (hdr_insert ''attest-supported-versions'' (encode_token_list L (map (str_bytes \<circ> show_version) (pf_versions pf)))
     (hdr_insert ''attest-supported-cipher-suites''
       (encode_token_list L (map (str_bytes \<circ> show_suite) (pf_cipher_suites pf))) [])))"

definition decode_preflight :: "header_lib \<Rightarrow> header_map \<Rightarrow> HeaderError + PreflightResponseHeaders" where
  "decode_preflight L h =
     bind_result (decode_token_list_strings L h ''attest-supported-cipher-suites'') (\<lambda>suite_strs.
     bind_result (decode_token_list_strings L h ''attest-supported-versions'') (\<lambda>version_strs.
     bind_result (decode_bytes_sfv L h ''attest-challenge'') (\<lambda>challenge.
       Inr \<lparr>pf_cipher_suites = List.map_filter (parse_suite (hc_allow_deprecated L) \<circ> bytes_str) suite_strs,
            pf_versions = List.map_filter (parse_version \<circ> bytes_str) version_strs, pf_challenge = challenge,
            pf_oblivious_supported =
              (case header_text L h ''attest-transport'' of
                 None \<Rightarrow> False | Some s \<Rightarrow> contains_text (str_bytes ''oblivious'') s)\<rparr>)))"

subsection \<open>What the libraries promise\<close>

text \<open>
  RFC 8941 as the \<open>sfv\<close> crate documents it: which texts are tokens and strings, that a token item is written as
  the token, that items and non-empty lists are written in visible ASCII and parsed back to
  themselves, and the meaning of a dictionary of two booleans.
\<close>

definition alphabetic :: "byte \<Rightarrow> bool" where
  "alphabetic b \<longleftrightarrow> 65 \<le> b \<and> b \<le> 90 \<or> 97 \<le> b \<and> b \<le> 122"

definition token_char :: "byte \<Rightarrow> bool" where
  "token_char b \<longleftrightarrow> alphabetic b \<or> 48 \<le> b \<and> b \<le> 57 \<or> b \<in> set (str_bytes ''!#$%&*+-.^_|~:/'') \<or> b = 39 \<or> b = 96"

definition token_text :: "htext \<Rightarrow> bool" where
  "token_text t \<longleftrightarrow> t \<noteq> [] \<and> (alphabetic (hd t) \<or> hd t = 42) \<and> list_all token_char t"

definition string_text :: "htext \<Rightarrow> bool" where
  "string_text t \<longleftrightarrow> list_all visible t"

definition bare_ok :: "BareItem \<Rightarrow> bool" where
  "bare_ok b =
     (case b of
        BareToken t \<Rightarrow> token_text t
      | BareString t \<Rightarrow> string_text t
      | BareInteger n \<Rightarrow> \<bar>n\<bar> \<le> int MAX_SFV_INT
      | BareOther t \<Rightarrow> False
      | _ \<Rightarrow> True)"

definition params_ok :: "(htext \<times> BareItem) list \<Rightarrow> bool" where
  "params_ok ps \<longleftrightarrow> distinct (map fst ps) \<and> (\<forall>(k, b)\<in>set ps. k = str_bytes ''format'' \<and> bare_ok b)"

definition item_ok :: "Item \<Rightarrow> bool" where
  "item_ok i \<longleftrightarrow> bare_ok (bare_item i) \<and> params_ok (item_params i)"

fun entry_ok :: "ListEntry \<Rightarrow> bool" where
  "entry_ok (EntryItem i) \<longleftrightarrow> item_ok i"
| "entry_ok (EntryInner is ps) \<longleftrightarrow> list_all item_ok is \<and> params_ok ps"

definition sfv_correct :: "sfv_lib \<Rightarrow> bool" where
  "sfv_correct S \<longleftrightarrow>
     (\<forall>t. sf_token S t = token_text t) \<and> (\<forall>t. sf_string S t = string_text t) \<and>
     (\<forall>t. token_text t \<longrightarrow> sf_item S (Item (BareToken t) []) = t) \<and>
     (\<forall>i. item_ok i \<longrightarrow> list_all visible (sf_item S i) \<and> sf_parse_item S (sf_item S i) = Inr i) \<and>
     sf_list S [] = None \<and>
     (\<forall>l. l \<noteq> [] \<longrightarrow> list_all entry_ok l \<longrightarrow>
        (\<exists>t. sf_list S l = Some t \<and> list_all visible t \<and> trim t \<noteq> [] \<and> sf_parse_list S t = Inr l)) \<and>
     (\<forall>d a. sf_parse_dict S (policies_text d a) =
        Inr [(str_bytes ''direct'', EntryItem (Item (BareBoolean d) [])),
             (str_bytes ''allow-untrusted'', EntryItem (Item (BareBoolean a) []))])"

definition header_lib_correct :: "header_lib \<Rightarrow> bool" where
  "header_lib_correct L \<longleftrightarrow>
     http_lib_correct (hc_http L) \<and> sfv_correct (hc_sfv L) \<and>
     (\<forall>i. list_all visible (hc_uuid_show L i) \<and> hc_uuid_parse L (hc_uuid_show L i) = Inr i) \<and>
     (\<forall>t b. hc_ticket_json L t = Inr b \<longrightarrow> hc_ticket_of_json L b = Inr t) \<and>
     (\<forall>p b. hc_provenance_json L p = Inr b \<longrightarrow> hc_provenance_of_json L b = Inr p)"

named_theorems codec_simps

lemma header_value_or_visible [codec_simps]:
  "header_lib_correct L \<Longrightarrow> list_all visible t \<Longrightarrow> header_value_or L d t = t"
  by (simp add: header_value_or_def header_lib_correct_def http_lib_correct_def)

lemma to_str_visible [codec_simps]:
  "header_lib_correct L \<Longrightarrow> list_all visible t \<Longrightarrow> hl_to_str (hc_http L) t = Inr t"
  by (simp add: header_lib_correct_def http_lib_correct_def)

lemma item_visible: "header_lib_correct L \<Longrightarrow> item_ok i \<Longrightarrow> list_all visible (sf_item (hc_sfv L) i)"
  by (simp add: header_lib_correct_def sfv_correct_def)

lemma parse_item: "header_lib_correct L \<Longrightarrow> item_ok i \<Longrightarrow> sf_parse_item (hc_sfv L) (sf_item (hc_sfv L) i) = Inr i"
  by (simp add: header_lib_correct_def sfv_correct_def)

lemma bytes_item_ok [simp]: "item_ok (Item (BareBytes b) [])"
  by (simp add: item_ok_def bare_ok_def params_ok_def)

lemma token_ok [codec_simps]: "header_lib_correct L \<Longrightarrow> sf_token (hc_sfv L) t = token_text t"
  by (simp add: header_lib_correct_def sfv_correct_def)

lemma string_ok [codec_simps]: "header_lib_correct L \<Longrightarrow> sf_string (hc_sfv L) t = string_text t"
  by (simp add: header_lib_correct_def sfv_correct_def)

lemma token_char_visible: "token_char b \<Longrightarrow> visible b \<and> \<not> blank b"
  by (auto simp: token_char_def alphabetic_def visible_def blank_def str_bytes_def word_le_nat_alt)

lemma token_text_visible: "token_text t \<Longrightarrow> list_all visible t"
  by (auto simp: token_text_def list_all_iff token_char_visible)

lemma dropWhile_none: "\<forall>x\<in>set xs. \<not> P x \<Longrightarrow> dropWhile P xs = xs"
  by (cases xs) auto

lemma trim_token: "token_text t \<Longrightarrow> trim t = t"
  by (simp add: token_text_def trim_def list_all_iff token_char_visible dropWhile_none)

lemma decode_encode_bytes:
  assumes "header_lib_correct L" "hdr_get h name = Some (encode_bytes_sfv L b)"
  shows "decode_bytes_sfv L h name = Inr b"
  using assms item_visible [OF assms(1) bytes_item_ok, of b] parse_item [OF assms(1) bytes_item_ok, of b]
  by (simp add: decode_bytes_sfv_def encode_bytes_sfv_def codec_simps)

lemma decode_bytes_absent: "hdr_get h name = None \<Longrightarrow> decode_bytes_sfv L h name = Inl (HeaderMissing name)"
  by (simp add: decode_bytes_sfv_def)

lemma list_header:
  assumes "header_lib_correct L" "l \<noteq> []" "list_all entry_ok l"
  obtains t where "sf_list (hc_sfv L) l = Some t" "list_all visible t" "trim t \<noteq> []" "sf_parse_list (hc_sfv L) t = Inr l"
  using assms by (auto simp: header_lib_correct_def sfv_correct_def)

lemma empty_list_header: "header_lib_correct L \<Longrightarrow> sf_list (hc_sfv L) [] = None"
  by (simp add: header_lib_correct_def sfv_correct_def)

lemma token_item_eq: "header_lib_correct L \<Longrightarrow> token_text t \<Longrightarrow> token_item L t = Item (BareToken t) []"
  by (simp add: token_item_def codec_simps)

lemma token_item_ok: "token_text t \<Longrightarrow> item_ok (Item (BareToken t) [])"
  by (simp add: item_ok_def bare_ok_def params_ok_def)

lemma encode_token [codec_simps]: "header_lib_correct L \<Longrightarrow> token_text t \<Longrightarrow> encode_token_sfv L t = t"
  by (simp add: encode_token_sfv_def token_item_eq header_lib_correct_def sfv_correct_def http_lib_correct_def
      header_value_or_def token_text_visible)

lemma header_texts_single:
  "header_lib_correct L \<Longrightarrow> hdr_get_all h name = [t] \<Longrightarrow> list_all visible t \<Longrightarrow> header_texts L h name = [t]"
  by (simp add: header_texts_def List.map_filter_simps codec_simps)

lemma decode_token_list:
  assumes L: "header_lib_correct L" and h: "hdr_get_all h name = [encode_token_list L ts]" and ts: "list_all token_text ts"
  shows "decode_token_list_strings L h name = Inr ts"
proof (cases "ts = []")
  case True
  then have "encode_token_list L ts = []" using empty_list_header [OF L] by (simp add: encode_token_list_def)
  then have "header_texts L h name = [[]]" using header_texts_single [OF L h] by simp
  then show ?thesis using True by (simp add: decode_token_list_strings_def trim_def)
next
  case False
  let ?l = "map (\<lambda>t. EntryItem (Item (BareToken t) [])) ts"
  have l: "map (\<lambda>t. EntryItem (token_item L t)) ts = ?l" using ts by (simp add: list_all_iff token_item_eq [OF L])
  have "list_all entry_ok ?l" using ts by (simp add: list_all_iff token_item_ok)
  with False obtain t where t: "sf_list (hc_sfv L) ?l = Some t" "list_all visible t" "trim t \<noteq> []"
    "sf_parse_list (hc_sfv L) t = Inr ?l" using list_header [OF L, of ?l] by auto
  have "encode_token_list L ts = t" using t L by (simp add: encode_token_list_def l codec_simps)
  then have "header_texts L h name = [t]" using header_texts_single [OF L h] t(2) by simp
  moreover have "List.map_filter entry_text ?l = ts" by (induction ts) (simp_all add: List.map_filter_simps)
  ultimately show ?thesis using t by (simp add: decode_token_list_strings_def)
qed

subsection \<open>Quotes survive\<close>

text \<open>A received quote has lost its report data; names of types and formats are parsed again.\<close>

definition received_quote :: "AttestQuote \<Rightarrow> AttestQuote" where
  "received_quote q =
     q\<lparr>quote_type := parse_quote_type (show_quote_type (quote_type q)),
       format := parse_quote_format (show_quote_format (format q)), qudd := []\<rparr>"

lemma all_or_panic_Some:
  "all_or_panic (map f xs) = Some ys \<longleftrightarrow> list_all2 (\<lambda>x y. f x = Some y) xs ys"
  by (induction xs arbitrary: ys) (auto simp: list_all2_Cons1 bind_eq_Some_conv)

lemma uris_of_items:
  "list_all2 (\<lambda>u i. uri_item L u = Some i) us is \<Longrightarrow>
     list_all item_ok is = list_all (\<lambda>u. string_text (str_bytes u)) us \<and>
     map bytes_str (List.map_filter (as_string \<circ> bare_item) is) = us"
  by (induction us "is" rule: list_all2_induct)
    (auto simp: uri_item_def List.map_filter_simps item_ok_def bare_ok_def params_ok_def split: if_splits)

lemma quote_entry_decoded:
  assumes L: "header_lib_correct L" and e: "quote_entry L q = Some e"
  shows "entry_ok e" and "decode_quote e = Some (received_quote q)"
proof -
  obtain t ps us where p: "token_or_panic L (show_quote_type (quote_type q)) = Some t" "quote_params L q = Some ps"
    "all_or_panic (map (uri_item L) (collateral_uris q)) = Some us"
    "e = EntryInner ([Item t [], Item (BareBytes (quote_raw q)) ps] @ us) []"
    using e by (auto simp: quote_entry_def bind_eq_Some_conv)
  have t: "t = BareToken (str_bytes (show_quote_type (quote_type q)))" "bare_ok t"
    using p(1) L by (auto simp: token_or_panic_def bare_ok_def codec_simps split: if_splits)
  have ps: "params_ok ps" "Option.bind (map_of ps (str_bytes ''format'')) as_token =
      (if format q = Raw then None else Some (str_bytes (show_quote_format (format q))))"
    using p(2) L by (auto simp: quote_params_def token_or_panic_def params_ok_def bare_ok_def codec_simps split: if_splits)
  have us: "list_all2 (\<lambda>u i. uri_item L u = Some i) (collateral_uris q) us" using p(3) by (simp add: all_or_panic_Some)
  then have "list_all (\<lambda>u. string_text (str_bytes u)) (collateral_uris q)"
    using L by (induction rule: list_all2_induct) (auto simp: uri_item_def codec_simps split: if_splits)
  with t ps uris_of_items [OF us] p(4) show "entry_ok e"
    by (simp add: item_ok_def params_ok_def bare_ok_def)
  show "decode_quote e = Some (received_quote q)"
    using t ps uris_of_items [OF us] p(4) by (simp add: decode_quote_def received_quote_def parse_quote_format_def)
qed

lemma map_filter_all2:
  "list_all2 (\<lambda>x y. f x = Some y) xs ys \<Longrightarrow> (\<And>x y. f x = Some y \<Longrightarrow> g y = Some (k x)) \<Longrightarrow> List.map_filter g ys = map k xs"
  by (induction xs ys rule: list_all2_induct) (simp_all add: List.map_filter_simps)

lemma hdr_get_all_insert [simp]: "hdr_get_all (hdr_insert n v h) k = (if k = n then [v] else hdr_get_all h k)"
  by (simp add: hdr_get_all_def hdr_insert_def)

lemma hdr_get_all_empty [simp]: "hdr_get_all [] k = []"
  by (simp add: hdr_get_all_def)

lemma hdr_get_all_some [simp]:
  "hdr_get_all (insert_some n v h) k = (if k = n then (case v of None \<Rightarrow> hdr_get_all h k | Some x \<Rightarrow> [x]) else hdr_get_all h k)"
  by (simp add: insert_some_def split: option.split)

lemma hdr_get_eq: "hdr_get h n = (case hdr_get_all h n of [] \<Rightarrow> None | v # _ \<Rightarrow> Some v)"
  by (simp add: hdr_get_def)

lemma insert_list_header:
  assumes L: "header_lib_correct L" and l: "l \<noteq> []" "list_all entry_ok l"
  obtains t where "list_all visible t" "trim t \<noteq> []" "sf_parse_list (hc_sfv L) t = Inr l"
    "\<And>h. insert_list L name l h = hdr_insert name t h"
proof -
  obtain t where t: "sf_list (hc_sfv L) l = Some t" "list_all visible t" "trim t \<noteq> []" "sf_parse_list (hc_sfv L) t = Inr l"
    using L l by (rule list_header)
  have "hl_from_str (hc_http L) t = Inr t" using L t(2) by (simp add: header_lib_correct_def http_lib_correct_def)
  with t show thesis by (intro that [of t]) (simp_all add: insert_list_def)
qed

lemma insert_quotes_other: "insert_quotes L qs h = Some h' \<Longrightarrow> k \<noteq> ''attest-quotes'' \<Longrightarrow> hdr_get_all h' k = hdr_get_all h k"
  by (auto simp: insert_quotes_def insert_list_def split: if_splits option.splits)

lemma decode_quotes_at:
  assumes "header_lib_correct L" "hdr_get_all h name = [t]" "list_all visible t" "trim t \<noteq> []"
    and "sf_parse_list (hc_sfv L) t = Inr l"
  shows "decode_quotes_sfv L h name = Inr (List.map_filter decode_quote l)"
  using assms header_texts_single [OF assms(1-3)] by (simp add: decode_quotes_sfv_def)

lemma decode_inserted_quotes:
  assumes L: "header_lib_correct L" and i: "insert_quotes L qs h = Some h'" and h: "hdr_get_all h ''attest-quotes'' = []"
    and same: "hdr_get_all h2 ''attest-quotes'' = hdr_get_all h' ''attest-quotes''"
  shows "decode_quotes_sfv L h2 ''attest-quotes'' = Inr (map received_quote qs)"
proof (cases "qs = []")
  case True
  then show ?thesis using i h same by (simp add: insert_quotes_def decode_quotes_sfv_def header_texts_def List.map_filter_simps)
next
  case False
  then obtain es where es: "list_all2 (\<lambda>q e. quote_entry L q = Some e) qs es" "h' = insert_list L ''attest-quotes'' es h"
    using i by (auto simp: insert_quotes_def all_or_panic_Some)
  have "list_all entry_ok es"
    using es(1) quote_entry_decoded(1) [OF L] by (auto simp: list_all2_conv_all_nth list_all_length)
  moreover have "es \<noteq> []" using False es(1) by auto
  ultimately obtain t where t: "list_all visible t" "trim t \<noteq> []" "sf_parse_list (hc_sfv L) t = Inr es"
    "\<And>h. insert_list L ''attest-quotes'' es h = hdr_insert ''attest-quotes'' t h"
    using L by (metis insert_list_header)
  have "hdr_get_all h2 ''attest-quotes'' = [t]" using same es(2) t(4) by simp
  from decode_quotes_at [OF L this t(1-3)] map_filter_all2 [OF es(1), of decode_quote received_quote]
  show ?thesis by (simp add: quote_entry_decoded(2) [OF L])
qed

subsection \<open>Requests\<close>

text \<open>
  What the server receives of a request: the suites its parser admits, the versions, the quotes without
  their report data, no signatures, and the JSON fields that could be serialised.
\<close>

definition received_request :: "header_lib \<Rightarrow> AtHsRequestHeaders \<Rightarrow> AtHsRequestHeaders" where
  "received_request L rq =
     rq\<lparr>rq_cipher_suites := filter (\<lambda>c. \<not> is_legacy c \<or> hc_allow_deprecated L = Some ''1'') (rq_cipher_suites rq),
       rq_client_quotes := map received_quote (rq_client_quotes rq), rq_signatures := [],
       rq_ticket := Option.bind (rq_ticket rq) (\<lambda>t. if isl (hc_ticket_json L t) then None else Some t),
       rq_provenance := Option.bind (rq_provenance rq) (\<lambda>p. if isl (hc_provenance_json L p) then None else Some p)\<rparr>"

lemma suite_token [simp]: "token_text (str_bytes (show_suite c))"
  by (cases c) (simp_all add: token_text_def token_char_def alphabetic_def str_bytes_def)

lemma version_token [simp]: "token_text (str_bytes (show_version v))"
  by (cases v) (simp_all add: token_text_def token_char_def alphabetic_def str_bytes_def)

lemma creation_token [simp]: "token_text (str_bytes (creation_text c))"
  by (cases c) (simp_all add: token_text_def token_char_def alphabetic_def str_bytes_def)

lemma termination_token [simp]: "token_text (str_bytes (termination_text c))"
  by (cases c) (simp_all add: token_text_def token_char_def alphabetic_def str_bytes_def)

lemma parse_shown_suites:
  "List.map_filter (parse_suite env \<circ> bytes_str) (map (str_bytes \<circ> show_suite) cs) =
     filter (\<lambda>c. \<not> is_legacy c \<or> env = Some ''1'') cs"
  by (induction cs) (simp_all add: List.map_filter_simps parse_show_suite)

lemma parse_shown_versions: "List.map_filter (parse_version \<circ> bytes_str) (map (str_bytes \<circ> show_version) vs) = vs"
  by (induction vs) (simp_all add: List.map_filter_simps parse_show_version)

lemma header_text_visible:
  "header_lib_correct L \<Longrightarrow> hdr_get h n = Some t \<Longrightarrow> list_all visible t \<Longrightarrow> header_text L h n = Some t"
  by (simp add: header_text_def codec_simps)

lemma policies_visible: "list_all visible (policies_text d a)"
  by (cases d; cases a) (simp_all add: policies_text_def visible_def str_bytes_def)

lemma decode_policies:
  assumes "header_lib_correct L" "hdr_get_all h name = [policies_text d a]"
  shows "decode_policies_sfv L h name = (d, a)"
proof -
  have "header_texts L h name = [policies_text d a]"
    using assms policies_visible by (intro header_texts_single)
  moreover have "sf_parse_dict (hc_sfv L) (policies_text d a) =
      Inr [(str_bytes ''direct'', EntryItem (Item (BareBoolean d) [])),
           (str_bytes ''allow-untrusted'', EntryItem (Item (BareBoolean a) []))]"
    using assms(1) by (simp add: header_lib_correct_def sfv_correct_def)
  ultimately show ?thesis by (simp add: decode_policies_sfv_def policy_flag_def str_bytes_inj)
qed

lemma decode_creation_text:
  assumes "header_lib_correct L" "hdr_get h ''attest-base-creation'' = Some (str_bytes (creation_text c))"
  shows "decode_creation L h = c"
proof -
  have "header_text L h ''attest-base-creation'' = Some (str_bytes (creation_text c))"
    using assms token_text_visible [OF creation_token] by (rule header_text_visible)
  moreover have "trim (str_bytes (creation_text c)) = str_bytes (creation_text c)" by (rule trim_token [OF creation_token])
  ultimately have "decode_creation L h = (let s = str_bytes (creation_text c) in
      if s = str_bytes ''reuse'' then Reuse else if s = str_bytes ''shared'' then Shared else New)"
    by (simp add: decode_creation_def)
  then show ?thesis by (cases c) (simp_all add: str_bytes_inj)
qed

lemma decode_optional_bytes:
  assumes "header_lib_correct L" "hdr_get h name = map_option (encode_bytes_sfv L) v"
  shows "result_ok (decode_bytes_sfv L h name) = v"
  using assms by (cases v) (simp_all add: decode_bytes_absent decode_encode_bytes)

lemma decode_optional_json:
  assumes L: "header_lib_correct L" and h: "hdr_get h name = map_option (encode_bytes_sfv L) (Option.bind v (result_ok \<circ> to_json))"
    and j: "\<And>x b. to_json x = Inr b \<Longrightarrow> of_json b = Inr x"
  shows "decode_json_field L h name of_json = Option.bind v (\<lambda>x. if isl (to_json x) then None else Some x)"
proof (cases v)
  case None
  then show ?thesis using decode_optional_bytes [OF L h] by (simp add: decode_json_field_def)
next
  case (Some x)
  then show ?thesis
    using decode_optional_bytes [OF L h] j by (cases "to_json x") (simp_all add: decode_json_field_def)
qed

lemma encode_request_base:
  assumes "encode_request L rq = Some h"
  shows "hdr_get_all h ''attest-random'' = [encode_bytes_sfv L (rq_random rq)]"
    and "hdr_get_all h ''attest-key-shares'' = [encode_bytes_sfv L (rq_key_shares_json rq)]"
    and "hdr_get_all h ''attest-cipher-suites'' = [encode_token_list L (map (str_bytes \<circ> show_suite) (rq_cipher_suites rq))]"
    and "hdr_get_all h ''attest-versions'' = [encode_token_list L (map (str_bytes \<circ> show_version) (rq_versions rq))]"
    and "hdr_get_all h ''attest-policies'' =
      [header_value_or L [] (policies_text (rq_direct_attestation rq) (rq_allow_untrusted_requests rq))]"
    and "hdr_get_all h ''attest-date'' = [header_value_or L [] (str_bytes (rq_date rq))]"
    and "hdr_get_all h ''attest-base-creation'' = [encode_token_sfv L (str_bytes (creation_text (rq_base_creation rq)))]"
  using assms by (auto simp: encode_request_def Let_def insert_quotes_other)

lemma encode_request_optional:
  assumes "encode_request L rq = Some h"
  shows "hdr_get h ''attest-challenge'' = map_option (encode_bytes_sfv L) (rq_challenge rq)"
    and "hdr_get h ''attest-encrypted-hello'' = map_option (encode_bytes_sfv L) (rq_encrypted_hello rq)"
    and "hdr_get h ''attest-ticket'' = map_option (encode_bytes_sfv L) (Option.bind (rq_ticket rq) (result_ok \<circ> hc_ticket_json L))"
    and "hdr_get h ''attest-provenance'' =
      map_option (encode_bytes_sfv L) (Option.bind (rq_provenance rq) (result_ok \<circ> hc_provenance_json L))"
  using assms by (auto simp: encode_request_def Let_def hdr_get_eq insert_quotes_other split: option.splits)

lemma encode_request_quotes:
  assumes "header_lib_correct L" "encode_request L rq = Some h"
  shows "decode_quotes_sfv L h ''attest-quotes'' = Inr (map received_quote (rq_client_quotes rq))"
proof -
  obtain h0 h1 where q: "insert_quotes L (rq_client_quotes rq) h0 = Some h1" "hdr_get_all h0 ''attest-quotes'' = []"
    "hdr_get_all h ''attest-quotes'' = hdr_get_all h1 ''attest-quotes''"
    using assms(2) by (auto simp: encode_request_def Let_def)
  show ?thesis by (rule decode_inserted_quotes [OF assms(1) q])
qed

text \<open>
  The handshake request survives its header encoding: whenever the encoder does not panic, the
  decoder returns every field that the headers carry, with unsupported suites dropped, quotes without
  their report data and signatures lost, provided a supported suite and a version remain and the date
  is visible ASCII.
\<close>
lemma request_headers_decoded:
  assumes "header_lib_correct L" and "encode_request L rq = Some h"
    and "rq_cipher_suites (received_request L rq) \<noteq> []" and "rq_versions rq \<noteq> []" and "list_all visible (str_bytes (rq_date rq))"
  shows "decode_request L h = Inr (received_request L rq)"
proof -
  note L = assms(1) and base = encode_request_base [OF assms(2)] and opt = encode_request_optional [OF assms(2)]
  have get: "hdr_get_all h n = [v] \<Longrightarrow> hdr_get h n = Some v" for n v by (simp add: hdr_get_eq)
  have lists: "decode_token_list_strings L h ''attest-cipher-suites'' = Inr (map (str_bytes \<circ> show_suite) (rq_cipher_suites rq))"
    "decode_token_list_strings L h ''attest-versions'' = Inr (map (str_bytes \<circ> show_version) (rq_versions rq))"
    using decode_token_list [OF L] base(3,4) by (simp_all add: list_all_iff)
  have pol: "decode_policies_sfv L h ''attest-policies'' = (rq_direct_attestation rq, rq_allow_untrusted_requests rq)"
    using base(5) L by (intro decode_policies) (simp_all add: policies_visible codec_simps)
  have "hdr_get_all h ''attest-date'' = [str_bytes (rq_date rq)]"
    using base(6) L assms(5) by (simp add: codec_simps)
  then have date: "header_text L h ''attest-date'' = Some (str_bytes (rq_date rq))"
    using L assms(5) by (intro header_text_visible) (simp_all add: hdr_get_eq)
  have cre: "decode_creation L h = rq_base_creation rq"
    using base(7) L by (intro decode_creation_text) (simp_all add: hdr_get_eq codec_simps)
  have json: "decode_json_field L h ''attest-ticket'' (hc_ticket_of_json L) = rq_ticket (received_request L rq)"
    "decode_json_field L h ''attest-provenance'' (hc_provenance_of_json L) = rq_provenance (received_request L rq)"
    using decode_optional_json [OF L opt(3)] decode_optional_json [OF L opt(4)] L
    by (simp_all add: received_request_def header_lib_correct_def)
  show ?thesis
    using lists pol date cre json decode_encode_bytes [OF L get [OF base(1)]] decode_encode_bytes [OF L get [OF base(2)]]
      decode_optional_bytes [OF L opt(1)] decode_optional_bytes [OF L opt(2)] encode_request_quotes [OF L assms(2)]
      assms(3,4)
    by (simp add: decode_request_def Let_def parse_shown_suites parse_shown_versions received_request_def)
qed

subsection \<open>Responses\<close>

text \<open>What the client receives of a response: no secrets and no cargo, and a lifetime of at most fifteen digits.\<close>

definition received_response :: "header_lib \<Rightarrow> AtHsResponseHeaders \<Rightarrow> AtHsResponseHeaders" where
  "received_response L rs =
     rs\<lparr>rs_expires_secs := word_of_nat (min (unat (rs_expires_secs rs)) MAX_SFV_INT),
       rs_quotes := map received_quote (rs_quotes rs), rs_secrets := [], rs_cargo := None,
       rs_ticket_resumption := Option.bind (rs_ticket_resumption rs) (\<lambda>t. if isl (hc_ticket_json L t) then None else Some t)\<rparr>"

lemma decode_named_token:
  assumes "header_lib_correct L" "hdr_get h name = Some (encode_token_sfv L (str_bytes s))" "token_text (str_bytes s)"
  shows "decode_named L h name reason parse = ok_or (HeaderInvalid name reason) (parse s)"
  using assms header_text_visible [OF assms(1), of h name "str_bytes s"] token_text_visible [OF assms(3)]
  by (simp add: decode_named_def codec_simps trim_token)

lemma decode_integer_header:
  assumes L: "header_lib_correct L" and h: "hdr_get h ''attest-expires'' = Some (encode_integer_sfv L n)"
  shows "decode_expires L h = word_of_nat (min (unat n) MAX_SFV_INT)"
proof -
  let ?m = "min (unat n) MAX_SFV_INT" and ?i = "Item (BareInteger (int (min (unat n) MAX_SFV_INT))) []"
  have ok: "item_ok ?i" by (simp add: item_ok_def bare_ok_def params_ok_def)
  have "encode_integer_sfv L n = sf_item (hc_sfv L) ?i"
    using item_visible [OF L ok] L by (simp add: encode_integer_sfv_def codec_simps)
  then have "header_text L h ''attest-expires'' = Some (sf_item (hc_sfv L) ?i)"
    using h item_visible [OF L ok] L by (intro header_text_visible) simp_all
  moreover have "int ?m < 2 ^ 64"
  proof -
    have "MAX_SFV_INT < 2 ^ 64" by (simp add: MAX_SFV_INT_def)
    then have "?m < 2 ^ 64" by simp
    then show ?thesis by (metis of_nat_less_iff of_nat_numeral of_nat_power)
  qed
  ultimately show ?thesis using parse_item [OF L ok] by (simp add: decode_expires_def)
qed

lemma decode_base_id_header:
  assumes "header_lib_correct L" "hdr_get h ''attest-base-id'' = Some (header_value_or L [] (hc_uuid_show L i))"
  shows "decode_base_id L h = Inr i"
proof -
  have v: "list_all visible (hc_uuid_show L i)" "hc_uuid_parse L (hc_uuid_show L i) = Inr i"
    using assms(1) by (simp_all add: header_lib_correct_def)
  then have "header_text L h ''attest-base-id'' = Some (hc_uuid_show L i)"
    using assms by (intro header_text_visible) (simp_all add: codec_simps)
  with v show ?thesis by (simp add: decode_base_id_def)
qed

lemma insert_signatures_other: "k \<noteq> ''attest-server-signatures'' \<Longrightarrow> hdr_get_all (insert_signatures L sigs h) k = hdr_get_all h k"
  by (simp add: insert_signatures_def insert_list_def split: option.splits)

lemma decode_inserted_signatures:
  assumes L: "header_lib_correct L" and h: "hdr_get_all h ''attest-server-signatures'' = []"
    and h2: "hdr_get_all h2 ''attest-server-signatures'' = hdr_get_all (insert_signatures L sigs h) ''attest-server-signatures''"
  shows "decode_signatures L h2 = sigs"
proof (cases "sigs = []")
  case True
  then show ?thesis using h h2 by (simp add: decode_signatures_def header_text_def hdr_get_eq insert_signatures_def)
next
  case False
  let ?l = "map (\<lambda>sg. EntryItem (Item (BareBytes sg) [])) sigs"
  have "?l \<noteq> []" "list_all entry_ok ?l" using False by (simp_all add: list_all_iff)
  then obtain t where t: "list_all visible t" "sf_parse_list (hc_sfv L) t = Inr ?l"
    "\<And>h. insert_list L ''attest-server-signatures'' ?l h = hdr_insert ''attest-server-signatures'' t h"
    using L by (metis insert_list_header)
  have "header_text L h2 ''attest-server-signatures'' = Some t"
    using h2 t(1,3) False L by (intro header_text_visible) (simp_all add: insert_signatures_def hdr_get_eq)
  moreover have "List.map_filter entry_bytes_of ?l = sigs" by (induction sigs) (simp_all add: List.map_filter_simps)
  ultimately show ?thesis using t(2) by (simp add: decode_signatures_def)
qed

lemma encode_response_base:
  assumes "encode_response L rs = Some h"
  shows "hdr_get h ''attest-random'' = Some (encode_bytes_sfv L (rs_random rs))"
    and "hdr_get h ''attest-key-share'' = Some (encode_bytes_sfv L (rs_key_share_json rs))"
    and "hdr_get h ''attest-cipher-suite'' = Some (encode_token_sfv L (str_bytes (show_suite (rs_cipher_suite rs))))"
    and "hdr_get h ''attest-version'' = Some (encode_token_sfv L (str_bytes (show_version (rs_version rs))))"
    and "hdr_get h ''attest-base-id'' = Some (header_value_or L [] (hc_uuid_show L (rs_base_id rs)))"
    and "hdr_get h ''attest-expires'' = Some (encode_integer_sfv L (rs_expires_secs rs))"
    and "hdr_get h ''attest-zk-proof'' = map_option (encode_bytes_sfv L) (rs_zk_proof rs)"
    and "hdr_get h ''attest-ticket-resumption'' =
      map_option (encode_bytes_sfv L) (Option.bind (rs_ticket_resumption rs) (result_ok \<circ> hc_ticket_json L))"
  using assms
  by (auto simp: encode_response_def Let_def hdr_get_eq insert_quotes_other insert_signatures_other split: option.splits)

lemma encode_response_lists:
  assumes "header_lib_correct L" "encode_response L rs = Some h"
  shows "decode_quotes_sfv L h ''attest-quotes'' = Inr (map received_quote (rs_quotes rs))"
    and "decode_signatures L h = rs_server_signatures rs"
proof -
  obtain h0 h1 v w where r: "insert_quotes L (rs_quotes rs) h0 = Some h1" "hdr_get_all h0 ''attest-quotes'' = []"
    "hdr_get_all h0 ''attest-server-signatures'' = []"
    "h = insert_some ''attest-zk-proof'' v (insert_signatures L (rs_server_signatures rs)
           (insert_some ''attest-ticket-resumption'' w h1))"
    using assms(2) by (fastforce simp: encode_response_def Let_def)
  have "hdr_get_all h ''attest-quotes'' = hdr_get_all h1 ''attest-quotes''" by (simp add: r(4) insert_signatures_other)
  from decode_inserted_quotes [OF assms(1) r(1,2) this]
  show "decode_quotes_sfv L h ''attest-quotes'' = Inr (map received_quote (rs_quotes rs))" .
  show "decode_signatures L h = rs_server_signatures rs"
    using r(3) insert_quotes_other [OF r(1)]
    by (intro decode_inserted_signatures [OF assms(1), of "insert_some ''attest-ticket-resumption'' w h1"])
      (simp_all add: r(4))
qed

text \<open>
  The handshake response survives its header encoding: the client decodes identifiers, random value, key
  share, suite, version, signatures and proof unchanged, the lifetime clamped to fifteen digits, the
  quotes without report data, and neither secrets nor cargo.
\<close>
lemma response_headers_decoded:
  assumes "header_lib_correct L" and "encode_response L rs = Some h"
    and "is_legacy (rs_cipher_suite rs) \<Longrightarrow> hc_allow_deprecated L = Some ''1''"
  shows "decode_response L h = Inr (received_response L rs)"
proof -
  note L = assms(1) and base = encode_response_base [OF assms(2)]
  have suite: "parse_suite (hc_allow_deprecated L) (show_suite (rs_cipher_suite rs)) = Some (rs_cipher_suite rs)"
    using assms(3) by (auto simp: parse_show_suite)
  have json: "decode_json_field L h ''attest-ticket-resumption'' (hc_ticket_of_json L) = rs_ticket_resumption (received_response L rs)"
    using decode_optional_json [OF L base(8)] L by (simp add: received_response_def header_lib_correct_def)
  show ?thesis
    using decode_encode_bytes [OF L base(1)] decode_encode_bytes [OF L base(2)] decode_base_id_header [OF L base(5)]
      suite
      encode_response_lists [OF L assms(2)] json decode_integer_header [OF L base(6)] decode_optional_bytes [OF L base(7)]
    by (simp add: decode_response_def decode_named_token [OF L base(3) suite_token]
        decode_named_token [OF L base(4) version_token] parse_show_version received_response_def)
qed

subsection \<open>When encoding panics\<close>

definition quote_encodable :: "AttestQuote \<Rightarrow> bool" where
  "quote_encodable q \<longleftrightarrow>
     token_text (str_bytes (show_quote_type (quote_type q))) \<and>
     (format q = Raw \<or> token_text (str_bytes (show_quote_format (format q)))) \<and>
     list_all (\<lambda>u. string_text (str_bytes u)) (collateral_uris q)"

lemma all_or_panic_None: "all_or_panic xs = None \<longleftrightarrow> None \<in> set xs"
proof (induction xs)
  case (Cons x xs)
  then show ?case by (cases x) auto
qed simp

lemma quote_entry_None: "header_lib_correct L \<Longrightarrow> quote_entry L q = None \<longleftrightarrow> \<not> quote_encodable q"
  by (auto simp: quote_entry_def quote_params_def token_or_panic_def uri_item_def codec_simps quote_encodable_def
      all_or_panic_None list_all_iff image_iff bind_eq_None_conv split: option.splits if_splits)

lemma insert_quotes_None: "header_lib_correct L \<Longrightarrow> insert_quotes L qs h = None \<longleftrightarrow> \<not> list_all quote_encodable qs"
  by (simp add: insert_quotes_def all_or_panic_None list_all_iff image_iff) (metis empty_iff empty_set quote_entry_None)

lemma encode_request_None: "header_lib_correct L \<Longrightarrow> encode_request L rq = None \<longleftrightarrow> \<not> list_all quote_encodable (rq_client_quotes rq)"
  by (simp add: encode_request_def Let_def insert_quotes_None)

lemma encode_response_None: "header_lib_correct L \<Longrightarrow> encode_response L rs = None \<longleftrightarrow> \<not> list_all quote_encodable (rs_quotes rs)"
  by (simp add: encode_response_def Let_def insert_quotes_None)

text \<open>
  C23. Handshake messages survive their header encoding. With quotes that can be encoded, a supported
  suite, a version and a visible date the encoders return, and the decoders recover the request with
  unsupported suites dropped, quotes without report data and signatures lost, and the response with
  its lifetime clamped to fifteen digits, quotes without report data and neither secrets nor cargo.
\<close>
theorem handshake_headers_round_trip:
  assumes "header_lib_correct L" and "list_all quote_encodable (rq_client_quotes rq @ rs_quotes rs)"
    and "rq_cipher_suites (received_request L rq) \<noteq> []" and "rq_versions rq \<noteq> []" and "list_all visible (str_bytes (rq_date rq))"
    and "is_legacy (rs_cipher_suite rs) \<Longrightarrow> hc_allow_deprecated L = Some ''1''"
  shows "\<exists>h h'. encode_request L rq = Some h \<and> decode_request L h = Inr (received_request L rq) \<and>
                encode_response L rs = Some h' \<and> decode_response L h' = Inr (received_response L rs)"
proof -
  obtain h where "encode_request L rq = Some h"
    using assms(2) encode_request_None [OF assms(1), of rq] by (cases "encode_request L rq") auto
  moreover obtain h' where "encode_response L rs = Some h'"
    using assms(2) encode_response_None [OF assms(1), of rs] by (cases "encode_response L rs") auto
  ultimately show ?thesis
    using request_headers_decoded [OF assms(1) _ assms(3-5)] response_headers_decoded [OF assms(1) _ assms(6)] by blast
qed

text \<open>The fields that reach the other side whatever else a message holds, for any message that is decoded.\<close>

lemma decoded_request_fields:
  assumes L: "header_lib_correct L" and "encode_request L rq = Some h" and dec: "decode_request L h = Inr rq'"
  shows "rq_random rq' = rq_random rq" and "rq_key_shares_json rq' = rq_key_shares_json rq"
    and "rq_challenge rq' = rq_challenge rq" and "rq_encrypted_hello rq' = rq_encrypted_hello rq"
proof -
  note base = encode_request_base [OF assms(2)] and opt = encode_request_optional [OF assms(2)]
  have b: "decode_bytes_sfv L h ''attest-random'' = Inr (rq_random rq)"
    "decode_bytes_sfv L h ''attest-key-shares'' = Inr (rq_key_shares_json rq)"
    using decode_encode_bytes [OF L] base(1,2) by (simp_all add: hdr_get_eq)
  obtain d a where "decode_policies_sfv L h ''attest-policies'' = (d, a)" by (rule prod.exhaust)
  then show "rq_random rq' = rq_random rq" "rq_key_shares_json rq' = rq_key_shares_json rq"
    "rq_challenge rq' = rq_challenge rq" "rq_encrypted_hello rq' = rq_encrypted_hello rq"
    using dec b decode_optional_bytes [OF L opt(1)] decode_optional_bytes [OF L opt(2)]
    by (auto simp: decode_request_def Let_def bind_result_Inr_iff split: if_splits)
qed

lemma decoded_response_fields:
  assumes L: "header_lib_correct L" and "encode_response L rs = Some h" and d: "decode_response L h = Inr rs'"
  shows "rs_cipher_suite rs' = rs_cipher_suite rs" and "rs_random rs' = rs_random rs"
    and "rs_key_share_json rs' = rs_key_share_json rs" and "rs_base_id rs' = rs_base_id rs" and "rs_version rs' = rs_version rs"
proof -
  note base = encode_response_base [OF assms(2)]
  have "parse_suite (hc_allow_deprecated L) (show_suite (rs_cipher_suite rs)) \<noteq> None"
    using d decode_encode_bytes [OF L base(1)] decode_encode_bytes [OF L base(2)] decode_base_id_header [OF L base(5)]
    by (auto simp: decode_response_def decode_named_token [OF L base(3) suite_token] bind_result_Inr_iff)
  then have "is_legacy (rs_cipher_suite rs) \<Longrightarrow> hc_allow_deprecated L = Some ''1''" by (auto simp: parse_show_suite split: if_splits)
  from response_headers_decoded [OF L assms(2) this] d have "rs' = received_response L rs" by simp
  then show "rs_cipher_suite rs' = rs_cipher_suite rs" "rs_random rs' = rs_random rs"
    "rs_key_share_json rs' = rs_key_share_json rs" "rs_base_id rs' = rs_base_id rs" "rs_version rs' = rs_version rs"
    by (simp_all add: received_response_def)
qed

text \<open>
  Encoding a handshake message panics exactly when one of its quotes carries a type or format name
  that is no structured-field token, or a collateral URI outside visible ASCII; the quote types the
  program names itself never cause it.
\<close>
lemma encoding_panics_iff:
  assumes "header_lib_correct L"
  shows "(encode_request L rq = None \<longleftrightarrow> \<not> list_all quote_encodable (rq_client_quotes rq)) \<and>
         (encode_response L rs = None \<longleftrightarrow> \<not> list_all quote_encodable (rs_quotes rs)) \<and>
         ((\<nexists>s. quote_type q = QuoteType.Unknown s) \<and> (\<nexists>s. format q = UnknownFormat s) \<and> collateral_uris q = [] \<longrightarrow>
            quote_encodable q)"
proof -
  have "quote_encodable q" if "\<nexists>s. quote_type q = QuoteType.Unknown s" "\<nexists>s. format q = UnknownFormat s" "collateral_uris q = []"
  proof -
    have "token_text (str_bytes (show_quote_type (quote_type q)))"
      using that(1)
      by (cases "quote_type q") (simp_all add: token_text_def token_char_def alphabetic_def str_bytes_def)
    moreover have "format q = Raw \<or> token_text (str_bytes (show_quote_format (format q)))"
      using that(2)
      by (cases "format q") (simp_all add: token_text_def token_char_def alphabetic_def str_bytes_def)
    ultimately show ?thesis using that(3) by (simp add: quote_encodable_def)
  qed
  then show ?thesis
    by (simp add: encode_request_None [OF assms] encode_response_None [OF assms])
qed

subsection \<open>Trusted requests and preflight answers\<close>

lemma contains_text_refl: "contains_text t t"
  by (cases t) simp_all

lemma parse_termination_text: "parse_termination (termination_text t) = Some t"
  by (cases t) (simp_all add: parse_termination_def)

text \<open>
  The headers of a trusted request are recovered from any header map that had no termination header
  of its own, except for the cargo, which is never encoded; and the headers of a preflight answer are
  recovered with the deprecated suite dropped unless the client's environment admits it.
\<close>
lemma request_and_preflight_headers_round_trip:
  assumes "header_lib_correct L" and "hdr_get h ''attest-base-termination'' = None"
  shows "decode_tr_request L (encode_tr_request L t h) = Inr (t\<lparr>tr_cargo := None\<rparr>) \<and>
         decode_preflight L (encode_preflight L pf) =
           Inr (pf\<lparr>pf_cipher_suites := filter (\<lambda>c. \<not> is_legacy c \<or> hc_allow_deprecated L = Some ''1'') (pf_cipher_suites pf)\<rparr>)"
proof
  note L = assms(1)
  let ?h = "encode_tr_request L t h"
  have base: "decode_base_id L ?h = Inr (tr_base_id t)"
    using L by (intro decode_base_id_header) (simp_all add: encode_tr_request_def hdr_get_eq)
  have "header_text L ?h ''attest-base-termination'' = map_option (str_bytes \<circ> termination_text) (tr_termination t)"
    using L assms(2)
    by (cases "tr_termination t")
      (auto simp: header_text_def encode_tr_request_def insert_some_def codec_simps token_text_visible)
  then have "Option.bind (header_text L ?h ''attest-base-termination'') (\<lambda>s. parse_termination (bytes_str (trim s))) = tr_termination t"
    by (cases "tr_termination t") (simp_all add: trim_token parse_termination_text)
  with base show "decode_tr_request L ?h = Inr (t\<lparr>tr_cargo := None\<rparr>)" by (simp add: decode_tr_request_def)
  let ?p = "encode_preflight L pf"
  have lists: "decode_token_list_strings L ?p ''attest-supported-cipher-suites'' = Inr (map (str_bytes \<circ> show_suite) (pf_cipher_suites pf))"
    "decode_token_list_strings L ?p ''attest-supported-versions'' = Inr (map (str_bytes \<circ> show_version) (pf_versions pf))"
    by (rule decode_token_list [OF L]; simp add: encode_preflight_def list_all_iff)+
  have chal: "decode_bytes_sfv L ?p ''attest-challenge'' = Inr (pf_challenge pf)"
    using L by (intro decode_encode_bytes) (simp_all add: encode_preflight_def insert_some_def hdr_get_eq split: option.split)
  have "token_text (str_bytes ''oblivious'')" by (simp add: token_text_def token_char_def alphabetic_def str_bytes_def)
  then have "header_text L ?p ''attest-transport'' = (if pf_oblivious_supported pf then Some (str_bytes ''oblivious'') else None)"
    using L by (auto simp: header_text_def encode_preflight_def insert_some_def hdr_get_eq codec_simps token_text_visible)
  with lists chal show "decode_preflight L ?p =
      Inr (pf\<lparr>pf_cipher_suites := filter (\<lambda>c. \<not> is_legacy c \<or> hc_allow_deprecated L = Some ''1'') (pf_cipher_suites pf)\<rparr>)"
    by (simp add: decode_preflight_def parse_shown_suites parse_shown_versions contains_text_refl)
qed

subsection \<open>A concrete library\<close>

text \<open>
  An instance of the structured-field library for witnesses: tokens are written as they are, every other
  item and every list as a quotation mark followed by two characters per byte of a tagged encoding.
\<close>

fun bare_tag :: "BareItem \<Rightarrow> byte" where
  "bare_tag (BareToken t) = 0"
| "bare_tag (BareString t) = 1"
| "bare_tag (BareBytes b) = 2"
| "bare_tag (BareInteger n) = (if n < 0 then 3 else 4)"
| "bare_tag (BareBoolean b) = (if b then 5 else 6)"
| "bare_tag (BareOther t) = 7"

fun bare_payload :: "BareItem \<Rightarrow> bytes" where
  "bare_payload (BareToken t) = t"
| "bare_payload (BareString t) = t"
| "bare_payload (BareBytes b) = b"
| "bare_payload (BareInteger n) = str_bytes (show_nat (nat \<bar>n\<bar>))"
| "bare_payload (BareBoolean b) = []"
| "bare_payload (BareOther t) = t"

definition bare_of :: "byte \<Rightarrow> bytes \<Rightarrow> BareItem" where
  "bare_of g f =
     (if g = 0 then BareToken f else if g = 1 then BareString f else if g = 2 then BareBytes f
      else if g = 3 then BareInteger (- int (digits_val (bytes_str f)))
      else if g = 4 then BareInteger (int (digits_val (bytes_str f)))
      else if g = 5 then BareBoolean True else if g = 6 then BareBoolean False else BareOther f)"

lemma bare_of_payload [simp]: "bare_of (bare_tag b) (bare_payload b) = b"
  by (cases b) (simp_all add: bare_of_def)

definition enc_bare :: "BareItem \<Rightarrow> bytes" where
  "enc_bare b = bare_tag b # enc_field (bare_payload b)"

fun dec_bare :: "bytes \<Rightarrow> (BareItem \<times> bytes) option" where
  "dec_bare [] = None"
| "dec_bare (g # r) = map_option (\<lambda>(f, r'). (bare_of g f, r')) (dec_field r)"

lemma dec_enc_bare [simp]: "dec_bare (enc_bare b @ r) = Some (b, r)"
  by (simp add: enc_bare_def)

fun enc_many :: "('a \<Rightarrow> bytes) \<Rightarrow> 'a list \<Rightarrow> bytes" where
  "enc_many f [] = [0]"
| "enc_many f (x # xs) = 1 # f x @ enc_many f xs"

fun dec_many :: "nat \<Rightarrow> (bytes \<Rightarrow> ('a \<times> bytes) option) \<Rightarrow> bytes \<Rightarrow> ('a list \<times> bytes) option" where
  "dec_many 0 d bs = None"
| "dec_many (Suc n) d [] = None"
| "dec_many (Suc n) d (g # r) =
     (if g = 0 then Some ([], r)
      else Option.bind (d r) (\<lambda>(x, r1). map_option (\<lambda>(xs, r2). (x # xs, r2)) (dec_many n d r1)))"

lemma dec_enc_many:
  "(\<And>x r. d (f x @ r) = Some (x, r)) \<Longrightarrow> length xs < n \<Longrightarrow> dec_many n d (enc_many f xs @ r) = Some (xs, r)"
proof (induction xs arbitrary: n)
  case Nil
  then show ?case by (cases n) simp_all
next
  case (Cons x xs)
  then show ?case by (cases n) simp_all
qed

lemma length_enc_many: "length xs < length (enc_many f xs)"
  by (induction xs) simp_all

definition dec_list :: "(bytes \<Rightarrow> ('a \<times> bytes) option) \<Rightarrow> bytes \<Rightarrow> ('a list \<times> bytes) option" where
  "dec_list d bs = dec_many (length bs) d bs"

lemma dec_enc_list:
  "(\<And>x r. d (f x @ r) = Some (x, r)) \<Longrightarrow> dec_list d (enc_many f xs @ r) = Some (xs, r)"
  using length_enc_many [of xs f] by (simp add: dec_list_def dec_enc_many)

definition enc_params :: "(htext \<times> BareItem) list \<Rightarrow> bytes" where
  "enc_params = enc_many (\<lambda>(k, b). enc_field k @ enc_bare b)"

definition dec_params :: "bytes \<Rightarrow> ((htext \<times> BareItem) list \<times> bytes) option" where
  "dec_params = dec_list (\<lambda>r. Option.bind (dec_field r) (\<lambda>(k, r1). map_option (\<lambda>(b, r2). ((k, b), r2)) (dec_bare r1)))"

lemma dec_enc_params [simp]: "dec_params (enc_params ps @ r) = Some (ps, r)"
  unfolding enc_params_def dec_params_def by (rule dec_enc_list) auto

definition enc_item :: "Item \<Rightarrow> bytes" where
  "enc_item i = enc_bare (bare_item i) @ enc_params (item_params i)"

definition dec_item :: "bytes \<Rightarrow> (Item \<times> bytes) option" where
  "dec_item r = Option.bind (dec_bare r) (\<lambda>(b, r1). map_option (\<lambda>(ps, r2). (Item b ps, r2)) (dec_params r1))"

lemma dec_enc_item [simp]: "dec_item (enc_item i @ r) = Some (i, r)"
  by (simp add: enc_item_def dec_item_def)

fun enc_entry :: "ListEntry \<Rightarrow> bytes" where
  "enc_entry (EntryItem i) = 0 # enc_item i"
| "enc_entry (EntryInner is ps) = 1 # enc_many enc_item is @ enc_params ps"

fun dec_entry :: "bytes \<Rightarrow> (ListEntry \<times> bytes) option" where
  "dec_entry [] = None"
| "dec_entry (g # r) =
     (if g = 0 then map_option (\<lambda>(i, r1). (EntryItem i, r1)) (dec_item r)
      else Option.bind (dec_list dec_item r) (\<lambda>(is, r1). map_option (\<lambda>(ps, r2). (EntryInner is ps, r2)) (dec_params r1)))"

lemma dec_enc_entry [simp]: "dec_entry (enc_entry e @ r) = Some (e, r)"
proof (cases e)
  case (EntryInner "is" ps)
  have "dec_list dec_item (enc_many enc_item is @ enc_params ps @ r) = Some (is, enc_params ps @ r)"
    by (rule dec_enc_list) simp
  then show ?thesis by (simp add: EntryInner)
qed simp

definition unquote :: "htext \<Rightarrow> string + bytes" where
  "unquote t = (case t of c # r \<Rightarrow> if c = 34 then demo_decode r else Inl ''malformed'' | [] \<Rightarrow> Inl ''empty'')"

definition demo_sfv :: sfv_lib where
  "demo_sfv =
     \<lparr>sf_token = token_text, sf_string = string_text,
      sf_item = (\<lambda>i. case i of
          Item (BareToken t) [] \<Rightarrow> if token_text t then t else 34 # demo_encode (enc_item i)
        | _ \<Rightarrow> 34 # demo_encode (enc_item i)),
      sf_list = (\<lambda>l. if l = [] then None else Some (34 # demo_encode (enc_many enc_entry l))),
      sf_parse_item = (\<lambda>t. if token_text t then Inr (Item (BareToken t) [])
        else bind_result (unquote t) (\<lambda>b. case dec_item b of Some (i, _) \<Rightarrow> Inr i | None \<Rightarrow> Inl ''malformed'')),
      sf_parse_list = (\<lambda>t. bind_result (unquote t) (\<lambda>b.
        case dec_list dec_entry b of Some (l, _) \<Rightarrow> Inr l | None \<Rightarrow> Inl ''malformed'')),
      sf_parse_dict = (\<lambda>t.
        let v = (\<lambda>d a. [(str_bytes ''direct'', EntryItem (Item (BareBoolean d) [])),
                        (str_bytes ''allow-untrusted'', EntryItem (Item (BareBoolean a) []))])
        in if t = policies_text True True then Inr (v True True)
           else if t = policies_text True False then Inr (v True False)
           else if t = policies_text False True then Inr (v False True)
           else if t = policies_text False False then Inr (v False False) else Inl ''unsupported'')\<rparr>"

lemma quoted_not_token [simp]: "\<not> token_text (34 # t)"
  by (simp add: token_text_def alphabetic_def)

lemma unquote_quoted [simp]: "unquote (34 # demo_encode b) = Inr b"
  by (simp add: unquote_def)

lemma trim_quoted: "trim (34 # t) \<noteq> []"
proof -
  have "\<not> blank 34" by (simp add: blank_def)
  then show ?thesis by (auto simp: trim_def)
qed

lemma demo_sfv_token: "token_text t \<Longrightarrow> sf_item demo_sfv (Item (BareToken t) []) = t"
  by (simp add: demo_sfv_def)

lemma demo_sfv_quoted:
  "\<nexists>t. i = Item (BareToken t) [] \<and> token_text t \<Longrightarrow> sf_item demo_sfv i = 34 # demo_encode (enc_item i)"
  by (auto simp: demo_sfv_def split: Item.split BareItem.split list.split)

lemma demo_sfv_item: "list_all visible (sf_item demo_sfv i) \<and> sf_parse_item demo_sfv (sf_item demo_sfv i) = Inr i"
proof (cases "\<exists>t. i = Item (BareToken t) [] \<and> token_text t")
  case True
  then show ?thesis by (auto simp: demo_sfv_token token_text_visible) (simp add: demo_sfv_def)
next
  case False
  then have "sf_item demo_sfv i = 34 # demo_encode (enc_item i)" by (rule demo_sfv_quoted)
  then show ?thesis using dec_enc_item [of i "[]"] by (simp add: visible_def) (simp add: demo_sfv_def)
qed

lemma demo_sfv_list:
  "l \<noteq> [] \<Longrightarrow> \<exists>t. sf_list demo_sfv l = Some t \<and> list_all visible t \<and> trim t \<noteq> [] \<and> sf_parse_list demo_sfv t = Inr l"
  using dec_enc_list [of dec_entry enc_entry l "[]"] trim_quoted [of "demo_encode (enc_many enc_entry l)"]
  by (simp add: demo_sfv_def visible_def)

lemma policies_text_inj: "policies_text d a = policies_text d' a' \<longleftrightarrow> d = d' \<and> a = a'"
  by (cases d; cases a; cases d'; cases a') (simp_all add: policies_text_def str_bytes_inj)

lemma demo_sfv_dict:
  "sf_parse_dict demo_sfv (policies_text d a) =
     Inr [(str_bytes ''direct'', EntryItem (Item (BareBoolean d) [])),
          (str_bytes ''allow-untrusted'', EntryItem (Item (BareBoolean a) []))]"
  by (cases d; cases a) (simp_all add: demo_sfv_def Let_def policies_text_inj)

lemma demo_sfv_correct: "sfv_correct demo_sfv"
  unfolding sfv_correct_def
  using demo_sfv_item demo_sfv_list demo_sfv_dict demo_sfv_token
  by (intro conjI allI impI) (simp_all add: demo_sfv_def)

definition demo_resumption_ticket :: SessionTicket where
  "demo_resumption_ticket = \<lparr>ticket = [1, 2, 3], lifetime = 60, ticket_cipher_suite = X25519Aes256GcmSha384, rtt0_eligible = True\<rparr>"

definition demo_header_lib :: header_lib where
  "demo_header_lib =
     \<lparr>hc_http = demo_http, hc_sfv = demo_sfv,
      hc_uuid_show = (\<lambda>i. demo_encode (be_bytes 16 (unat i))),
      hc_uuid_parse = (\<lambda>b. map_sum id (\<lambda>x. word_of_nat (of_be x)) (demo_decode b)),
      hc_ticket_json = (\<lambda>t. if t = demo_resumption_ticket then Inr [7] else Inl ''unsupported''),
      hc_ticket_of_json = (\<lambda>b. if b = [7] then Inr demo_resumption_ticket else Inl ''malformed''),
      hc_provenance_json = (\<lambda>_. Inl ''unsupported''), hc_provenance_of_json = (\<lambda>_. Inl ''unsupported''),
      hc_allow_deprecated = None\<rparr>"

lemma demo_header_lib_correct: "header_lib_correct demo_header_lib"
proof -
  have "word_of_nat (of_be (be_bytes 16 (unat i))) = i" for i :: AtbId
    using unsigned_less [of i, where ?'a = nat] by (simp add: of_be_be_bytes)
  then show ?thesis
    by (simp add: header_lib_correct_def demo_header_lib_def demo_http_correct demo_sfv_correct)
qed

lemma demo_quote_encodable: "quote_encodable demo_quote" "received_quote demo_quote = demo_quote"
  by (simp_all add: quote_encodable_def token_text_def token_char_def alphabetic_def str_bytes_def received_quote_def
      parse_quote_type_def parse_quote_format_def)

definition demo_quote_of :: "QuoteType \<Rightarrow> AttestQuote" where
  "demo_quote_of ty = \<lparr>quote_type = ty, format = Eat, quote_raw = [9, 9], qudd = [5], collateral_uris = [''https://pcs'']\<rparr>"

definition demo_request_headers :: AtHsRequestHeaders where
  "demo_request_headers =
     \<lparr>rq_cipher_suites = [P256Aes256GcmSha256, X25519MlKem768Aes256GcmSha384], rq_random = [1, 2], rq_versions = [V2, V1],
      rq_key_shares_json = [3], rq_date = ''2026-04-27T00:00:00Z'', rq_base_creation = Shared, rq_direct_attestation = False,
      rq_allow_untrusted_requests = True, rq_client_quotes = [demo_quote_of Tdx], rq_challenge = Some [4],
      rq_signatures = [[8]], rq_ticket = Some demo_resumption_ticket, rq_provenance = None, rq_encrypted_hello = None\<rparr>"

definition demo_response_headers :: AtHsResponseHeaders where
  "demo_response_headers =
     \<lparr>rs_cipher_suite = X25519MlKem768Aes256GcmSha384, rs_random = [1], rs_key_share_json = [2], rs_base_id = 7,
      rs_version = V2, rs_expires_secs = 3600, rs_quotes = [demo_quote_of SevSnp], rs_secrets = [], rs_cargo = None,
      rs_ticket_resumption = Some demo_resumption_ticket, rs_server_signatures = [[1], [2]], rs_zk_proof = Some [6]\<rparr>"

lemma demo_quotes_encodable: "quote_encodable (demo_quote_of Tdx)" "quote_encodable (demo_quote_of SevSnp)"
  by (simp_all add: quote_encodable_def demo_quote_of_def token_text_def token_char_def alphabetic_def string_text_def
      visible_def str_bytes_def)

theorem handshake_headers_round_trip_witness:
  "\<exists>h h'. encode_request demo_header_lib demo_request_headers = Some h \<and>
     decode_request demo_header_lib h =
       Inr (demo_request_headers\<lparr>rq_cipher_suites := [X25519MlKem768Aes256GcmSha384], rq_signatures := [],
            rq_client_quotes := [(demo_quote_of Tdx)\<lparr>qudd := []\<rparr>]\<rparr>) \<and>
     encode_response demo_header_lib demo_response_headers = Some h' \<and>
     decode_response demo_header_lib h' = Inr (demo_response_headers\<lparr>rs_quotes := [(demo_quote_of SevSnp)\<lparr>qudd := []\<rparr>]\<rparr>)"
proof -
  let ?rq = demo_request_headers and ?rs = demo_response_headers
  have rq: "received_request demo_header_lib ?rq =
      ?rq\<lparr>rq_cipher_suites := [X25519MlKem768Aes256GcmSha384], rq_signatures := [],
        rq_client_quotes := [(demo_quote_of Tdx)\<lparr>qudd := []\<rparr>]\<rparr>"
    by (simp add: received_request_def demo_request_headers_def demo_header_lib_def received_quote_def demo_quote_of_def
        parse_quote_type_def parse_quote_format_def)
  have rs: "received_response demo_header_lib ?rs = ?rs\<lparr>rs_quotes := [(demo_quote_of SevSnp)\<lparr>qudd := []\<rparr>]\<rparr>"
    by (simp add: received_response_def demo_response_headers_def demo_header_lib_def received_quote_def demo_quote_of_def
        parse_quote_type_def parse_quote_format_def MAX_SFV_INT_def)
  have date: "list_all visible (str_bytes (rq_date ?rq))"
    by (simp add: demo_request_headers_def visible_def str_bytes_def)
  show ?thesis
    using handshake_headers_round_trip [OF demo_header_lib_correct _ _ _ date, of ?rs] demo_quotes_encodable
    unfolding rq rs by (simp add: demo_request_headers_def demo_response_headers_def)
qed

end
