(* ===== verification/Client_Handshake.thy ===== *)
theory Client_Handshake
  imports Attest_Codec Session Aead_Nonces
begin

section \<open>The client side of the handshake\<close>

text \<open>
  \<open>openhttpa-client/src/client.rs\<close>: \<open>attest_handshake\<close> and the functions it calls, and the verification
  wrapper of \<open>openhttpa-crypto/src/pqc.rs\<close>. The transport is a parameter that takes the encoded headers of a
  request and answers with a status, a body and headers. Error messages are kept as data.

  The lemmas show when the client accepts a server, and that its binding of quotes and transcript is
  the one the server computes.
\<close>

subsection \<open>Signature verification\<close>

datatype PqcError = SigKeyGen string | Verify

record sig_lib =
  sig_new :: "string option"
  sig_public_key_ok :: "bytes \<Rightarrow> bool"
  sig_signature_ok :: "bytes \<Rightarrow> bool"
  sig_verify :: "bytes \<Rightarrow> bytes \<Rightarrow> bytes \<Rightarrow> bool"

definition mldsa_verify :: "sig_lib \<Rightarrow> bytes \<Rightarrow> bytes \<Rightarrow> bytes \<Rightarrow> PqcError + unit" where
  "mldsa_verify G pk msg sg =
     (case sig_new G of
        Some e \<Rightarrow> Inl (SigKeyGen e)
      | None \<Rightarrow>
          if \<not> sig_public_key_ok G pk then Inl Verify
          else if \<not> sig_signature_ok G sg then Inl Verify
          else if sig_verify G pk msg sg then Inr () else Inl Verify)"

subsection \<open>Client state and environment\<close>

datatype client_msg =
    Msg string
  | PreflightFailed string
  | PreflightStatus nat
  | PreflightBody string
  | PreflightHeaders HeaderError
  | ServerStatus nat bytes
  | ResponseHeaders HeaderError
  | BadServerShare string
  | KemMsg KeyExchangeError
  | DerivationMsg HkdfError
  | SignatureMsg PqcError
  | InvalidUri string string
  | InvalidMethod string string
  | InvalidBaseId string
  | SessionMsg SessionError
  | KeySetup AeadError
  | EncryptionFailed AeadError
  | DecryptionFailed AeadError
  | HmacSetup string
  | AhlError HeaderError
  | ServerError nat

datatype ClientError =
    ClientHandshake client_msg
  | ClientTransport client_msg
  | ClientAttestation client_msg
  | ClientNotAttested
  | ClientSerialisation client_msg
  | ClientKeyExchange client_msg
  | ClientPanic

record http_reply =
  reply_status :: nat
  reply_body :: "string + bytes"
  reply_headers :: header_map

record AttestTransport =
  send_options :: "string + http_reply"
  send_attest :: "header_map \<Rightarrow> string + http_reply"

record OpenHttpaClient =
  cl_tee_provider :: "bytes \<Rightarrow> string + AttestQuote list"
  cl_verifier :: "AttestQuote \<Rightarrow> bytes \<Rightarrow> string + VerificationResult"
  cl_transport :: "AttestTransport option"
  cl_strict_attestation :: bool
  cl_require_preflight :: bool
  cl_server_identity_pub :: "bytes option"

record client_env =
  ce_kem :: kem_lib
  ce_hkdf :: hkdf_lib
  ce_hashes :: hash_lib
  ce_sig :: sig_lib
  ce_json :: share_codec
  ce_headers :: header_lib
  ce_x_seed :: bytes
  ce_kem_seed :: bytes
  ce_rng :: "bytes option"
  ce_date :: string
  ce_now :: time

definition is_success :: "nat \<Rightarrow> bool" where
  "is_success status \<longleftrightarrow> 200 \<le> status \<and> status < 300"

definition perform_preflight :: "client_env \<Rightarrow> OpenHttpaClient \<Rightarrow> ClientError + bytes" where
  "perform_preflight C cl =
     bind_result (ok_or (ClientTransport (Msg ''No transport'')) (cl_transport cl)) (\<lambda>t.
     bind_result (map_err (\<lambda>e. ClientHandshake (PreflightFailed e)) (send_options t)) (\<lambda>resp.
     if \<not> is_success (reply_status resp) then Inl (ClientHandshake (PreflightStatus (reply_status resp)))
     else bind_result (map_err (\<lambda>e. ClientHandshake (PreflightBody e)) (reply_body resp)) (\<lambda>_.
          bind_result (map_err (\<lambda>e. ClientHandshake (PreflightHeaders e)) (decode_preflight (ce_headers C) (reply_headers resp))) (\<lambda>h.
          Inr (pf_challenge h)))))"

subsection \<open>Bindings\<close>

definition challenge_bytes :: "bytes option \<Rightarrow> bytes" where
  "challenge_bytes challenge =
     (case challenge of
        None \<Rightarrow> replicate 48 0
      | Some c \<Rightarrow> (let n = min (length c) 48 in take n c @ drop n (replicate 48 0)))"

definition client_quote_report_data :: "hash_lib \<Rightarrow> bytes \<Rightarrow> ClientKeyShare \<Rightarrow> bytes option \<Rightarrow> bytes" where
  "client_quote_report_data D crandom share challenge =
     sha512 D (str_bytes ''openhttpa hs client'' @
       sha384 D (lp64 crandom @ lp64 (challenge_bytes challenge) @
                 lp64 (c_ecdhe_public share) @ lp64 (c_mlkem_public share)))"

definition generate_client_quote ::
    "client_env \<Rightarrow> OpenHttpaClient \<Rightarrow> bytes \<Rightarrow> ClientKeyShare \<Rightarrow> bytes option \<Rightarrow> ClientError + AttestQuote list" where
  "generate_client_quote C cl crandom share challenge =
     (case cl_tee_provider cl (client_quote_report_data (ce_hashes C) crandom share challenge) of
        Inr qs \<Rightarrow> Inr qs
      | Inl e \<Rightarrow> if cl_strict_attestation cl then Inl (ClientAttestation (Msg e)) else Inr [])"

definition server_random_of :: "bytes \<Rightarrow> bytes" where
  "server_random_of r = (if 32 \<le> length r then take 32 r else replicate 32 0)"

definition client_transcript_hash ::
    "hash_lib \<Rightarrow> bytes \<Rightarrow> ClientKeyShare \<Rightarrow> bytes option \<Rightarrow> AtHsResponseHeaders \<Rightarrow> ServerKeyShare \<Rightarrow> bytes" where
  "client_transcript_hash D crandom share challenge rs sshare =
     sha384 D
      (lp64 crandom @ lp64 (challenge_bytes challenge) @
       lp64 (c_ecdhe_public share) @ lp64 (c_mlkem_public share) @
       lp64 (server_random_of (rs_random rs)) @ lp64 (s_ecdhe_public sshare) @
       lp64 (s_mlkem_ciphertext sshare) @ lp64 (s_mlkem_public sshare) @
       be16 (suite_numeric_id (rs_cipher_suite rs)) @ [version_numeric_id (rs_version rs)])"

subsection \<open>Checking the server\<close>

definition verify_pqc_server_sig ::
    "client_env \<Rightarrow> OpenHttpaClient \<Rightarrow> AtHsResponseHeaders \<Rightarrow> bytes \<Rightarrow> ClientError + unit" where
  "verify_pqc_server_sig C cl rs th =
     (case cl_server_identity_pub cl of
        None \<Rightarrow> Inr ()
      | Some pk \<Rightarrow>
          (case rs_server_signatures rs of
             [] \<Rightarrow> Inl (ClientAttestation
                     (Msg ''server did not provide PQC signature but identity key is pinned''))
           | sg # _ \<Rightarrow> map_err (\<lambda>e. ClientAttestation (SignatureMsg e)) (mldsa_verify (ce_sig C) pk th sg)))"

fun verify_each_server_quote ::
    "OpenHttpaClient \<Rightarrow> bytes \<Rightarrow> VerificationResult option \<Rightarrow> AttestQuote list \<Rightarrow>
     ClientError + VerificationResult option" where
  "verify_each_server_quote cl rd acc [] = Inr acc"
| "verify_each_server_quote cl rd acc (q # qs) =
     bind_result (map_err (\<lambda>e. ClientAttestation (Msg e)) (cl_verifier cl (q\<lparr>qudd := rd\<rparr>) rd)) (\<lambda>res.
       verify_each_server_quote cl rd (Some (add_secondary acc res)) qs)"

definition verify_server_quotes ::
    "client_env \<Rightarrow> OpenHttpaClient \<Rightarrow> AtHsResponseHeaders \<Rightarrow> bytes \<Rightarrow> ClientError + VerificationResult option" where
  "verify_server_quotes C cl rs th =
     (if rs_quotes rs = [] then
        (if cl_strict_attestation cl
         then Inl (ClientAttestation (Msg ''server attestation required but missing'')) else Inr None)
      else verify_each_server_quote cl (sha512 (ce_hashes C) (str_bytes ''openhttpa hs server'' @ th))
             None (rs_quotes rs))"

subsection \<open>The handshake\<close>

definition attest_request :: "client_env \<Rightarrow> bytes \<Rightarrow> bytes \<Rightarrow> AttestQuote list \<Rightarrow> bytes option \<Rightarrow> AtHsRequestHeaders" where
  "attest_request C crandom share_json quotes challenge =
     \<lparr>rq_cipher_suites = [X25519MlKem768Aes256GcmSha384], rq_random = crandom, rq_versions = [V2],
      rq_key_shares_json = share_json, rq_date = ce_date C, rq_base_creation = New,
      rq_direct_attestation = True, rq_allow_untrusted_requests = False, rq_client_quotes = quotes,
      rq_challenge = challenge, rq_signatures = [], rq_ticket = None, rq_provenance = None,
      rq_encrypted_hello = None\<rparr>"

definition send_attest_request ::
    "client_env \<Rightarrow> OpenHttpaClient \<Rightarrow> bytes \<Rightarrow> bytes \<Rightarrow> AttestQuote list \<Rightarrow> bytes option \<Rightarrow> ClientError + http_reply" where
  "send_attest_request C cl crandom share_json quotes challenge =
     bind_result (ok_or (ClientTransport (Msg ''No transport'')) (cl_transport cl)) (\<lambda>t.
     bind_result (ok_or ClientPanic (encode_request (ce_headers C) (attest_request C crandom share_json quotes challenge))) (\<lambda>h.
       map_err (\<lambda>e. ClientHandshake (Msg e)) (send_attest t h)))"

definition client_or_panic :: "('e + 'a) option \<Rightarrow> ('e \<Rightarrow> ClientError) \<Rightarrow> ClientError + 'a" where
  "client_or_panic r f = (case r of None \<Rightarrow> Inl ClientPanic | Some q \<Rightarrow> map_err f q)"

definition process_response ::
    "client_env \<Rightarrow> OpenHttpaClient \<Rightarrow> HybridKemPair \<Rightarrow> bytes \<Rightarrow> ClientKeyShare \<Rightarrow> bytes option \<Rightarrow>
     http_reply \<Rightarrow> ClientError + AttestSession" where
  "process_response C cl pair crandom share challenge resp =
     (if \<not> is_success (reply_status resp)
      then Inl (ClientHandshake (ServerStatus (reply_status resp)
                  (case reply_body resp of Inl _ \<Rightarrow> [] | Inr b \<Rightarrow> b)))
      else
       bind_result (map_err (\<lambda>e. ClientHandshake (ResponseHeaders e)) (decode_response (ce_headers C) (reply_headers resp))) (\<lambda>rs.
       bind_result (map_err (\<lambda>e. ClientHandshake (BadServerShare e))
         (server_share_of_json (ce_json C) (rs_key_share_json rs))) (\<lambda>sshare.
       let th = client_transcript_hash (ce_hashes C) crandom share challenge rs sshare in
       bind_result (verify_pqc_server_sig C cl rs th) (\<lambda>_.
       bind_result (verify_server_quotes C cl rs th) (\<lambda>attested.
       bind_result (client_or_panic (client_combine (ce_kem C) pair
           \<lparr>ecdhe_public = s_ecdhe_public sshare, mlkem_public = []\<rparr> (s_mlkem_ciphertext sshare))
           (\<lambda>e. ClientKeyExchange (KemMsg e))) (\<lambda>ss.
       bind_result (client_or_panic (derive (ce_hkdf C) ss th) (\<lambda>e. ClientHandshake (DerivationMsg e))) (\<lambda>ks.
       bind_result (ok_or ClientPanic (instant_add (ce_now C) (rs_expires_secs rs))) (\<lambda>exp_at.
         Inr (session_new (rs_base_id rs) X25519MlKem768Aes256GcmSha384 V2 ks exp_at
                replay_strategy_default attested)))))))))"

definition client_key_share_of :: "HybridKemPair \<Rightarrow> ClientKeyShare" where
  "client_key_share_of pair =
     \<lparr>c_ecdhe_public = ecdhe_public (public_key_share pair),
      c_mlkem_public = mlkem_public (public_key_share pair), c_signature_alg = Some MlDsa65\<rparr>"

definition attest_handshake :: "client_env \<Rightarrow> OpenHttpaClient \<Rightarrow> ClientError + AttestSession" where
  "attest_handshake C cl =
     bind_result (if cl_require_preflight cl then map_sum id Some (perform_preflight C cl) else Inr None) (\<lambda>challenge.
     bind_result (map_err (\<lambda>e. ClientHandshake (KemMsg e))
       (hybrid_generate (ce_kem C) (ce_x_seed C) (ce_kem_seed C))) (\<lambda>pair.
     bind_result (ok_or (ClientHandshake (Msg ''RNG failure'')) (ce_rng C)) (\<lambda>crandom.
     let share = client_key_share_of pair in
     bind_result (map_err (\<lambda>e. ClientSerialisation (Msg e)) (client_share_json (ce_json C) share)) (\<lambda>share_json.
     bind_result (generate_client_quote C cl crandom share challenge) (\<lambda>quotes.
     bind_result (send_attest_request C cl crandom share_json quotes challenge) (\<lambda>resp.
       process_response C cl pair crandom share challenge resp))))))"

subsection \<open>What the client checked\<close>

lemma client_or_panic_Inr [simp]: "client_or_panic r f = Inr y \<longleftrightarrow> r = Some (Inr y)"
  by (cases r) (auto simp: client_or_panic_def)

text \<open>
  \<open>client_sends C cl challenge pair crandom h\<close>: in this environment the client has obtained the challenge,
  generated the key pair and the random value, and put the headers \<open>h\<close> on the wire. Each of the four is
  determined by the environment and the client.
\<close>

definition client_sends ::
    "client_env \<Rightarrow> OpenHttpaClient \<Rightarrow> bytes option \<Rightarrow> HybridKemPair \<Rightarrow> bytes \<Rightarrow> header_map \<Rightarrow> bool" where
  "client_sends C cl challenge pair crandom h \<longleftrightarrow>
     (if cl_require_preflight cl then \<exists>c. perform_preflight C cl = Inr c \<and> challenge = Some c else challenge = None) \<and>
     hybrid_generate (ce_kem C) (ce_x_seed C) (ce_kem_seed C) = Inr pair \<and> ce_rng C = Some crandom \<and>
     (\<exists>j quotes. client_share_json (ce_json C) (client_key_share_of pair) = Inr j \<and>
        generate_client_quote C cl crandom (client_key_share_of pair) challenge = Inr quotes \<and>
        encode_request (ce_headers C) (attest_request C crandom j quotes challenge) = Some h)"

lemma client_sends_unique:
  assumes "client_sends C cl challenge pair crandom h" "client_sends C cl challenge' pair' crandom' h'"
  shows "challenge' = challenge \<and> pair' = pair \<and> crandom' = crandom \<and> h' = h"
proof -
  have "challenge' = challenge" "pair' = pair" "crandom' = crandom"
    using assms by (auto simp: client_sends_def split: if_splits)
  moreover from this assms have "h' = h" by (auto simp: client_sends_def)
  ultimately show ?thesis by simp
qed

lemma attest_handshake_Inr:
  assumes "attest_handshake C cl = Inr s"
  obtains t challenge pair crandom h resp where
    "cl_transport cl = Some t" "client_sends C cl challenge pair crandom h" "send_attest t h = Inr resp"
    "process_response C cl pair crandom (client_key_share_of pair) challenge resp = Inr s"
proof -
  have opt: "map_sum id Some r = Inr y \<longleftrightarrow> (\<exists>c. r = Inr c \<and> y = Some c)" for r :: "ClientError + bytes" and y
    by (cases r) auto
  from assms obtain challenge pair crandom j quotes resp where st:
    "(if cl_require_preflight cl then map_sum id Some (perform_preflight C cl) else Inr None) = Inr challenge"
    "hybrid_generate (ce_kem C) (ce_x_seed C) (ce_kem_seed C) = Inr pair" "ce_rng C = Some crandom"
    "client_share_json (ce_json C) (client_key_share_of pair) = Inr j"
    "generate_client_quote C cl crandom (client_key_share_of pair) challenge = Inr quotes"
    "send_attest_request C cl crandom j quotes challenge = Inr resp"
    "process_response C cl pair crandom (client_key_share_of pair) challenge resp = Inr s"
    unfolding attest_handshake_def Let_def bind_result_Inr_iff map_err_Inr_iff ok_or_Inr_iff by blast
  from st(6) obtain t h where t: "cl_transport cl = Some t" "send_attest t h = Inr resp"
    "encode_request (ce_headers C) (attest_request C crandom j quotes challenge) = Some h"
    by (auto simp: send_attest_request_def bind_result_Inr_iff)
  have "if cl_require_preflight cl then \<exists>c. perform_preflight C cl = Inr c \<and> challenge = Some c else challenge = None"
    using st(1) by (auto simp: opt split: if_splits)
  with st(2-5) t(3) have "client_sends C cl challenge pair crandom h" unfolding client_sends_def by blast
  with t(1) show thesis using t(2) st(7) by (rule that)
qed

lemma process_response_Inr:
  assumes "process_response C cl pair crandom share challenge resp = Inr s"
  obtains rs sshare ss where
    "is_success (reply_status resp)" "decode_response (ce_headers C) (reply_headers resp) = Inr rs"
    "server_share_of_json (ce_json C) (rs_key_share_json rs) = Inr sshare"
    "verify_pqc_server_sig C cl rs (client_transcript_hash (ce_hashes C) crandom share challenge rs sshare) = Inr ()"
    "verify_server_quotes C cl rs (client_transcript_hash (ce_hashes C) crandom share challenge rs sshare) =
       Inr (attestation_result s)"
    "client_combine (ce_kem C) pair \<lparr>ecdhe_public = s_ecdhe_public sshare, mlkem_public = []\<rparr>
       (s_mlkem_ciphertext sshare) = Some (Inr ss)"
    "derive (ce_hkdf C) ss (client_transcript_hash (ce_hashes C) crandom share challenge rs sshare) =
       Some (Inr (keys s))"
    "session_id s = rs_base_id rs" "phase s = Attested" "replay_strategy s = replay_strategy_default"
proof -
  from assms have ok: "is_success (reply_status resp)"
    by (cases "is_success (reply_status resp)") (simp_all add: process_response_def)
  show thesis
    using assms ok unfolding process_response_def Let_def
    by (clarsimp simp: bind_result_Inr_iff) (rule that; simp add: session_new_def)
qed

lemma verify_each_server_quote_all:
  "verify_each_server_quote cl rd acc qs = Inr r \<Longrightarrow>
     \<exists>rs. list_all2 (\<lambda>q res. cl_verifier cl (q\<lparr>qudd := rd\<rparr>) rd = Inr res) qs rs \<and>
       r = fold (\<lambda>res a. Some (add_secondary a res)) rs acc"
proof (induction qs arbitrary: acc)
  case (Cons q qs)
  then obtain res where res: "cl_verifier cl (q\<lparr>qudd := rd\<rparr>) rd = Inr res"
    "verify_each_server_quote cl rd (Some (add_secondary acc res)) qs = Inr r"
    by (auto simp: bind_result_Inr_iff)
  from Cons.IH [OF res(2)] obtain rs where
    "list_all2 (\<lambda>q res. cl_verifier cl (q\<lparr>qudd := rd\<rparr>) rd = Inr res) qs rs"
    "r = fold (\<lambda>res a. Some (add_secondary a res)) rs (Some (add_secondary acc res))" by blast
  with res(1) show ?case by (intro exI [of _ "res # rs"]) simp
qed simp

lemma verify_server_quotes_Inr:
  assumes "verify_server_quotes C cl rs th = Inr r"
  shows "(rs_quotes rs = [] \<and> \<not> cl_strict_attestation cl \<and> r = None) \<or>
         (\<exists>p ps. list_all2 (\<lambda>q res. cl_verifier cl (q\<lparr>qudd := server_report_data (ce_hashes C) th\<rparr>)
                              (server_report_data (ce_hashes C) th) = Inr res) (rs_quotes rs) (p # ps) \<and>
            r = Some (VerificationResult (eat_token p) (claims p) (tcb_status p) (measurement p) (signer_id p)
                        (secondary p @ ps)))"
proof (cases "rs_quotes rs = []")
  case True
  with assms show ?thesis by (auto simp: verify_server_quotes_def split: if_splits)
next
  case False
  with assms obtain ps where ps:
    "list_all2 (\<lambda>q res. cl_verifier cl (q\<lparr>qudd := server_report_data (ce_hashes C) th\<rparr>)
        (server_report_data (ce_hashes C) th) = Inr res) (rs_quotes rs) ps"
    "r = fold (\<lambda>res a. Some (add_secondary a res)) ps None"
    by (auto simp: verify_server_quotes_def server_report_data_def HS_SERVER_PREFIX_def
        dest: verify_each_server_quote_all)
  moreover from ps(1) False obtain p ps' where "ps = p # ps'" by (cases ps) auto
  ultimately show ?thesis
    by (intro disjI2 exI [of _ p] exI [of _ ps']) (simp add: fold_add_secondary)
qed

lemma verify_pqc_server_sig_Inr:
  "verify_pqc_server_sig C cl rs th = Inr () \<longleftrightarrow>
     (\<forall>pk. cl_server_identity_pub cl = Some pk \<longrightarrow>
        (\<exists>sg sgs. rs_server_signatures rs = sg # sgs \<and> mldsa_verify (ce_sig C) pk th sg = Inr ()))"
  by (auto simp: verify_pqc_server_sig_def split: option.splits list.splits)

lemma mldsa_verify_Inr:
  "mldsa_verify G pk m sg = Inr () \<longleftrightarrow>
     sig_new G = None \<and> sig_public_key_ok G pk \<and> sig_signature_ok G sg \<and> sig_verify G pk m sg"
  by (auto simp: mldsa_verify_def split: option.splits)

text \<open>
  C3. A client that returns a session has checked the very response its transport gave to the headers it sent,
  against this handshake's own transcript, which covers the challenge, random value and key share it
  sent and the random value and key share of that response: with a pinned identity key, the first signature of the
  response verifies over the transcript; with strict attestation the response has at least one quote, and
  every one of its quotes was accepted by the verifier with the transcript's report data in place of the report data
  claimed on the wire. The session has the response's identifier, and its keys come from that transcript and the
  secret the client combined from that response's key share.
\<close>
theorem client_accepts_bound_server:
  assumes "attest_handshake C cl = Inr s" "cl_transport cl = Some t"
  shows "\<exists>challenge pair crandom h resp rs sshare ss. let share = client_key_share_of pair;
           th = client_transcript_hash (ce_hashes C) crandom share challenge rs sshare;
           rd = server_report_data (ce_hashes C) th in
         client_sends C cl challenge pair crandom h \<and> send_attest t h = Inr resp \<and> is_success (reply_status resp) \<and>
         decode_response (ce_headers C) (reply_headers resp) = Inr rs \<and>
         server_share_of_json (ce_json C) (rs_key_share_json rs) = Inr sshare \<and>
         client_combine (ce_kem C) pair \<lparr>ecdhe_public = s_ecdhe_public sshare, mlkem_public = []\<rparr>
           (s_mlkem_ciphertext sshare) = Some (Inr ss) \<and>
         session_id s = rs_base_id rs \<and> derive (ce_hkdf C) ss th = Some (Inr (keys s)) \<and>
         (\<forall>pk. cl_server_identity_pub cl = Some pk \<longrightarrow>
            (\<exists>sg sgs. rs_server_signatures rs = sg # sgs \<and> sig_verify (ce_sig C) pk th sg)) \<and>
         (cl_strict_attestation cl \<longrightarrow>
            (\<exists>p ps. list_all2 (\<lambda>q res. cl_verifier cl (q\<lparr>qudd := rd\<rparr>) rd = Inr res) (rs_quotes rs) (p # ps) \<and>
               attestation_result s =
                 Some (VerificationResult (eat_token p) (claims p) (tcb_status p) (measurement p) (signer_id p)
                         (secondary p @ ps))))"
proof -
  obtain challenge pair crandom h resp where h:
    "client_sends C cl challenge pair crandom h" "send_attest t h = Inr resp"
    "process_response C cl pair crandom (client_key_share_of pair) challenge resp = Inr s"
    using assms(1) by (rule attest_handshake_Inr) (use assms(2) in simp)
  obtain rs sshare ss where r:
    "is_success (reply_status resp)" "decode_response (ce_headers C) (reply_headers resp) = Inr rs"
    "server_share_of_json (ce_json C) (rs_key_share_json rs) = Inr sshare"
    "verify_pqc_server_sig C cl rs
       (client_transcript_hash (ce_hashes C) crandom (client_key_share_of pair) challenge rs sshare) = Inr ()"
    "verify_server_quotes C cl rs
       (client_transcript_hash (ce_hashes C) crandom (client_key_share_of pair) challenge rs sshare) =
       Inr (attestation_result s)"
    "client_combine (ce_kem C) pair \<lparr>ecdhe_public = s_ecdhe_public sshare, mlkem_public = []\<rparr>
       (s_mlkem_ciphertext sshare) = Some (Inr ss)"
    "derive (ce_hkdf C) ss (client_transcript_hash (ce_hashes C) crandom (client_key_share_of pair) challenge rs sshare) =
       Some (Inr (keys s))"
    "session_id s = rs_base_id rs"
    using h(3) by (rule process_response_Inr)
  define th where "th = client_transcript_hash (ce_hashes C) crandom (client_key_share_of pair) challenge rs sshare"
  have sg: "\<exists>sg sgs. rs_server_signatures rs = sg # sgs \<and> sig_verify (ce_sig C) pk th sg"
    if "cl_server_identity_pub cl = Some pk" for pk
    using r(4) that by (auto simp: th_def verify_pqc_server_sig_Inr mldsa_verify_Inr)
  have q: "\<exists>p ps. list_all2 (\<lambda>q res. cl_verifier cl (q\<lparr>qudd := server_report_data (ce_hashes C) th\<rparr>)
        (server_report_data (ce_hashes C) th) = Inr res) (rs_quotes rs) (p # ps) \<and>
      attestation_result s = Some (VerificationResult (eat_token p) (claims p) (tcb_status p) (measurement p)
        (signer_id p) (secondary p @ ps))" if "cl_strict_attestation cl"
    using verify_server_quotes_Inr [OF r(5)] that unfolding th_def by simp
  show ?thesis
    unfolding Let_def
    by (rule exI [of _ challenge], rule exI [of _ pair], rule exI [of _ crandom], rule exI [of _ h], rule exI [of _ resp],
        rule exI [of _ rs], rule exI [of _ sshare], rule exI [of _ ss],
        intro conjI allI impI h(1,2) r(1-3,6-8))
      (use sg q in \<open>simp_all only: th_def\<close>)
qed

definition demo_sig :: sig_lib where
  "demo_sig = \<lparr>sig_new = None, sig_public_key_ok = (\<lambda>pk. True), sig_signature_ok = (\<lambda>sg. True),
     sig_verify = (\<lambda>pk m sg. sg = pk)\<rparr>"

definition demo_client_env :: client_env where
  "demo_client_env =
     \<lparr>ce_kem = sum_kem, ce_hkdf = const_hkdf, ce_hashes = demo_hashes, ce_sig = demo_sig, ce_json = demo_share_codec,
      ce_headers = demo_header_lib, ce_x_seed = [1], ce_kem_seed = [2], ce_rng = Some (replicate 32 3), ce_date = [], ce_now = 0\<rparr>"

definition demo_server_share :: ServerKeyShare where
  "demo_server_share =
     \<lparr>s_ecdhe_public = [5], s_mlkem_public = [6], s_mlkem_ciphertext = [7], s_signature_alg = Some MlDsa65\<rparr>"

definition demo_response :: AtHsResponseHeaders where
  "demo_response =
     \<lparr>rs_cipher_suite = X25519MlKem768Aes256GcmSha384, rs_random = replicate 32 8,
      rs_key_share_json = the (result_ok (server_share_json demo_share_codec demo_server_share)), rs_base_id = 9, rs_version = V2,
      rs_expires_secs = 60, rs_quotes = [demo_quote], rs_secrets = [], rs_cargo = None,
      rs_ticket_resumption = None, rs_server_signatures = [[4]], rs_zk_proof = None\<rparr>"

definition demo_reply :: http_reply where
  "demo_reply = \<lparr>reply_status = 200, reply_body = Inr [], reply_headers = the (encode_response demo_header_lib demo_response)\<rparr>"

definition demo_transport :: AttestTransport where
  "demo_transport = \<lparr>send_options = Inl ''unused'', send_attest = (\<lambda>h. Inr demo_reply)\<rparr>"

definition demo_client :: OpenHttpaClient where
  "demo_client =
     \<lparr>cl_tee_provider = (\<lambda>rd. Inr []), cl_verifier = (\<lambda>q rd. Inr demo_result), cl_transport = Some demo_transport,
      cl_strict_attestation = True, cl_require_preflight = False, cl_server_identity_pub = Some [4]\<rparr>"

lemma demo_reply_decoded: "decode_response demo_header_lib (reply_headers demo_reply) = Inr demo_response"
proof -
  have "list_all quote_encodable (rs_quotes demo_response)" by (simp add: demo_response_def demo_quote_encodable)
  then obtain h where h: "encode_response demo_header_lib demo_response = Some h"
    using encode_response_None [OF demo_header_lib_correct, of demo_response]
    by (cases "encode_response demo_header_lib demo_response") auto
  have "received_response demo_header_lib demo_response = demo_response" "\<not> is_legacy (rs_cipher_suite demo_response)"
    by (simp_all add: received_response_def demo_response_def demo_quote_encodable MAX_SFV_INT_def)
  then show ?thesis using response_headers_decoded [OF demo_header_lib_correct h] h by (simp add: demo_reply_def)
qed

lemma demo_derive: "length th = 48 \<Longrightarrow> \<exists>k. derive const_hkdf ss th = Some (Inr k)"
  using derive_ok [OF const_hkdf_correct, of th ss] by blast

lemma demo_process_response:
  assumes "\<And>m. length (sha384 (ce_hashes C) m) = 48" "ce_hkdf C = const_hkdf" "ce_kem C = sum_kem" "ce_json C = demo_share_codec"
    and "ce_sig C = demo_sig" "ce_now C = 0" "ce_headers C = demo_header_lib"
  shows "\<exists>s. process_response C demo_client
           \<lparr>ecdhe = \<lparr>private_key = [1], ecdhe_public_key = [1]\<rparr>, mlkem = \<lparr>decap_key = [2], encap_key = [2]\<rparr>\<rparr>
           crandom share challenge demo_reply = Inr s"
proof -
  define th where "th = client_transcript_hash (ce_hashes C) crandom share challenge demo_response demo_server_share"
  have len: "length th = 48" by (simp add: th_def client_transcript_hash_def assms(1))
  obtain ss where ss: "client_combine sum_kem
      \<lparr>ecdhe = \<lparr>private_key = [1], ecdhe_public_key = [1]\<rparr>, mlkem = \<lparr>decap_key = [2], encap_key = [2]\<rparr>\<rparr>
      \<lparr>ecdhe_public = [5], mlkem_public = []\<rparr> [7] = Some (Inr ss)"
    by (simp add: client_combine_def agree_def decapsulate_def combine_def combine_ikm_def encode_lengthed_def sum_kem_def)
  obtain k where k: "derive const_hkdf ss th = Some (Inr k)" using demo_derive [OF len] by blast
  have share: "server_share_of_json demo_share_codec (rs_key_share_json demo_response) = Inr demo_server_share"
    using demo_share_codec_correct
    by (simp add: share_codec_correct_def demo_response_def result_ok_def demo_share_codec_def)
  have st: "is_success (reply_status demo_reply)" by (simp add: demo_reply_def is_success_def)
  have sig: "verify_pqc_server_sig C demo_client demo_response th = Inr ()"
    using assms(5) by (simp add: verify_pqc_server_sig_def demo_client_def demo_response_def mldsa_verify_def demo_sig_def)
  obtain a where q: "verify_server_quotes C demo_client demo_response th = Inr a"
    by (simp add: verify_server_quotes_def demo_client_def demo_response_def)
  have t: "instant_add 0 (rs_expires_secs demo_response) = Some 60"
    by (simp add: instant_add_def demo_response_def)
  have sh: "s_ecdhe_public demo_server_share = [5]" "s_mlkem_ciphertext demo_server_share = [7]"
    by (simp_all add: demo_server_share_def)
  show ?thesis
    using assms(2-7) share sig q ss k t sh st demo_reply_decoded
    by (simp add: process_response_def client_or_panic_def Let_def th_def [symmetric])
qed

lemma demo_attest_handshake: "\<exists>s. attest_handshake demo_client_env demo_client = Inr s"
proof -
  let ?pair = "\<lparr>ecdhe = \<lparr>private_key = [1], ecdhe_public_key = [1]\<rparr>, mlkem = \<lparr>decap_key = [2], encap_key = [2]\<rparr>\<rparr>"
  have "\<exists>s. process_response demo_client_env demo_client ?pair (replicate 32 3) (client_key_share_of ?pair)
      None demo_reply = Inr s"
  proof (rule demo_process_response)
    show "length (sha384 (ce_hashes demo_client_env) m) = 48" for m
      by (simp add: demo_client_env_def)
  qed (simp_all add: demo_client_env_def)
  then obtain s where s: "process_response demo_client_env demo_client ?pair (replicate 32 3)
      (client_key_share_of ?pair) None demo_reply = Inr s" by blast
  have g: "hybrid_generate sum_kem [1] [2] = Inr ?pair"
    by (simp add: hybrid_generate_def generate_x25519_def mlkem_generate_def sum_kem_def)
  have env: "ce_kem demo_client_env = sum_kem" "ce_x_seed demo_client_env = [1]" "ce_kem_seed demo_client_env = [2]"
    "ce_rng demo_client_env = Some (replicate 32 3)" "ce_headers demo_client_env = demo_header_lib"
    by (simp_all add: demo_client_env_def)
  obtain j where j: "client_share_json (ce_json demo_client_env) (client_key_share_of ?pair) = Inr j"
    by (simp add: demo_client_env_def demo_share_codec_def)
  have cl: "cl_require_preflight demo_client = False" by (simp add: demo_client_def)
  have q: "generate_client_quote demo_client_env demo_client c sh ch = Inr []" for c sh ch
    by (simp add: generate_client_quote_def demo_client_def)
  have send: "send_attest_request demo_client_env demo_client c j [] ch = Inr demo_reply" for c ch
    using encode_request_None [OF demo_header_lib_correct, of "attest_request demo_client_env c j [] ch"]
    by (auto simp: send_attest_request_def demo_client_def demo_transport_def attest_request_def env ok_or_def split: option.splits)
  show ?thesis
    using s by (simp only: attest_handshake_def cl env if_False bind_result_simps g map_err_simps ok_or_simps Let_def j q send) blast
qed

theorem client_accepts_bound_server_witness:
  "\<exists>s att rs. attest_handshake demo_client_env demo_client = Inr s \<and> cl_strict_attestation demo_client \<and>
     cl_server_identity_pub demo_client = Some [4] \<and> attestation_result s = Some att \<and>
     decode_response demo_header_lib (reply_headers demo_reply) = Inr rs \<and> session_id s = rs_base_id rs"
proof -
  obtain s where s: "attest_handshake demo_client_env demo_client = Inr s" using demo_attest_handshake by blast
  have cl: "cl_strict_attestation demo_client" "cl_server_identity_pub demo_client = Some [4]"
    "cl_transport demo_client = Some demo_transport" "ce_headers demo_client_env = demo_header_lib"
    by (simp_all add: demo_client_def demo_client_env_def)
  obtain h resp rs p ps where r: "send_attest demo_transport h = Inr resp"
    "decode_response (ce_headers demo_client_env) (reply_headers resp) = Inr rs" "session_id s = rs_base_id rs"
    "attestation_result s = Some (VerificationResult (eat_token p) (claims p) (tcb_status p) (measurement p) (signer_id p)
       (secondary p @ ps))"
    using client_accepts_bound_server [OF s cl(3), unfolded Let_def] cl(1) by blast
  have "resp = demo_reply" using r(1) by (simp add: demo_transport_def)
  with s cl r(2-4) show ?thesis by auto
qed

subsection \<open>Agreement with the server\<close>

lemma length_challenge_bytes [simp]: "length (challenge_bytes c) = 48"
  by (cases c) (auto simp: challenge_bytes_def Let_def)

lemma challenge_bytes_48: "length c = 48 \<Longrightarrow> challenge_bytes (Some c) = c"
  by (simp add: challenge_bytes_def)

lemma client_combine_ecdhe_only:
  "ecdhe_public a = ecdhe_public b \<Longrightarrow> client_combine K p a ct = client_combine K p b ct"
  by (simp add: client_combine_def split: sum.split)

text \<open>
  The response \<open>rs\<close> and key share that arrive at the client carry what the server computed. The
  remaining fields (quotes, lifetime) may be anything.
\<close>

definition carries :: "AtHsResponseHeaders \<Rightarrow> CipherSuite \<Rightarrow> ProtocolVersion \<Rightarrow> AtHsResult \<Rightarrow> bool" where
  "carries rs suite ver res \<longleftrightarrow>
     rs_cipher_suite rs = suite \<and> rs_version rs = ver \<and> rs_random rs = server_random res \<and>
     rs_base_id rs = atb_id res"

definition same_handshake :: "AtHsRequest \<Rightarrow> bytes \<Rightarrow> HybridKemPair \<Rightarrow> bytes option \<Rightarrow> bool" where
  "same_handshake req crandom pair challenge \<longleftrightarrow>
     client_random req = crandom \<and> client_challenge req = challenge_bytes challenge \<and>
     client_share req = client_key_share_of pair"

definition same_libs :: "client_env \<Rightarrow> hs_env \<Rightarrow> bool" where
  "same_libs C E \<longleftrightarrow> kem E = ce_kem C \<and> hkdf E = ce_hkdf C \<and> hashes E = ce_hashes C"

lemma transcripts_agree:
  assumes "execute_server E x req = Inr (suite, ver, share, res)" "same_handshake req crandom pair challenge"
    and "same_libs C E" "carries rs suite ver res" "length (server_random res) = 32"
  shows "client_transcript_hash (ce_hashes C) crandom (client_key_share_of pair) challenge rs share =
           hs_transcript_hash res"
proof -
  obtain spair ct where
    "hs_transcript_hash res =
       compute_transcript_hash (hashes E) req suite ver (server_random res) (public_key_share spair) ct"
    "s_ecdhe_public share = ecdhe_public (public_key_share spair)"
    "s_mlkem_public share = mlkem_public (public_key_share spair)" "s_mlkem_ciphertext share = ct"
    using assms(1) by (rule execute_server_Inr)
  with assms(2-5) show ?thesis
    by (simp add: client_transcript_hash_def compute_transcript_hash_def transcript_input_def
        same_handshake_def same_libs_def carries_def server_random_of_def)
qed

lemma secrets_agree:
  assumes "execute_server E x req = Inr (suite, ver, share, res)" "same_handshake req crandom pair challenge"
    and "same_libs C E" "kem_correct (ce_kem C)" "hybrid_generate (ce_kem C) cx ck = Inr pair"
  obtains ss where
    "client_combine (ce_kem C) pair \<lparr>ecdhe_public = s_ecdhe_public share, mlkem_public = []\<rparr>
       (s_mlkem_ciphertext share) = Some (Inr ss)"
    "derive (ce_hkdf C) ss (hs_transcript_hash res) = Some (Inr (session_keys res))"
proof -
  obtain spair ss ct where st:
    "derive (hkdf E) ss (hs_transcript_hash res) = Some (Inr (session_keys res))"
    "s_ecdhe_public share = ecdhe_public (public_key_share spair)" "s_mlkem_ciphertext share = ct"
    "hybrid_generate (kem E) (x_seed E) (kem_seed E) = Inr spair"
    "server_combine (kem E) spair (encap_seed E)
       \<lparr>ecdhe_public = c_ecdhe_public (client_share req), mlkem_public = c_mlkem_public (client_share req)\<rparr> =
       Some (Inr (ss, ct))"
    using assms(1) by (rule execute_server_Inr)
  have "\<lparr>ecdhe_public = c_ecdhe_public (client_share req), mlkem_public = c_mlkem_public (client_share req)\<rparr> =
      public_key_share pair"
    using assms(2) by (simp add: same_handshake_def client_key_share_of_def)
  note pub = this
  have libs: "kem E = ce_kem C" "hkdf E = ce_hkdf C" using assms(3) by (simp_all add: same_libs_def)
  have "client_combine (ce_kem C) pair (public_key_share spair) ct = Some (Inr ss)"
    by (rule client_combine_agrees [OF assms(4,5) st(4) [unfolded libs] st(5) [unfolded libs pub]])
  then have "client_combine (ce_kem C) pair \<lparr>ecdhe_public = s_ecdhe_public share, mlkem_public = []\<rparr>
      (s_mlkem_ciphertext share) = Some (Inr ss)"
    using client_combine_ecdhe_only [of "\<lparr>ecdhe_public = s_ecdhe_public share, mlkem_public = []\<rparr>"
        "public_key_share spair" "ce_kem C" pair ct] st(2,3) by simp
  then show thesis using st(1) [unfolded libs] by (rule that)
qed

lemma process_response_agrees:
  assumes "execute_server E x req = Inr (suite, ver, share, res)" "same_handshake req crandom pair challenge"
    and "same_libs C E" "kem_correct (ce_kem C)" "hybrid_generate (ce_kem C) cx ck = Inr pair"
    and "carries rs suite ver res" "length (server_random res) = 32"
    and "is_success (reply_status resp)" "decode_response (ce_headers C) (reply_headers resp) = Inr rs"
    and "server_share_of_json (ce_json C) (rs_key_share_json rs) = Inr share"
  shows "process_response C cl pair crandom (client_key_share_of pair) challenge resp =
     bind_result (verify_pqc_server_sig C cl rs (hs_transcript_hash res)) (\<lambda>_.
     bind_result (verify_server_quotes C cl rs (hs_transcript_hash res)) (\<lambda>attested.
     bind_result (ok_or ClientPanic (instant_add (ce_now C) (rs_expires_secs rs))) (\<lambda>exp_at.
       Inr (session_new (atb_id res) X25519MlKem768Aes256GcmSha384 V2 (session_keys res) exp_at
              replay_strategy_default attested))))"
proof -
  obtain ss where ss:
    "client_combine (ce_kem C) pair \<lparr>ecdhe_public = s_ecdhe_public share, mlkem_public = []\<rparr>
       (s_mlkem_ciphertext share) = Some (Inr ss)"
    "derive (ce_hkdf C) ss (hs_transcript_hash res) = Some (Inr (session_keys res))"
    using assms(1-5) by (rule secrets_agree)
  show ?thesis
    using assms(6,8-10) ss transcripts_agree [OF assms(1-3,6,7)]
    by (simp add: process_response_def client_or_panic_def carries_def Let_def)
qed

end
