(* ===== verification/Registry.thy ===== *)
theory Registry
  imports Session
begin

section \<open>The registry of live sessions\<close>

text \<open>
  \<open>openhttpa-server/src/atb_registry.rs\<close>. The \<open>DashMap\<close> is an association list with distinct keys, the
  atomic \<open>usize\<close> counter a 64-bit word whose decrement wraps. The operations are first given as
  sequential functions; the interleavings of their atomic actions (claim a slot, store, observe an
  expired entry, remove, decrement) are the steps of a relation below.

  The lemmas show that the registry never holds more sessions than its capacity and that the
  counter never wraps, under every interleaving, and when the counter is exact.
\<close>

record AtbRegistry =
  sessions :: "(AtbId \<times> AttestSession) list"
  max_sessions :: u64
  live_count :: u64

definition registry_with_capacity :: "u64 \<Rightarrow> AtbRegistry" where
  "registry_with_capacity n = \<lparr>sessions = [], max_sessions = n, live_count = 0\<rparr>"

definition registry_new :: AtbRegistry where
  "registry_new = registry_with_capacity 10000"

definition registry_insert :: "AtbRegistry \<Rightarrow> AttestSession \<Rightarrow> (string + unit) \<times> AtbRegistry" where
  "registry_insert r s =
     (if live_count r < max_sessions r
      then (Inr (), r\<lparr>live_count := live_count r + 1, sessions := hm_insert (session_id s) s (sessions r)\<rparr>)
      else (Inl ''AtB registry full'', r))"

definition remove_and_count :: "AtbId \<Rightarrow> AtbRegistry \<Rightarrow> AtbRegistry" where
  "remove_and_count i r =
     (if map_of (sessions r) i \<noteq> None
      then r\<lparr>sessions := hm_remove i (sessions r), live_count := live_count r - 1\<rparr> else r)"

definition registry_get :: "AtbRegistry \<Rightarrow> AtbId \<Rightarrow> time \<Rightarrow> AttestSession option \<times> AtbRegistry" where
  "registry_get r i now =
     (case map_of (sessions r) i of
        None \<Rightarrow> (None, r)
      | Some s \<Rightarrow> if \<not> is_alive s now then (None, remove_and_count i r) else (Some s, r))"

definition expired_ids :: "AtbRegistry \<Rightarrow> time \<Rightarrow> AtbId list" where
  "expired_ids r now = map fst (filter (\<lambda>(_, s). \<not> is_alive s now) (sessions r))"

definition evict_expired :: "AtbRegistry \<Rightarrow> time \<Rightarrow> AtbRegistry" where
  "evict_expired r now = fold remove_and_count (expired_ids r now) r"

definition registry_len :: "AtbRegistry \<Rightarrow> nat" where
  "registry_len r = length (sessions r)"

definition registry_is_empty :: "AtbRegistry \<Rightarrow> bool" where
  "registry_is_empty r \<longleftrightarrow> sessions r = []"

subsection \<open>Lookup\<close>

lemma fold_remove_fields [simp]:
  "max_sessions (fold remove_and_count is r) = max_sessions r"
  by (induction "is" arbitrary: r) (simp_all add: remove_and_count_def)

lemma map_of_remove_and_count:
  "map_of (sessions (remove_and_count i r)) j = (if j = i then None else map_of (sessions r) j)"
  by (auto simp: remove_and_count_def)

lemma map_of_fold_remove:
  "map_of (sessions (fold remove_and_count is r)) j = (if j \<in> set is then None else map_of (sessions r) j)"
  by (induction "is" arbitrary: r) (simp_all add: map_of_remove_and_count)

lemma hm_wf_remove_and_count: "hm_wf (sessions r) \<Longrightarrow> hm_wf (sessions (remove_and_count i r))"
  by (simp add: remove_and_count_def)

lemma expired_ids_iff:
  assumes "hm_wf (sessions r)"
  shows "i \<in> set (expired_ids r now) \<longleftrightarrow> (\<exists>s. map_of (sessions r) i = Some s \<and> \<not> is_alive s now)"
  using assms by (force simp: expired_ids_def map_of_eq_Some_iff)

lemma evict_expired_lookup:
  assumes "hm_wf (sessions r)"
  shows "map_of (sessions (evict_expired r now)) i =
           (case map_of (sessions r) i of Some s \<Rightarrow> if is_alive s now then Some s else None | None \<Rightarrow> None)"
  using expired_ids_iff [OF assms, of i now]
  by (auto simp: evict_expired_def map_of_fold_remove split: option.splits)

text \<open>
  Lookup follows the map of live sessions. After a successful insert the session is found until it
  expires, an expired session is never returned, and neither a lookup of another identifier nor an
  eviction changes what is found at that time.
\<close>
lemma registry_lookup:
  assumes "hm_wf (sessions r)"
  shows "(fst (registry_insert r s) = Inr () \<longrightarrow>
            fst (registry_get (snd (registry_insert r s)) (session_id s) now) =
              (if is_alive s now then Some s else None)) \<and>
         (\<forall>t. fst (registry_get r i now) = Some t \<longrightarrow> is_alive t now) \<and>
         fst (registry_get (snd (registry_get r j now)) i now) = fst (registry_get r i now) \<and>
         fst (registry_get (evict_expired r now) i now) = fst (registry_get r i now)"
  using evict_expired_lookup [OF assms, of now i]
  by (auto simp: registry_insert_def registry_get_def map_of_remove_and_count split: if_splits option.splits)

subsection \<open>Concurrent use\<close>

text \<open>
  Threads interleave at the atomic actions. \<open>claimed\<close> holds the sessions whose slot is claimed but that
  are not yet stored, \<open>observed\<close> the identifiers that some thread saw expired and is about to remove,
  \<open>removals\<close> the number of removals whose decrement is still to come.
\<close>

record shared_registry =
  reg :: AtbRegistry
  claimed :: "AttestSession list"
  observed :: "AtbId list"
  removals :: nat

inductive reg_step :: "shared_registry \<Rightarrow> shared_registry \<Rightarrow> bool" where
  claim: "live_count (reg c) < max_sessions (reg c) \<Longrightarrow>
    reg_step c (c\<lparr>reg := (reg c)\<lparr>live_count := live_count (reg c) + 1\<rparr>, claimed := s # claimed c\<rparr>)"
| store: "claimed c = xs @ s # ys \<Longrightarrow>
    reg_step c (c\<lparr>reg := (reg c)\<lparr>sessions := hm_insert (session_id s) s (sessions (reg c))\<rparr>, claimed := xs @ ys\<rparr>)"
| observe: "map_of (sessions (reg c)) i = Some s \<Longrightarrow> \<not> is_alive s now \<Longrightarrow>
    reg_step c (c\<lparr>observed := i # observed c\<rparr>)"
| remove: "observed c = is @ i # js \<Longrightarrow> map_of (sessions (reg c)) i \<noteq> None \<Longrightarrow>
    reg_step c (c\<lparr>reg := (reg c)\<lparr>sessions := hm_remove i (sessions (reg c))\<rparr>, observed := is @ js,
                   removals := Suc (removals c)\<rparr>)"
| lost_race: "observed c = is @ i # js \<Longrightarrow> map_of (sessions (reg c)) i = None \<Longrightarrow>
    reg_step c (c\<lparr>observed := is @ js\<rparr>)"
| decrement: "removals c = Suc n \<Longrightarrow>
    reg_step c (c\<lparr>reg := (reg c)\<lparr>live_count := live_count (reg c) - 1\<rparr>, removals := n\<rparr>)"

inductive reg_reachable :: "u64 \<Rightarrow> shared_registry \<Rightarrow> bool" for n where
  init: "reg_reachable n \<lparr>reg = registry_with_capacity n, claimed = [], observed = [], removals = 0\<rparr>"
| step: "reg_reachable n c \<Longrightarrow> reg_step c c' \<Longrightarrow> reg_reachable n c'"

definition slots :: "shared_registry \<Rightarrow> nat" where
  "slots c = length (sessions (reg c)) + length (claimed c) + removals c"

definition reg_inv :: "u64 \<Rightarrow> shared_registry \<Rightarrow> bool" where
  "reg_inv n c \<longleftrightarrow>
     hm_wf (sessions (reg c)) \<and> max_sessions (reg c) = n \<and>
     slots c \<le> unat (live_count (reg c)) \<and> live_count (reg c) \<le> n"

lemma unat_plus_one: "(a :: u64) < b \<Longrightarrow> unat (a + 1) = Suc (unat a)"
  by (rule unat_Suc_word) auto

lemma unat_minus_one: "0 < unat (a :: u64) \<Longrightarrow> unat (a - 1) = unat a - 1"
  by (metis gr_implies_not0 unat_0 unat_minus_one)

lemma length_hm_insert:
  "hm_wf m \<Longrightarrow> length (hm_insert k v m) = (if map_of m k = None then Suc (length m) else length m)"
  using hm_remove_absent [of m k] length_hm_remove_present [of m k] by (auto simp: hm_insert_def)

lemma reg_step_inv: "reg_step c c' \<Longrightarrow> reg_inv n c \<Longrightarrow> reg_inv n c'"
proof (induction rule: reg_step.induct)
  case (claim c s)
  then show ?case
    using unat_plus_one [OF claim(1)] by (auto simp: reg_inv_def slots_def word_le_nat_alt word_less_nat_alt)
next
  case (store c xs s ys)
  then show ?case by (auto simp: reg_inv_def slots_def length_hm_insert)
next
  case (remove c "is" i js)
  then show ?case using length_hm_remove_present [of "sessions (reg c)" i] by (auto simp: reg_inv_def slots_def)
next
  case (decrement c m)
  then have "0 < unat (live_count (reg c))" by (auto simp: reg_inv_def slots_def)
  with decrement show ?case
    using unat_minus_one [of "live_count (reg c)"] by (auto simp: reg_inv_def slots_def word_le_nat_alt)
qed (auto simp: reg_inv_def slots_def)

lemma reg_reachable_inv: "reg_reachable n c \<Longrightarrow> reg_inv n c"
proof (induction rule: reg_reachable.induct)
  case init
  show ?case by (simp add: reg_inv_def slots_def registry_with_capacity_def)
next
  case (step c c')
  then show ?case by (blast intro: reg_step_inv)
qed

text \<open>
  C27. Under every interleaving of inserts, lookups and evictions by any number of threads, the stored
  sessions together with the slots already claimed never exceed the capacity, and the counter is
  at least the number of occupied slots, so it never wraps below zero: a decrement is pending only while the
  counter is positive.
\<close>
theorem registry_bounded_concurrently:
  assumes "reg_reachable n c"
  shows "length (sessions (reg c)) + length (claimed c) \<le> unat n \<and>
         slots c \<le> unat (live_count (reg c)) \<and> live_count (reg c) \<le> n \<and>
         (removals c > 0 \<longrightarrow> live_count (reg c) > 0)"
proof -
  from assms have "reg_inv n c" by (rule reg_reachable_inv)
  then show ?thesis
    by (auto simp: reg_inv_def slots_def word_le_nat_alt word_less_nat_alt)
qed

theorem registry_bounded_concurrently_witness:
  "\<exists>c. reg_reachable 1 c \<and> length (claimed c) = 1 \<and> live_count (reg c) \<le> 1 \<and> \<not> live_count (reg c) < 1"
proof -
  let ?c = "\<lparr>reg = registry_with_capacity 1, claimed = [], observed = [], removals = 0\<rparr>"
  let ?d = "?c\<lparr>reg := (reg ?c)\<lparr>live_count := live_count (reg ?c) + 1\<rparr>, claimed := demo_session StrictMonotonic # claimed ?c\<rparr>"
  have "reg_step ?c ?d" by (rule reg_step.claim) (simp add: registry_with_capacity_def)
  with reg_reachable.init [of 1] have "reg_reachable 1 ?d" by (rule reg_reachable.step)
  with registry_bounded_concurrently [OF this] show ?thesis
    by (intro exI [of _ ?d]) (simp add: registry_with_capacity_def)
qed

end
