(* ===== verification/Server_Handlers.thy ===== *)
theory Server_Handlers
  imports Attest_Codec Registry Hpke
begin

section \<open>The server's handlers\<close>

text \<open>
  \<open>openhttpa-server/src/handlers.rs\<close>: the freshness challenge of the preflight handler and the handshake
  handler. The handshake handler takes and returns header maps: an answer is an error (status and message), a
  panic, or the encoded response headers with status 200. HMAC-SHA-256, the JSON parser of the encrypted hello and the policy engine of the optional
  \<open>mesh\<close> feature are parameters; the clock is \<open>None\<close> when it is before the epoch.

  The lemmas show which challenges are accepted, and what must have been checked before a session is
  registered.
\<close>

subsection \<open>Freshness challenges\<close>

type_synonym hmac256 = "bytes \<Rightarrow> bytes \<Rightarrow> bytes"

definition challenge_key_new :: "bytes \<Rightarrow> bytes" where
  "challenge_key_new key = key"

definition challenge_key_rotate :: "bytes \<Rightarrow> bytes \<Rightarrow> bytes" where
  "challenge_key_rotate old_key new_key = new_key"

definition verify_challenge :: "hmac256 \<Rightarrow> u64 option \<Rightarrow> bytes \<Rightarrow> bytes \<Rightarrow> (string + bytes) option" where
  "verify_challenge hm clock c key =
     (if length c < 16 then None
      else Some (
        let ts_bytes = take 8 c; rand_bytes = take 8 (drop 8 c); sg = drop 16 c; ts = u64_of_be ts_bytes
        in if hm key (ts_bytes @ rand_bytes) \<noteq> sg then Inl ''Attest-Challenge signature invalid''
           else case clock of
               None \<Rightarrow> Inl ''system time error''
             | Some now \<Rightarrow>
                 if now < ts \<or> now - ts > 300 then Inl ''Attest-Challenge expired. Please refresh preflight.''
                 else if length c \<noteq> 48 then Inl ''Attest-Challenge must be exactly 48 bytes''
                 else Inr c))"

record PreflightHandlerState =
  ph_cipher_suites :: "CipherSuite list"
  ph_versions :: "ProtocolVersion list"
  ph_challenge_key :: bytes
  ph_oblivious_supported :: bool

definition preflight_handler ::
    "hmac256 \<Rightarrow> PreflightHandlerState \<Rightarrow> u64 option \<Rightarrow> bytes option \<Rightarrow> (nat \<times> string) + PreflightResponseHeaders" where
  "preflight_handler hm st clock rand =
     (case clock of
        None \<Rightarrow> Inl (500, ''system clock error'')
      | Some now \<Rightarrow>
          (case rand of
             None \<Rightarrow> Inl (500, ''entropy source unavailable'')
           | Some rand_bytes \<Rightarrow>
               Inr \<lparr>pf_cipher_suites = ph_cipher_suites st, pf_versions = ph_versions st,
                    pf_challenge = be64 now @ rand_bytes @ hm (ph_challenge_key st) (be64 now @ rand_bytes),
                    pf_oblivious_supported = ph_oblivious_supported st\<rparr>))"

subsection \<open>The handshake handler\<close>

record EncryptedHelloPayload =
  inner_headers :: bytes
  is_cover_traffic :: bool

type_synonym handshake_policy = "EatClaims option \<Rightarrow> ProvenanceChain option \<Rightarrow> CipherSuite \<Rightarrow> string + bool"

record AtHsHandlerState =
  executor :: AtHsExecutor
  registry :: AtbRegistry
  h_tee_provider :: "bytes \<Rightarrow> string + AttestQuote list"
  h_verifier :: "(AttestQuote \<Rightarrow> bytes \<Rightarrow> string + VerificationResult) option"
  h_policy_engine :: "handshake_policy option"
  h_atb_ttl :: u64
  h_challenge_key :: bytes
  h_identity_key :: "(bytes \<Rightarrow> string + bytes) option"
  h_hpke_key :: "MlKemPair option"

record handler_env =
  he_hs :: hs_env
  he_hmac :: hmac256
  he_json :: share_codec
  he_headers :: header_lib
  he_aead :: aead_lib
  he_hkdf256 :: hkdf256
  he_hello_of_json :: "bytes \<Rightarrow> EncryptedHelloPayload option"
  he_clock :: "u64 option"
  he_cover_id :: AtbId

datatype handler_error = HttpError nat string | BadAtHsHeaders HeaderError | HandshakeRejected HandshakeError | HandlerPanic

definition cover_response :: "AtbId \<Rightarrow> AtHsResponseHeaders" where
  "cover_response i =
     \<lparr>rs_cipher_suite = X25519MlKem768Aes256GcmSha384, rs_random = replicate 32 0,
      rs_key_share_json = replicate 256 0, rs_base_id = i, rs_version = V2, rs_expires_secs = 0,
      rs_quotes = [], rs_secrets = [], rs_cargo = None, rs_ticket_resumption = None,
      rs_server_signatures = [], rs_zk_proof = None\<rparr>"

definition encrypted_hello_check ::
    "handler_env \<Rightarrow> AtHsHandlerState \<Rightarrow> AtHsRequestHeaders \<Rightarrow> handler_error + bool" where
  "encrypted_hello_check H st rq =
     (case rq_encrypted_hello rq of
        None \<Rightarrow> Inr False
      | Some payload \<Rightarrow>
          (case h_hpke_key st of
             None \<Rightarrow> Inl (HttpError 400 ''Encrypted Hello not supported by this server'')
           | Some pair \<Rightarrow>
               if length payload < 1088 + 16 then Inl (HttpError 400 ''Encrypted hello payload too short'')
               else
                 let rest = drop 1088 payload; n = length rest - 16
                 in case hpke_open (kem (he_hs H)) (he_aead H) (he_hkdf256 H) pair (take 1088 payload)
                           (take n rest) (drop n rest) of
                      Inl _ \<Rightarrow> Inl (HttpError 400 ''Failed to decrypt Encrypted Hello'')
                    | Inr decrypted \<Rightarrow>
                        Inr (case he_hello_of_json H decrypted of
                               Some p \<Rightarrow> is_cover_traffic p | None \<Rightarrow> False)))"

definition challenge_check :: "handler_env \<Rightarrow> AtHsHandlerState \<Rightarrow> bytes option \<Rightarrow> handler_error + bytes" where
  "challenge_check H st challenge =
     (case challenge of
        Some c \<Rightarrow>
          if 48 \<le> length c then
            (case verify_challenge (he_hmac H) (he_clock H) c (h_challenge_key st) of
               None \<Rightarrow> Inl HandlerPanic
             | Some r \<Rightarrow> map_err (HttpError 401) r)
          else Inl (HttpError 401 ''Attest-Challenge missing, too short, or invalid. Please perform preflight.'')
      | None \<Rightarrow> Inl (HttpError 401 ''Attest-Challenge missing, too short, or invalid. Please perform preflight.''))"

definition policy_check ::
    "AtHsHandlerState \<Rightarrow> AtHsRequestHeaders \<Rightarrow> CipherSuite \<Rightarrow> AtHsResult \<Rightarrow> handler_error + unit" where
  "policy_check st rq suite res =
     (case h_policy_engine st of
        None \<Rightarrow> Inr ()
      | Some eval \<Rightarrow>
          (case eval (map_option claims (client_attestation_result res)) (rq_provenance rq) suite of
             Inr True \<Rightarrow> Inr ()
           | Inr False \<Rightarrow> Inl (HttpError 403 ''Attestation Policy Denied'')
           | Inl _ \<Rightarrow> Inl (HttpError 500 ''Policy Evaluation Error'')))"

definition handler_hs_env :: "handler_env \<Rightarrow> AtHsHandlerState \<Rightarrow> hs_env" where
  "handler_hs_env H st =
     (he_hs H)\<lparr>tee_provider := Some (h_tee_provider st), verifier := h_verifier st,
                identity_key := h_identity_key st\<rparr>"

definition handler_request ::
    "AtHsHandlerState \<Rightarrow> AtHsRequestHeaders \<Rightarrow> ClientKeyShare \<Rightarrow> bytes \<Rightarrow> AtHsRequest" where
  "handler_request st rq share challenge =
     \<lparr>client_suites = rq_cipher_suites rq, client_versions = rq_versions rq, client_random = rq_random rq,
      client_challenge = challenge, client_share = share, client_quotes = rq_client_quotes rq,
      atb_ttl_secs = h_atb_ttl st, provenance = rq_provenance rq\<rparr>"

definition new_server_session :: "CipherSuite \<Rightarrow> ProtocolVersion \<Rightarrow> AtHsResult \<Rightarrow> AttestSession" where
  "new_server_session suite ver res =
     session_new (atb_id res) suite ver (session_keys res) (hs_expires_at res) StrictMonotonic
       (client_attestation_result res)"

definition handler_response ::
    "AtHsHandlerState \<Rightarrow> CipherSuite \<Rightarrow> ProtocolVersion \<Rightarrow> bytes \<Rightarrow> AtHsResult \<Rightarrow> AtHsResponseHeaders" where
  "handler_response st suite ver key_share_json res =
     \<lparr>rs_cipher_suite = suite, rs_random = server_random res,
      rs_key_share_json = key_share_json, rs_base_id = atb_id res, rs_version = ver,
      rs_expires_secs = h_atb_ttl st, rs_quotes = server_quotes res, rs_secrets = [], rs_cargo = None,
      rs_ticket_resumption = None, rs_server_signatures = server_signatures res, rs_zk_proof = None\<rparr>"

definition handler_answer ::
    "handler_env \<Rightarrow> AtHsHandlerState \<Rightarrow> CipherSuite \<Rightarrow> ProtocolVersion \<Rightarrow> ServerKeyShare \<Rightarrow> AtHsResult \<Rightarrow>
     handler_error + header_map" where
  "handler_answer H st suite ver share res =
     (case server_share_json (he_json H) share of
        Inl _ \<Rightarrow> Inl (HttpError 500 ''serialisation error'')
      | Inr j \<Rightarrow> ok_or HandlerPanic (encode_response (he_headers H) (handler_response st suite ver j res)))"

definition run_handshake ::
    "handler_env \<Rightarrow> AtHsHandlerState \<Rightarrow> AtHsRequestHeaders \<Rightarrow>
     handler_error + CipherSuite \<times> ProtocolVersion \<times> ServerKeyShare \<times> AtHsResult" where
  "run_handshake H st rq =
     bind_result (map_err (\<lambda>e. HttpError 400 (''bad key-share JSON: '' @ e))
       (client_share_of_json (he_json H) (rq_key_shares_json rq))) (\<lambda>share.
     if length (rq_random rq) \<noteq> 32 then Inl (HttpError 400 ''Attest-Random must be exactly 32 bytes'')
     else
       bind_result (challenge_check H st (rq_challenge rq)) (\<lambda>challenge.
       bind_result (map_err (\<lambda>e. if e = Panicked then HandlerPanic else HandshakeRejected e)
         (execute_server (handler_hs_env H st) (executor st) (handler_request st rq share challenge)))
         (\<lambda>(suite, ver, sshare, res).
       bind_result (policy_check st rq suite res) (\<lambda>_. Inr (suite, ver, sshare, res)))))"

definition aths_handler ::
    "handler_env \<Rightarrow> AtHsHandlerState \<Rightarrow> header_map \<Rightarrow> (handler_error + header_map) \<times> AtHsHandlerState" where
  "aths_handler H st headers =
     (case decode_request (he_headers H) headers of
        Inl e \<Rightarrow> (Inl (BadAtHsHeaders e), st)
      | Inr rq \<Rightarrow>
          (case encrypted_hello_check H st rq of
             Inl e \<Rightarrow> (Inl e, st)
           | Inr True \<Rightarrow> (ok_or HandlerPanic (encode_response (he_headers H) (cover_response (he_cover_id H))), st)
           | Inr False \<Rightarrow>
               (case run_handshake H st rq of
                  Inl e \<Rightarrow> (Inl e, st)
                | Inr (suite, ver, sshare, res) \<Rightarrow>
                    (case registry_insert (registry st) (new_server_session suite ver res) of
                       (Inl e, r) \<Rightarrow> (Inl (HttpError 503 e), st\<lparr>registry := r\<rparr>)
                     | (Inr _, r) \<Rightarrow> (handler_answer H st suite ver sshare res, st\<lparr>registry := r\<rparr>)))))"

subsection \<open>Which challenges are accepted\<close>

definition hmac256_length :: "hmac256 \<Rightarrow> bool" where
  "hmac256_length hm \<longleftrightarrow> (\<forall>k m. length (hm k m) = 32)"

definition fresh_ts :: "u64 \<Rightarrow> u64 \<Rightarrow> bool" where
  "fresh_ts ts now \<longleftrightarrow> unat ts \<le> unat now \<and> unat now - unat ts \<le> 300"

lemma fresh_ts_iff: "\<not> (now < ts \<or> now - ts > (300 :: u64)) \<longleftrightarrow> fresh_ts ts now"
proof (cases "now < ts")
  case False
  then have "unat (now - ts) = unat now - unat ts" by (simp add: unat_sub)
  with False show ?thesis by (auto simp: fresh_ts_def word_less_nat_alt)
qed (auto simp: fresh_ts_def word_less_nat_alt)

lemma verify_challenge_Inr:
  assumes "hmac256_length hm"
  shows "verify_challenge hm clock c key = Some (Inr r) \<longleftrightarrow>
           (\<exists>now. clock = Some now \<and> r = c \<and> length c = 48 \<and> drop 16 c = hm key (take 16 c) \<and>
              fresh_ts (u64_of_be (take 8 c)) now)"
proof -
  have "take 8 c @ take 8 (drop 8 c) = take 16 c"
    using take_add [of 8 8 c] by simp
  then show ?thesis
    using assms fresh_ts_iff [of _ "u64_of_be (take 8 c)"]
    by (auto simp: verify_challenge_def Let_def split: option.splits)
qed

text \<open>
  A challenge is accepted exactly when it has 48 bytes, carries the HMAC of its time stamp and
  random part under the server's key, and was issued at most 300 seconds ago and not in the
  future. In particular what the preflight handler issues is accepted for 300 seconds.
\<close>
lemma challenge_accepted_iff:
  assumes "hmac256_length hm"
  shows "(verify_challenge hm clock c key = Some (Inr r) \<longleftrightarrow>
            (\<exists>now. clock = Some now \<and> r = c \<and> length c = 48 \<and> drop 16 c = hm key (take 16 c) \<and>
               fresh_ts (u64_of_be (take 8 c)) now)) \<and>
         (\<forall>rand h. length rand = 8 \<and> preflight_handler hm st (Some t) (Some rand) = Inr h \<longrightarrow>
            (verify_challenge hm (Some now) (pf_challenge h) (ph_challenge_key st) = Some (Inr (pf_challenge h)) \<longleftrightarrow>
               fresh_ts t now))"
proof (intro conjI allI impI)
  show "verify_challenge hm clock c key = Some (Inr r) \<longleftrightarrow>
            (\<exists>now. clock = Some now \<and> r = c \<and> length c = 48 \<and> drop 16 c = hm key (take 16 c) \<and>
               fresh_ts (u64_of_be (take 8 c)) now)"
    using assms by (rule verify_challenge_Inr)
next
  fix rand h assume "length rand = 8 \<and> preflight_handler hm st (Some t) (Some rand) = Inr h"
  then show "verify_challenge hm (Some now) (pf_challenge h) (ph_challenge_key st) = Some (Inr (pf_challenge h)) \<longleftrightarrow>
      fresh_ts t now"
    using assms by (auto simp: verify_challenge_Inr preflight_handler_def hmac256_length_def)
qed

abbreviation demo_hmac :: hmac256 where
  "demo_hmac \<equiv> (\<lambda>k m. take 32 (k @ replicate 32 0))"

subsection \<open>What a registered session guarantees\<close>

lemma run_handshake_Inr:
  assumes "run_handshake H st rq = Inr (suite, ver, sshare, res)"
  obtains share c where
    "client_share_of_json (he_json H) (rq_key_shares_json rq) = Inr share" "length (rq_random rq) = 32"
    "rq_challenge rq = Some c" "challenge_check H st (Some c) = Inr c" "length c = 48"
    "verify_challenge (he_hmac H) (he_clock H) c (h_challenge_key st) = Some (Inr c)"
    "execute_server (handler_hs_env H st) (executor st) (handler_request st rq share c) = Inr (suite, ver, sshare, res)"
    "policy_check st rq suite res = Inr ()"
proof -
  from assms obtain share c where st:
    "client_share_of_json (he_json H) (rq_key_shares_json rq) = Inr share" "length (rq_random rq) = 32"
    "challenge_check H st (rq_challenge rq) = Inr c"
    "execute_server (handler_hs_env H st) (executor st) (handler_request st rq share c) = Inr (suite, ver, sshare, res)"
    "policy_check st rq suite res = Inr ()"
    by (cases "length (rq_random rq) = 32") (auto simp: run_handshake_def bind_result_Inr_iff)
  from st(3) obtain c' where c: "rq_challenge rq = Some c'"
    "verify_challenge (he_hmac H) (he_clock H) c' (h_challenge_key st) = Some (Inr c)"
    by (auto simp: challenge_check_def split: option.splits if_splits)
  then have "c' = c" "length c = 48"
    by (auto simp: verify_challenge_def Let_def split: if_splits option.splits)
  with st c show thesis by (intro that [of share c]) simp_all
qed

lemma aths_handler_cases:
  assumes "aths_handler H st h = (r, st')"
  obtains "st' = st" "\<exists>e. r = Inl e"
  | rq where "decode_request (he_headers H) h = Inr rq" "encrypted_hello_check H st rq = Inr True" "st' = st"
    "r = ok_or HandlerPanic (encode_response (he_headers H) (cover_response (he_cover_id H)))"
  | rq suite ver sshare res where "decode_request (he_headers H) h = Inr rq" "encrypted_hello_check H st rq = Inr False"
    "run_handshake H st rq = Inr (suite, ver, sshare, res)"
    "live_count (registry st) < max_sessions (registry st)"
    "st' = st\<lparr>registry := snd (registry_insert (registry st) (new_server_session suite ver res))\<rparr>"
    "r = handler_answer H st suite ver sshare res"
proof (cases "decode_request (he_headers H) h")
  case (Inl e)
  with assms have "st' = st" "\<exists>e. r = Inl e" by (auto simp: aths_handler_def)
  then show thesis by (rule that(1))
next
  case h: (Inr rq)
  show thesis
  proof (cases "encrypted_hello_check H st rq")
    case (Inl e)
    with h assms have "st' = st" "\<exists>e. r = Inl e" by (auto simp: aths_handler_def)
    then show thesis by (rule that(1))
  next
    case hello: (Inr cover)
    show thesis
    proof (cases cover)
      case True
      with hello have ok: "encrypted_hello_check H st rq = Inr True" by simp
      with h assms have "st' = st" "r = ok_or HandlerPanic (encode_response (he_headers H) (cover_response (he_cover_id H)))"
        by (auto simp: aths_handler_def)
      with h ok show thesis by (rule that(2))
    next
      case False
      with hello have no: "encrypted_hello_check H st rq = Inr False" by simp
      show thesis
      proof (cases "run_handshake H st rq")
        case (Inl e)
        with h no assms have "st' = st" "\<exists>e. r = Inl e" by (auto simp: aths_handler_def)
        then show thesis by (rule that(1))
      next
        case (Inr p)
        obtain suite ver sshare res where "p = (suite, ver, sshare, res)" by (rule prod_cases4)
        with Inr have run: "run_handshake H st rq = Inr (suite, ver, sshare, res)" by simp
        show thesis
        proof (cases "live_count (registry st) < max_sessions (registry st)")
          case True
          with h no run assms
          have "st' = st\<lparr>registry := snd (registry_insert (registry st) (new_server_session suite ver res))\<rparr>"
            "r = handler_answer H st suite ver sshare res"
            by (auto simp: aths_handler_def registry_insert_def)
          with h no run True show thesis by (rule that(3))
        next
          case False
          with h no run assms have "st' = st\<lparr>registry := registry st\<rparr>" "\<exists>e. r = Inl e"
            by (auto simp: aths_handler_def registry_insert_def)
          then show thesis by (intro that(1)) simp_all
        qed
      qed
    qed
  qed
qed

lemma handler_answer_cases:
  assumes "r = handler_answer H st suite ver share res"
  shows "case server_share_json (he_json H) share of
     Inl _ \<Rightarrow> r = Inl (HttpError 500 ''serialisation error'')
   | Inr j \<Rightarrow> (case encode_response (he_headers H) (handler_response st suite ver j res) of
         None \<Rightarrow> r = Inl HandlerPanic
       | Some h \<Rightarrow> r = Inr h)"
  using assms by (auto simp: handler_answer_def split: sum.splits option.splits)

text \<open>
  C4. The handshake handler leaves the state unchanged unless the request carried a fresh challenge issued under this
  server's key, the handshake that binds that very challenge succeeded, a configured policy engine allowed
  it and the registry was not full; then exactly the new session with the negotiated keys and strict
  replay protection was added. The answer is the encoding of the handshake's response; but serialising the key
  share and encoding the headers come after the registration, so there are exactly two errors that leave
  the new session registered: status 500 when the key share cannot be serialised, and the panic of the
  header encoder. Every other error leaves the state unchanged, and so does the only other success, the answer to cover
  traffic.
\<close>
theorem handler_registers_only_checked:
  assumes "aths_handler H st h = (r, st')" "hmac256_length (he_hmac H)"
  shows "(st' = st \<and>
          (\<forall>h'. r = Inr h' \<longrightarrow>
             (\<exists>rq. decode_request (he_headers H) h = Inr rq \<and> encrypted_hello_check H st rq = Inr True \<and>
                encode_response (he_headers H) (cover_response (he_cover_id H)) = Some h'))) \<or>
         (\<exists>rq share c suite ver sshare res now.
            decode_request (he_headers H) h = Inr rq \<and> rq_challenge rq = Some c \<and> he_clock H = Some now \<and>
            drop 16 c = he_hmac H (h_challenge_key st) (take 16 c) \<and> fresh_ts (u64_of_be (take 8 c)) now \<and>
            execute_server (handler_hs_env H st) (executor st) (handler_request st rq share c) =
              Inr (suite, ver, sshare, res) \<and>
            (\<forall>eval. h_policy_engine st = Some eval \<longrightarrow>
               eval (map_option claims (client_attestation_result res)) (rq_provenance rq) suite = Inr True) \<and>
            live_count (registry st) < max_sessions (registry st) \<and>
            sessions (registry st') =
              hm_insert (atb_id res) (new_server_session suite ver res) (sessions (registry st)) \<and>
            (case server_share_json (he_json H) sshare of
               Inl _ \<Rightarrow> r = Inl (HttpError 500 ''serialisation error'')
             | Inr j \<Rightarrow> (case encode_response (he_headers H) (handler_response st suite ver j res) of
                   None \<Rightarrow> r = Inl HandlerPanic
                 | Some h' \<Rightarrow> r = Inr h')))"
  using assms(1)
proof (cases rule: aths_handler_cases)
  case (3 rq suite ver sshare res)
  obtain share c where rh:
    "rq_challenge rq = Some c" "verify_challenge (he_hmac H) (he_clock H) c (h_challenge_key st) = Some (Inr c)"
    "execute_server (handler_hs_env H st) (executor st) (handler_request st rq share c) = Inr (suite, ver, sshare, res)"
    "policy_check st rq suite res = Inr ()"
    using 3(3) by (rule run_handshake_Inr)
  obtain now where now: "he_clock H = Some now" "drop 16 c = he_hmac H (h_challenge_key st) (take 16 c)"
    "fresh_ts (u64_of_be (take 8 c)) now"
    using rh(2) assms(2) by (auto simp: verify_challenge_Inr)
  have pol: "\<forall>eval. h_policy_engine st = Some eval \<longrightarrow>
      eval (map_option claims (client_attestation_result res)) (rq_provenance rq) suite = Inr True"
    using rh(4) by (auto simp: policy_check_def split: sum.splits bool.splits)
  have "sessions (registry st') = hm_insert (atb_id res) (new_server_session suite ver res) (sessions (registry st))"
    using 3(4,5) by (simp add: registry_insert_def new_server_session_def session_new_def)
  then show ?thesis
    by (intro disjI2 exI [of _ rq] exI [of _ share] exI [of _ c] exI [of _ suite] exI [of _ ver]
        exI [of _ sshare] exI [of _ res] exI [of _ now] conjI 3(1,4) rh(1,3) now pol handler_answer_cases 3(6))
qed auto

subsection \<open>A concrete server\<close>

definition demo_handler_env :: handler_env where
  "demo_handler_env =
     \<lparr>he_hs = demo_env, he_hmac = demo_hmac, he_json = demo_share_codec, he_headers = demo_header_lib, he_aead = tagged_aead,
      he_hkdf256 = (\<lambda>ss info n. None), he_hello_of_json = (\<lambda>b. None), he_clock = Some 1100, he_cover_id = 3\<rparr>"

definition demo_handler_state :: AtHsHandlerState where
  "demo_handler_state =
     \<lparr>executor = executor_new [] [], registry = registry_with_capacity 5, h_tee_provider = (\<lambda>rd. Inr [demo_quote]),
      h_verifier = None, h_policy_engine = None, h_atb_ttl = 60, h_challenge_key = [7], h_identity_key = None,
      h_hpke_key = None\<rparr>"

definition demo_challenge :: bytes where
  "demo_challenge = be64 1000 @ replicate 8 1 @ demo_hmac [7] (be64 1000 @ replicate 8 1)"

lemma length_demo_challenge: "length demo_challenge = 48"
  by (simp add: demo_challenge_def)

lemma demo_hmac_length: "hmac256_length demo_hmac"
  by (auto simp: hmac256_length_def min_def)

lemma demo_challenge_check: "challenge_check demo_handler_env demo_handler_state (Some demo_challenge) = Inr demo_challenge"
proof -
  have "fresh_ts 1000 1100" by (simp add: fresh_ts_def)
  then have "verify_challenge demo_hmac (Some 1100) demo_challenge [7] = Some (Inr demo_challenge)"
    using verify_challenge_Inr [OF demo_hmac_length, of "Some 1100" demo_challenge "[7]" demo_challenge]
    by (simp add: demo_challenge_def)
  then show ?thesis
    by (simp add: challenge_check_def length_demo_challenge demo_handler_env_def demo_handler_state_def)
qed

definition demo_rq_ok :: "AtHsRequestHeaders \<Rightarrow> ClientKeyShare \<Rightarrow> bool" where
  "demo_rq_ok rq share \<longleftrightarrow>
     rq_cipher_suites rq = [X25519MlKem768Aes256GcmSha384] \<and> rq_versions rq = [V2] \<and> length (rq_random rq) = 32 \<and>
     client_share_json demo_share_codec share = Inr (rq_key_shares_json rq) \<and> rq_client_quotes rq = [] \<and>
     rq_challenge rq = Some demo_challenge \<and> rq_encrypted_hello rq = None \<and>
     c_ecdhe_public share = [1] \<and> c_mlkem_public share = [2]"

lemma demo_run_handshake:
  assumes "demo_rq_ok rq share"
  shows "\<exists>sshare res. run_handshake demo_handler_env demo_handler_state rq =
           Inr (X25519MlKem768Aes256GcmSha384, V2, sshare, res)"
proof -
  let ?pair = "\<lparr>ecdhe = \<lparr>private_key = [5], ecdhe_public_key = [5]\<rparr>, mlkem = \<lparr>decap_key = [6], encap_key = [6]\<rparr>\<rparr>"
  let ?E = "handler_hs_env demo_handler_env demo_handler_state"
  let ?req = "handler_request demo_handler_state rq share demo_challenge"
  note defs = handler_hs_env_def demo_handler_env_def demo_handler_state_def handler_request_def
  obtain ss ct where ss: "server_combine sum_kem ?pair [7] \<lparr>ecdhe_public = [1], mlkem_public = [2]\<rparr> = Some (Inr (ss, ct))"
    by (simp add: server_combine_def agree_def encapsulate_def combine_def combine_ikm_def encode_lengthed_def sum_kem_def)
  have g: "hybrid_generate sum_kem [5] [6] = Inr ?pair"
    by (simp add: hybrid_generate_def generate_x25519_def mlkem_generate_def sum_kem_def)
  have "\<exists>sshare res. execute_server ?E (executor demo_handler_state) ?req = Inr (X25519MlKem768Aes256GcmSha384, V2, sshare, res)"
    by (rule execute_server_ok [where pair = ?pair and ss = ss and ct = ct and srandom = "replicate 32 8" and att = None])
      (use assms g ss const_hkdf_correct in \<open>simp_all add: defs demo_rq_ok_def negotiate_def executor_new_def with_config_def
        with_all_def preferred_list_def verify_client_quotes_def check_required_client_quote_types_def
        make_server_quotes_def make_server_signatures_def\<close>)
  then obtain sshare res where ex: "execute_server ?E (executor demo_handler_state) ?req =
      Inr (X25519MlKem768Aes256GcmSha384, V2, sshare, res)" by blast
  have j: "client_share_of_json (he_json demo_handler_env) (rq_key_shares_json rq) = Inr share"
    using assms demo_share_codec_correct by (simp add: demo_rq_ok_def share_codec_correct_def demo_handler_env_def)
  have p: "policy_check demo_handler_state rq suite res = Inr ()" for suite
    by (simp add: policy_check_def demo_handler_state_def)
  show ?thesis
    using assms j ex p demo_challenge_check by (simp add: run_handshake_def demo_rq_ok_def)
qed

lemma demo_aths_handler:
  assumes "demo_rq_ok rq share" "decode_request demo_header_lib h = Inr rq"
  obtains sshare res j h' where
    "aths_handler demo_handler_env demo_handler_state h =
       (Inr h', demo_handler_state\<lparr>registry := snd (registry_insert (registry demo_handler_state)
           (new_server_session X25519MlKem768Aes256GcmSha384 V2 res))\<rparr>)"
    "run_handshake demo_handler_env demo_handler_state rq = Inr (X25519MlKem768Aes256GcmSha384, V2, sshare, res)"
    "server_share_json demo_share_codec sshare = Inr j" "server_quotes res = [demo_quote]"
    "encode_response demo_header_lib (handler_response demo_handler_state X25519MlKem768Aes256GcmSha384 V2 j res) = Some h'"
proof -
  obtain sshare res where run: "run_handshake demo_handler_env demo_handler_state rq =
      Inr (X25519MlKem768Aes256GcmSha384, V2, sshare, res)"
    using demo_run_handshake [OF assms(1)] by blast
  have hello: "encrypted_hello_check demo_handler_env demo_handler_state rq = Inr False"
    using assms(1) by (simp add: encrypted_hello_check_def demo_rq_ok_def)
  have room: "live_count (registry demo_handler_state) < max_sessions (registry demo_handler_state)"
    by (simp add: demo_handler_state_def registry_with_capacity_def)
  obtain j where j: "server_share_json demo_share_codec sshare = Inr j" by (simp add: demo_share_codec_def)
  from run obtain cshare c where "execute_server (handler_hs_env demo_handler_env demo_handler_state) (executor demo_handler_state)
      (handler_request demo_handler_state rq cshare c) = Inr (X25519MlKem768Aes256GcmSha384, V2, sshare, res)"
    by (rule run_handshake_Inr)
  then have "make_server_quotes (handler_hs_env demo_handler_env demo_handler_state) (executor demo_handler_state)
      (hs_transcript_hash res) = Inr (server_quotes res)"
    by (rule execute_server_Inr)
  then have quotes: "server_quotes res = [demo_quote]"
    by (simp add: make_server_quotes_def handler_hs_env_def demo_handler_state_def)
  let ?rs = "handler_response demo_handler_state X25519MlKem768Aes256GcmSha384 V2 j res"
  have "list_all quote_encodable (rs_quotes ?rs)" by (simp add: handler_response_def quotes demo_quote_encodable)
  then obtain h' where h': "encode_response demo_header_lib ?rs = Some h'"
    using encode_response_None [OF demo_header_lib_correct, of ?rs] by (cases "encode_response demo_header_lib ?rs") auto
  have env: "he_headers demo_handler_env = demo_header_lib" "he_json demo_handler_env = demo_share_codec"
    by (simp_all add: demo_handler_env_def)
  from run hello room assms(2) j h' quotes show thesis
    by (intro that [of h' res sshare j]) (simp_all add: aths_handler_def registry_insert_def handler_answer_def env)
qed

definition demo_rq :: AtHsRequestHeaders where
  "demo_rq =
     \<lparr>rq_cipher_suites = [X25519MlKem768Aes256GcmSha384], rq_random = replicate 32 3, rq_versions = [V2],
      rq_key_shares_json = the (result_ok (client_share_json demo_share_codec
        \<lparr>c_ecdhe_public = [1], c_mlkem_public = [2], c_signature_alg = None\<rparr>)),
      rq_date = [], rq_base_creation = New, rq_direct_attestation = True, rq_allow_untrusted_requests = False,
      rq_client_quotes = [], rq_challenge = Some demo_challenge, rq_signatures = [], rq_ticket = None,
      rq_provenance = None, rq_encrypted_hello = None\<rparr>"

lemma demo_rq_ok: "demo_rq_ok demo_rq \<lparr>c_ecdhe_public = [1], c_mlkem_public = [2], c_signature_alg = None\<rparr>"
  by (simp add: demo_rq_ok_def demo_rq_def demo_share_codec_def result_ok_def)

lemma demo_rq_decoded:
  assumes "received_request demo_header_lib rq = rq" "rq_cipher_suites rq \<noteq> []" "rq_versions rq \<noteq> []"
    and "rq_date rq = []" "rq_client_quotes rq = []"
  obtains h where "encode_request demo_header_lib rq = Some h" "decode_request demo_header_lib h = Inr rq"
proof -
  obtain h where h: "encode_request demo_header_lib rq = Some h"
    using encode_request_None [OF demo_header_lib_correct, of rq] assms(5) by (cases "encode_request demo_header_lib rq") auto
  then have "decode_request demo_header_lib h = Inr rq"
    using request_headers_decoded [OF demo_header_lib_correct h] assms(1-4) by (simp add: str_bytes_def)
  with h show thesis by (rule that)
qed

theorem handler_registers_only_checked_witness:
  "\<exists>h rs st'. decode_request demo_header_lib h = Inr demo_rq \<and>
     aths_handler demo_handler_env demo_handler_state h = (Inr rs, st') \<and>
     hmac256_length (he_hmac demo_handler_env) \<and> st' \<noteq> demo_handler_state \<and>
     length (sessions (registry st')) = 1"
proof -
  obtain hd where d: "decode_request demo_header_lib hd = Inr demo_rq"
    by (rule demo_rq_decoded [of demo_rq]) (simp_all add: demo_rq_def received_request_def)
  obtain res h' where h: "aths_handler demo_handler_env demo_handler_state hd =
       (Inr h', demo_handler_state\<lparr>registry := snd (registry_insert (registry demo_handler_state)
           (new_server_session X25519MlKem768Aes256GcmSha384 V2 res))\<rparr>)" (is "_ = (_, ?st')")
    using demo_rq_ok d by (rule demo_aths_handler)
  have hm: "hmac256_length (he_hmac demo_handler_env)"
    by (simp add: demo_handler_env_def hmac256_length_def min_def)
  have "sessions (registry ?st') \<noteq> sessions (registry demo_handler_state)"
    by (simp add: registry_insert_def demo_handler_state_def registry_with_capacity_def hm_insert_def hm_remove_def)
  then have ne: "?st' \<noteq> demo_handler_state" by metis
  with handler_registers_only_checked [OF h hm]
  have "\<exists>i s. sessions (registry ?st') = hm_insert i s (sessions (registry demo_handler_state))" by blast
  then have "length (sessions (registry ?st')) = 1"
    by (auto simp: demo_handler_state_def registry_with_capacity_def hm_insert_def hm_remove_def)
  with d h hm ne show ?thesis by blast
qed

end
