(* ===== verification/Trusted_Requests.thy ===== *)
theory Trusted_Requests
  imports Client_Handshake Registry
begin

section \<open>Trusted requests and responses\<close>

text \<open>
  The exchange that follows a handshake: \<open>seal_request_body\<close>, \<open>trusted_request_ext\<close> and
  \<open>unseal_response_body\<close> of \<open>openhttpa-client/src/client.rs\<close>, and on the server the extractors of
  \<open>openhttpa-server/src/extractors.rs\<close> and the session middleware of \<open>middleware.rs\<close>. Sessions are shared
  by reference in the source; here an operation returns the new session, and the server's extractor
  stores it back into the registry. UUID and hex text, URIs, JSON, HMAC-SHA-384, the size-limited body reader and \<open>axum::Json\<close> are
  parameters in \<open>wire_lib\<close>; a key that has not the length its HKDF slot gives it makes the source panic.

  The lemmas show that a request is recovered by the server and its response by the client for every
  number of exchanges, what an accepted request has proved, that it is accepted only once, and what
  breaks the synchronisation of the response counters.
\<close>

subsection \<open>The wire\<close>

record uri =
  uri_scheme :: "string option"
  uri_authority :: "string option"
  uri_path :: string
  uri_query :: "string option"

record wire_lib =
  wl_http :: http_lib
  wl_aead :: aead_lib
  wl_hmac384 :: "bytes \<Rightarrow> string + (bytes \<Rightarrow> bytes)"
  wl_uuid_show :: "AtbId \<Rightarrow> bytes"
  wl_uuid_parse :: "bytes \<Rightarrow> AtbId option"
  wl_hex_encode :: "bytes \<Rightarrow> bytes"
  wl_hex_decode :: "bytes \<Rightarrow> string + bytes"
  wl_json_ciphertext :: "bytes \<Rightarrow> string + bytes"
  wl_client_body :: "bytes \<Rightarrow> string + bytes option"
  wl_server_body :: "header_map \<Rightarrow> bytes \<Rightarrow> nat + bytes"
  wl_parse_uri :: "string \<Rightarrow> string + uri"
  wl_parse_method :: "string \<Rightarrow> string + string"

definition AAD_PREFIX :: bytes where
  "AAD_PREFIX = str_bytes ''openhttpa:''"

subsection \<open>The client\<close>

definition rsplit_once :: "char \<Rightarrow> string \<Rightarrow> (string \<times> string) option" where
  "rsplit_once c s =
     (if c \<in> set s then
        (let back = takeWhile (\<lambda>x. x \<noteq> c) (rev s)
         in Some (take (length s - length back - 1) s, rev back))
      else None)"

definition ahl_authority :: "uri \<Rightarrow> string" where
  "ahl_authority u =
     (case uri_authority u of
        None \<Rightarrow> []
      | Some auth \<Rightarrow>
          (let default_port =
             (if uri_scheme u = Some ''https'' then Some ''443''
              else if uri_scheme u = Some ''http'' then Some ''80'' else None)
           in case default_port of
                None \<Rightarrow> auth
              | Some dp \<Rightarrow>
                  (case rsplit_once (CHR '':'') auth of
                     Some (host, port) \<Rightarrow> if port = dp then host else auth
                   | None \<Rightarrow> auth)))"

definition seal_request_with ::
    "wire_lib \<Rightarrow> AtbId \<Rightarrow> string \<Rightarrow> string \<Rightarrow> string option \<Rightarrow> string \<Rightarrow> bytes \<Rightarrow> bytes \<Rightarrow> header_map option \<Rightarrow>
     SessionKeys \<Rightarrow> u64 \<Rightarrow> ClientError + header_map \<times> bytes \<times> u64" where
  "seal_request_with W base_id meth path query authority body aad extra ks counter =
     (if length (client_write_iv ks) \<noteq> 12 then Inl ClientPanic else
      bind_result (map_err (\<lambda>_. ClientHandshake (Msg ''nonce length invariant violated''))
        (nonce_from_slice (build_aead_nonce counter (client_write_iv ks)))) (\<lambda>nonce.
      bind_result (map_err (\<lambda>e. ClientHandshake (KeySetup e))
        (aead_key_new (wl_aead W) Aes256Gcm (client_write_key ks))) (\<lambda>key.
      bind_result (map_err (\<lambda>e. ClientHandshake (EncryptionFailed e))
        (seal_in_place (wl_aead W) key nonce aad body)) (\<lambda>data.
      bind_result (map_err (\<lambda>e. ClientHandshake (InvalidBaseId e))
        (hl_from_str (wl_http W) (wl_uuid_show W base_id))) (\<lambda>id_value.
      let hdrs = hdr_insert ''attest-base-id'' id_value (case extra of None \<Rightarrow> [] | Some h \<Rightarrow> h) in
      bind_result (map_err (\<lambda>e. ClientHandshake (HmacSetup e)) (wl_hmac384 W (client_mac_key ks))) (\<lambda>hmac.
      bind_result (map_err (\<lambda>e. ClientHandshake (AhlError e))
        (update_ahl (wl_http W) meth path query authority hdrs)) (\<lambda>ahl.
      let mac = hmac (be64 counter @ ahl) in
      Inr (hdr_insert ''attest-ticket'' (encode_attest_ticket (wl_http W) counter mac None) hdrs,
           data, counter))))))))"

definition seal_request_body ::
    "wire_lib \<Rightarrow> AttestSession \<Rightarrow> time \<Rightarrow> string \<Rightarrow> string \<Rightarrow> string option \<Rightarrow> string \<Rightarrow> bytes \<Rightarrow> bytes \<Rightarrow>
     header_map option \<Rightarrow> (ClientError + header_map \<times> bytes \<times> u64) \<times> AttestSession" where
  "seal_request_body W s now meth path query authority body aad extra =
     (case with_keys_for_next_trr s now
             (seal_request_with W (session_id s) meth path query authority body aad extra) of
        (Inl e, s') \<Rightarrow> (Inl (ClientHandshake (SessionMsg e)), s')
      | (Inr r, s') \<Rightarrow> (r, s'))"

definition unseal_with :: "wire_lib \<Rightarrow> bytes \<Rightarrow> bytes \<Rightarrow> SessionKeys \<Rightarrow> u64 \<Rightarrow> ClientError + bytes" where
  "unseal_with W ciphertext aad ks counter =
     (if length (server_write_iv ks) \<noteq> 12 then Inl ClientPanic else
      bind_result (map_err (\<lambda>_. ClientPanic)
        (nonce_from_slice (build_aead_nonce counter (server_write_iv ks)))) (\<lambda>nonce.
      bind_result (map_err (\<lambda>e. ClientHandshake (KeySetup e))
        (bound_aead_key_new (wl_aead W) Aes256Gcm (server_write_key ks) (server_write_iv ks))) (\<lambda>key.
      map_err (\<lambda>e. ClientHandshake (DecryptionFailed e))
        (bound_open (wl_aead W) key nonce aad ciphertext))))"

definition unseal_response_body ::
    "wire_lib \<Rightarrow> AttestSession \<Rightarrow> time \<Rightarrow> bytes \<Rightarrow> bytes \<Rightarrow> (ClientError + bytes) \<times> AttestSession" where
  "unseal_response_body W s now resp_body aad =
     (case wl_client_body W resp_body of
        Inl e \<Rightarrow> (Inl (ClientSerialisation (Msg e)), s)
      | Inr None \<Rightarrow> (Inl (ClientSerialisation (Msg ''Missing ciphertext in response'')), s)
      | Inr (Some hex) \<Rightarrow>
          (case wl_hex_decode W hex of
             Inl e \<Rightarrow> (Inl (ClientSerialisation (Msg e)), s)
           | Inr ciphertext \<Rightarrow>
               (case with_keys_for_trs s now (unseal_with W ciphertext aad) of
                  (Inl e, s') \<Rightarrow> (Inl (ClientHandshake (SessionMsg e)), s')
                | (Inr r, s') \<Rightarrow> (r, s'))))"

record TransportRequest =
  tr_method :: string
  tr_uri :: uri
  tr_headers :: header_map
  tr_body :: bytes

record TransportResponse =
  tp_status :: nat
  tp_body :: "nat \<Rightarrow> string + bytes"

record TrustedClient = OpenHttpaClient +
  cl_server_uri :: string
  cl_max_response_size :: nat
  cl_send :: "TransportRequest \<Rightarrow> string + TransportResponse"

definition full_uri_str :: "string \<Rightarrow> string \<Rightarrow> string" where
  "full_uri_str base path =
     (if base \<noteq> [] \<and> last base = CHR ''/'' \<and> prefix ''/'' path then butlast base else base) @ path"

definition request_aad :: "wire_lib \<Rightarrow> AtbId \<Rightarrow> bytes" where
  "request_aad W i = AAD_PREFIX @ wl_uuid_show W i"

definition build_request ::
    "wire_lib \<Rightarrow> TrustedClient \<Rightarrow> AttestSession \<Rightarrow> time \<Rightarrow> string \<Rightarrow> string \<Rightarrow> bytes \<Rightarrow> header_map option \<Rightarrow>
     (ClientError + TransportRequest) \<times> AttestSession" where
  "build_request W cl s now meth path body extra =
     (case wl_parse_uri W (full_uri_str (cl_server_uri cl) path) of
        Inl e \<Rightarrow> (Inl (ClientHandshake (InvalidUri (full_uri_str (cl_server_uri cl) path) e)), s)
      | Inr full_uri \<Rightarrow>
          (case seal_request_body W s now meth (uri_path full_uri) (uri_query full_uri)
                  (ahl_authority full_uri) body (request_aad W (session_id s)) extra of
             (Inl e, s') \<Rightarrow> (Inl e, s')
           | (Inr (hdrs, encrypted_body, _), s') \<Rightarrow>
               (bind_result (map_err (\<lambda>e. ClientTransport (InvalidMethod meth e)) (wl_parse_method W meth)) (\<lambda>m.
                bind_result (map_err (\<lambda>e. ClientTransport (Msg e))
                  (wl_json_ciphertext W (wl_hex_encode W encrypted_body))) (\<lambda>b.
                Inr \<lparr>tr_method = m, tr_uri = full_uri,
                     tr_headers = hdr_insert ''content-type'' (str_bytes ''application/json'') hdrs,
                     tr_body = b\<rparr>)), s')))"

definition trusted_request_ext ::
    "wire_lib \<Rightarrow> TrustedClient \<Rightarrow> AttestSession \<Rightarrow> time \<Rightarrow> time \<Rightarrow> string \<Rightarrow> string \<Rightarrow> bytes \<Rightarrow> header_map option \<Rightarrow>
     (ClientError + bytes) \<times> AttestSession" where
  "trusted_request_ext W cl s now now' meth path body extra =
     (if \<not> is_alive s now then (Inl ClientNotAttested, s)
      else if cl_transport cl = None then (Inl (ClientTransport (Msg ''No transport configured'')), s)
      else case build_request W cl s now meth path body extra of
          (Inl e, s') \<Rightarrow> (Inl e, s')
        | (Inr req, s') \<Rightarrow>
            (case cl_send cl req of
               Inl e \<Rightarrow> (Inl (ClientTransport (Msg e)), s')
             | Inr resp \<Rightarrow>
                 if \<not> is_success (tp_status resp) then (Inl (ClientTransport (ServerError (tp_status resp))), s')
                 else case tp_body resp (cl_max_response_size cl) of
                     Inl e \<Rightarrow> (Inl (ClientTransport (Msg e)), s')
                   | Inr b \<Rightarrow> unseal_response_body W s' now' b (request_aad W (session_id s))))"

definition trusted_request ::
    "wire_lib \<Rightarrow> TrustedClient \<Rightarrow> AttestSession \<Rightarrow> time \<Rightarrow> time \<Rightarrow> string \<Rightarrow> string \<Rightarrow> bytes \<Rightarrow>
     (ClientError + bytes) \<times> AttestSession" where
  "trusted_request W cl s now now' meth path body = trusted_request_ext W cl s now now' meth path body None"

definition trusted_request_0rtt ::
    "wire_lib \<Rightarrow> hash_lib \<Rightarrow> hkdf_lib \<Rightarrow> TrustedClient \<Rightarrow> SessionTicket \<Rightarrow> bytes option \<Rightarrow> AtbId \<Rightarrow> time \<Rightarrow> time \<Rightarrow>
     string \<Rightarrow> string \<Rightarrow> bytes \<Rightarrow> ClientError + bytes" where
  "trusted_request_0rtt W D H cl tk rand_salt rand_id now now' meth path body =
     (if cl_transport cl = None then Inl (ClientTransport (Msg ''No transport configured''))
      else
        bind_result (ok_or (ClientHandshake (Msg ''RNG failure'')) rand_salt) (\<lambda>salt.
        bind_result (map_err (\<lambda>e. ClientHandshake (DerivationMsg e))
          (derive_0rtt H (sha384 D (ticket tk)) salt)) (\<lambda>ks.
        bind_result (ok_or ClientPanic (instant_add now (ucast (lifetime tk)))) (\<lambda>exp_at.
          fst (trusted_request_ext W cl
            (session_new rand_id (ticket_cipher_suite tk) V2 ks exp_at replay_strategy_default None)
            now now' meth path body None)))))"

subsection \<open>The server\<close>

datatype rejection =
    Reject nat string
  | RejectAhl HeaderError
  | RejectSession SessionError
  | RejectBody nat
  | RejectPlaintext string
  | RejectSerialisation string
  | RejectPanic

fun rejection_status :: "rejection \<Rightarrow> nat option" where
  "rejection_status (Reject n _) = Some n"
| "rejection_status (RejectAhl _) = Some 400"
| "rejection_status (RejectSession _) = Some 401"
| "rejection_status (RejectBody n) = Some n"
| "rejection_status (RejectPlaintext _) = Some 400"
| "rejection_status (RejectSerialisation _) = Some 500"
| "rejection_status RejectPanic = None"

record Parts =
  pt_method :: string
  pt_uri :: uri
  pt_original_uri :: "uri option"
  pt_headers :: header_map

record OpenHttpaSession =
  os_session :: AttestSession
  os_aad :: bytes

definition registry_store :: "AtbRegistry \<Rightarrow> AttestSession \<Rightarrow> AtbRegistry" where
  "registry_store r s = r\<lparr>sessions := hm_insert (session_id s) s (sessions r)\<rparr>"

definition base_id_header :: "wire_lib \<Rightarrow> Parts \<Rightarrow> bytes option" where
  "base_id_header W parts =
     Option.bind (hdr_get (pt_headers parts) ''attest-base-id'') (result_ok \<circ> hl_to_str (wl_http W))"

definition session_from_request_parts ::
    "wire_lib \<Rightarrow> AtbRegistry \<Rightarrow> time \<Rightarrow> Parts \<Rightarrow> (rejection + OpenHttpaSession) \<times> AtbRegistry" where
  "session_from_request_parts W rg now parts =
     (case base_id_header W parts of
        None \<Rightarrow> (Inl (Reject 401 ''Missing Attest-Base-ID''), rg)
      | Some base_id_str \<Rightarrow>
          (case wl_uuid_parse W base_id_str of
             None \<Rightarrow> (Inl (Reject 401 ''Invalid Attest-Base-ID format''), rg)
           | Some base_id \<Rightarrow>
               (case registry_get rg base_id now of
                  (None, rg') \<Rightarrow> (Inl (Reject 403 ''Session not found or expired''), rg')
                | (Some s, rg') \<Rightarrow> (Inr \<lparr>os_session = s, os_aad = AAD_PREFIX @ base_id_str\<rparr>, rg'))))"

definition request_authority :: "wire_lib \<Rightarrow> Parts \<Rightarrow> string" where
  "request_authority W parts =
     (case uri_authority (pt_uri parts) of
        Some a \<Rightarrow> a
      | None \<Rightarrow>
          (case Option.bind (hdr_get (pt_headers parts) ''host'') (result_ok \<circ> hl_to_str (wl_http W)) of
             Some h \<Rightarrow> bytes_str h | None \<Rightarrow> []))"

definition request_target :: "Parts \<Rightarrow> uri" where
  "request_target parts = (case pt_original_uri parts of Some u \<Rightarrow> u | None \<Rightarrow> pt_uri parts)"

definition open_request_with ::
    "wire_lib \<Rightarrow> Parts \<Rightarrow> DecodedTicket \<Rightarrow> bytes \<Rightarrow> bytes \<Rightarrow> SessionKeys \<Rightarrow> u64 \<Rightarrow> rejection + bytes" where
  "open_request_with W parts tk ciphertext aad ks counter =
     bind_result (map_err (\<lambda>_. Reject 500 ''HMAC init failed'') (wl_hmac384 W (client_mac_key ks))) (\<lambda>hmac.
     if request_authority W parts = []
     then Inl (Reject 400 ''Missing Host / authority header, required for AHL integrity'')
     else
     bind_result (map_err RejectAhl (update_ahl (wl_http W) (pt_method parts) (uri_path (request_target parts))
         (uri_query (request_target parts)) (request_authority W parts) (pt_headers parts))) (\<lambda>ahl.
     if hmac (be64 (dt_nonce tk) @ ahl) \<noteq> dt_mac tk then Inl (Reject 401 ''Invalid header MAC'')
     else if length (client_write_iv ks) \<noteq> 12 then Inl RejectPanic
     else
     bind_result (map_err (\<lambda>_. RejectPanic)
       (nonce_from_slice (build_aead_nonce (dt_nonce tk) (client_write_iv ks)))) (\<lambda>nonce.
     bind_result (map_err (\<lambda>_. Reject 500 ''Key setup failed'')
       (bound_aead_key_new (wl_aead W) Aes256Gcm (client_write_key ks) (client_write_iv ks))) (\<lambda>key.
     map_err (\<lambda>_. Reject 400 ''Decryption failed'') (bound_open (wl_aead W) key nonce aad ciphertext)))))"

definition encrypted_json ::
    "wire_lib \<Rightarrow> (bytes \<Rightarrow> string + 't) \<Rightarrow> AtbRegistry \<Rightarrow> time \<Rightarrow> Parts \<Rightarrow> bytes \<Rightarrow> (rejection + 't) \<times> AtbRegistry" where
  "encrypted_json W of_json rg now parts body =
     (case session_from_request_parts W rg now parts of
        (Inl e, rg') \<Rightarrow> (Inl e, rg')
      | (Inr sess, rg') \<Rightarrow>
          (case decode_attest_ticket (wl_http W) (pt_headers parts) of
             Inl (TrailerMissing _) \<Rightarrow> (Inl (Reject 401 ''Invalid Attest-Ticket format''), rg')
           | Inl (TrailerInvalid _ _) \<Rightarrow> (Inl (Reject 400 ''Invalid Attest-Ticket format''), rg')
           | Inr tk \<Rightarrow>
               (case wl_server_body W (pt_headers parts) body of
                  Inl status \<Rightarrow> (Inl (RejectBody status), rg')
                | Inr hex \<Rightarrow>
                    (case wl_hex_decode W hex of
                       Inl _ \<Rightarrow> (Inl (Reject 400 ''Invalid ciphertext hex''), rg')
                     | Inr ciphertext \<Rightarrow>
                         (case with_keys_for_trr (os_session sess) now (dt_nonce tk)
                                 (open_request_with W parts tk ciphertext (os_aad sess)) of
                            (Inl e, s') \<Rightarrow> (Inl (RejectSession e), registry_store rg' s')
                          | (Inr (Inl e), s') \<Rightarrow> (Inl e, registry_store rg' s')
                          | (Inr (Inr p), s') \<Rightarrow> (map_err RejectPlaintext (of_json p), registry_store rg' s'))))))"

definition session_transcript_hash :: "OpenHttpaSession \<Rightarrow> time \<Rightarrow> nat + bytes" where
  "session_transcript_hash os now = map_err (\<lambda>_. 401) (peek_keys (os_session os) now transcript_hash)"

record sealed_response =
  sr_headers :: header_map
  sr_body :: bytes

definition seal_response_with ::
    "wire_lib \<Rightarrow> AtbId \<Rightarrow> bytes \<Rightarrow> bytes \<Rightarrow> SessionKeys \<Rightarrow> u64 \<Rightarrow> rejection + sealed_response" where
  "seal_response_with W i aad plaintext ks counter =
     (if length (server_write_iv ks) \<noteq> 12 then Inl RejectPanic else
      bind_result (map_err (\<lambda>_. RejectPanic)
        (nonce_from_slice (build_aead_nonce counter (server_write_iv ks)))) (\<lambda>nonce.
      bind_result (map_err (\<lambda>_. Reject 500 ''Key setup failed'')
        (aead_key_new (wl_aead W) Aes256Gcm (server_write_key ks))) (\<lambda>key.
      bind_result (map_err (\<lambda>_. Reject 500 ''Encryption failed'')
        (seal_in_place (wl_aead W) key nonce aad plaintext)) (\<lambda>data.
      bind_result (map_err RejectSerialisation (wl_json_ciphertext W (wl_hex_encode W data))) (\<lambda>b.
      bind_result (map_err (\<lambda>_. RejectPanic) (hl_from_str (wl_http W) (wl_uuid_show W i))) (\<lambda>id_value.
        Inr \<lparr>sr_headers = hdr_insert ''attest-base-id'' id_value [], sr_body = b\<rparr>))))))"

definition seal_response ::
    "wire_lib \<Rightarrow> ('t \<Rightarrow> string + bytes) \<Rightarrow> OpenHttpaSession \<Rightarrow> time \<Rightarrow> 't \<Rightarrow>
     (rejection + sealed_response) \<times> OpenHttpaSession" where
  "seal_response W to_json os now v =
     (case to_json v of
        Inl e \<Rightarrow> (Inl (RejectSerialisation e), os)
      | Inr plaintext \<Rightarrow>
          (case with_keys_for_trs (os_session os) now
                  (seal_response_with W (session_id (os_session os)) (os_aad os) plaintext) of
             (Inl e, s') \<Rightarrow> (Inl (RejectSession e), os\<lparr>os_session := s'\<rparr>)
           | (Inr r, s') \<Rightarrow> (r, os\<lparr>os_session := s'\<rparr>)))"

definition tr_middleware ::
    "wire_lib \<Rightarrow> (Parts \<Rightarrow> AttestSession \<Rightarrow> bool) option \<Rightarrow> AtbRegistry \<Rightarrow> time \<Rightarrow> Parts \<Rightarrow>
     (nat + AttestSession) \<times> AtbRegistry" where
  "tr_middleware W policy rg now parts =
     (case Option.bind (base_id_header W parts) (wl_uuid_parse W) of
        None \<Rightarrow> (Inl 401, rg)
      | Some i \<Rightarrow>
          (case registry_get rg i now of
             (None, rg') \<Rightarrow> (Inl 401, rg')
           | (Some s, rg') \<Rightarrow>
               if (case policy of Some p \<Rightarrow> \<not> p parts s | None \<Rightarrow> False) then (Inl 403, rg')
               else (Inr s, rg')))"

subsection \<open>The libraries\<close>

text \<open>
  \<open>wire_lib_correct\<close> collects the documented behaviour of the packages: decoders invert encoders, UUID
  text is visible ASCII, HMAC takes keys of every length, and \<open>axum::Json\<close> reads a JSON body that is
  declared as such.
\<close>

definition wire_lib_correct :: "wire_lib \<Rightarrow> bool" where
  "wire_lib_correct W \<longleftrightarrow>
     http_lib_correct (wl_http W) \<and> aead_correct (wl_aead W) \<and>
     (\<forall>k. \<exists>f. wl_hmac384 W k = Inr f) \<and>
     (\<forall>i. list_all visible (wl_uuid_show W i) \<and> wl_uuid_parse W (wl_uuid_show W i) = Some i) \<and>
     (\<forall>x. wl_hex_decode W (wl_hex_encode W x) = Inr x) \<and>
     (\<forall>x. \<exists>b. wl_json_ciphertext W x = Inr b) \<and>
     (\<forall>x b. wl_json_ciphertext W x = Inr b \<longrightarrow> wl_client_body W b = Inr (Some x)) \<and>
     (\<forall>h x b. wl_json_ciphertext W x = Inr b \<and> hdr_get h ''content-type'' = Some (str_bytes ''application/json'') \<longrightarrow>
        wl_server_body W h b = Inr x)"

subsection \<open>Sessions in step\<close>

definition seen_below :: "AttestSession \<Rightarrow> u64 \<Rightarrow> bool" where
  "seen_below s c \<longleftrightarrow>
     (case replay_strategy s of
        SlidingWindow _ \<Rightarrow> highest (replay_guard s) < c | StrictMonotonic \<Rightarrow> strict_last_seen s < c)"

definition usable :: "AttestSession \<Rightarrow> time \<Rightarrow> bool" where
  "usable s now \<longleftrightarrow> is_alive s now \<and> allows_trusted_request (phase s)"

definition paired :: "AttestSession \<Rightarrow> AttestSession \<Rightarrow> bool" where
  "paired s t \<longleftrightarrow>
     session_id s = session_id t \<and> keys s = keys t \<and> keys_wf (keys s) \<and>
     client_counter t \<le> client_counter s \<and> server_counter s = server_counter t \<and>
     seen_below s (client_counter s) \<and> seen_below t (client_counter s)"

lemma word_less_suc: "(c :: u64) \<noteq> - 1 \<Longrightarrow> d \<le> c \<Longrightarrow> d < c + 1"
  using word_lt_plus_one [of c] le_less_trans by blast

text \<open>One step of a session that has seen only smaller nonces: the closure decides.\<close>

lemma trr_in_step:
  assumes "usable s now" "seen_below s c" "client_counter s \<noteq> - 1" "c \<noteq> - 1"
    and "f (keys s) (client_counter s) = Inr x"
  shows "\<exists>s'. with_keys_for_trr s now c f = (Inr (Inr x), s') \<and> client_counter s' = client_counter s + 1 \<and>
           seen_below s' (c + 1)"
proof (cases "replay_strategy s")
  case StrictMonotonic
  then show ?thesis
    using assms word_less_suc [of c c]
    by (auto simp: seen_below_def usable_def trr_defs checked_add1_def)
next
  case (SlidingWindow w)
  with assms(2) have "guard_check (replay_guard s) c = Inr ()" "highest (replay_guard s) < c"
    by (auto simp: seen_below_def guard_check_def Let_def)
  then show ?thesis
    using assms SlidingWindow word_less_suc [of c c]
    by (auto simp: seen_below_def usable_def trr_defs checked_add1_def guard_accept_highest max_def)
qed

lemma trs_in_step:
  assumes "is_alive s now" "server_counter s \<noteq> - 1"
  shows "with_keys_for_trs s now f = (Inr (f (keys s) (server_counter s)), s\<lparr>server_counter := server_counter s + 1\<rparr>)"
  using assms by (simp add: with_keys_for_trs_def checked_add1_def Let_def)

lemma trs_Inr:
  assumes "with_keys_for_trs s now f = (Inr r, s')"
  shows "r = f (keys s) (server_counter s) \<and> is_alive s now \<and> server_counter s \<noteq> - 1 \<and>
         s' = s\<lparr>server_counter := server_counter s + 1\<rparr>"
  using assms by (auto simp: with_keys_for_trs_def checked_add1_Some_iff Let_def split: if_splits option.splits)

lemma trr_Inr:
  assumes "with_keys_for_trr s now c f = (Inr (Inr x), s')"
  shows "usable s now \<and> f (keys s) (client_counter s) = Inr x \<and> client_counter s \<noteq> - 1 \<and>
         client_counter s' = client_counter s + 1"
  using assms
  by (auto simp: usable_def trr_defs checked_add1_Some_iff split: if_splits option.splits sum.splits ReplayStrategy.splits)

lemma seen_below_server_counter [simp]: "seen_below (s\<lparr>server_counter := x\<rparr>) c = seen_below s c"
  by (simp add: seen_below_def split: ReplayStrategy.split)

subsection \<open>A request is recovered\<close>

lemma seal_request_with_Inr:
  assumes "seal_request_with W i m p q a body aad extra ks c = Inr (hdrs, data, n)"
  obtains nonce key idv hmac ahl where
    "length (client_write_iv ks) = 12" "nonce = build_aead_nonce c (client_write_iv ks)"
    "aead_key_new (wl_aead W) Aes256Gcm (client_write_key ks) = Inr key"
    "seal_in_place (wl_aead W) key nonce aad body = Inr data"
    "hl_from_str (wl_http W) (wl_uuid_show W i) = Inr idv"
    "wl_hmac384 W (client_mac_key ks) = Inr hmac"
    "update_ahl (wl_http W) m p q a (hdr_insert ''attest-base-id'' idv (case extra of None \<Rightarrow> [] | Some h \<Rightarrow> h)) = Inr ahl"
    "hdrs = hdr_insert ''attest-ticket'' (encode_attest_ticket (wl_http W) c (hmac (be64 c @ ahl)) None)
       (hdr_insert ''attest-base-id'' idv (case extra of None \<Rightarrow> [] | Some h \<Rightarrow> h))"
    "n = c"
proof -
  from assms have "length (client_write_iv ks) = 12" by (simp add: seal_request_with_def split: if_splits)
  moreover note assms
  ultimately show thesis
    unfolding seal_request_with_def
    by (clarsimp simp: bind_result_Inr_iff Let_def nonce_from_slice_def) (rule that; simp)
qed

text \<open>
  A request arrives when the server sees the same method (up to case), target and authority, the same
  \<open>attest-\<close> headers, and the JSON body that carries the ciphertext. Other headers may be added or removed
  on the way.
\<close>

definition arrives ::
    "wire_lib \<Rightarrow> header_map \<Rightarrow> string \<Rightarrow> string \<Rightarrow> string option \<Rightarrow> string \<Rightarrow> bytes \<Rightarrow> Parts \<Rightarrow> bytes \<Rightarrow> bool" where
  "arrives W hdrs m p q a ct parts b \<longleftrightarrow>
     map ascii_upper (pt_method parts) = map ascii_upper m \<and> uri_path (request_target parts) = p \<and>
     uri_query (request_target parts) = q \<and> request_authority W parts = a \<and> a \<noteq> [] \<and>
     header_map_wf (pt_headers parts) \<and>
     (\<forall>n. prefix ''attest-'' n \<longrightarrow> map_of (pt_headers parts) n = map_of hdrs n) \<and>
     wl_server_body W (pt_headers parts) b = Inr (wl_hex_encode W ct)"

lemma arrives_hdr_get: "arrives W hdrs m p q a ct parts b \<Longrightarrow> prefix ''attest-'' n \<Longrightarrow> hdr_get (pt_headers parts) n = hdr_get hdrs n"
  by (simp add: arrives_def hdr_get_def hdr_get_all_def)

lemma update_ahl_method: "map ascii_upper m = map ascii_upper m' \<Longrightarrow> update_ahl W m p q a h = update_ahl W m' p q a h"
  by (simp add: update_ahl_def ahl_base_def)

lemma arrives_ahl:
  assumes "arrives W hdrs m p q a ct parts b" "header_map_wf h"
    and "hdrs = hdr_insert ''attest-ticket'' v h"
  shows "update_ahl H (pt_method parts) (uri_path (request_target parts)) (uri_query (request_target parts))
           (request_authority W parts) (pt_headers parts) = update_ahl H m p q a h"
proof -
  have "map_of (pt_headers parts) n = map_of h n" if "bound_header n" for n
    using assms(1,3) that by (simp add: arrives_def bound_header_def hdr_insert_def)
  then have "update_ahl H m p q a (pt_headers parts) = update_ahl H m p q a h"
    using assms(1,2) by (intro update_ahl_cong) (simp_all add: arrives_def)
  then show ?thesis
    using assms(1) update_ahl_method [of "pt_method parts" m] by (simp add: arrives_def)
qed

lemma request_opens:
  assumes lib: "wire_lib_correct W"
    and seal: "seal_request_with W i m p q a body aad extra ks c = Inr (hdrs, data, n)"
    and arr: "arrives W hdrs m p q a data parts b" and extra: "header_map_wf (case extra of None \<Rightarrow> [] | Some h \<Rightarrow> h)"
  obtains tk where
    "hdr_get (pt_headers parts) ''attest-base-id'' = Some (wl_uuid_show W i)"
    "decode_attest_ticket (wl_http W) (pt_headers parts) = Inr tk" "dt_nonce tk = c" "n = c"
    "open_request_with W parts tk data aad ks c' = Inr body"
proof -
  have http: "http_lib_correct (wl_http W)" and aead: "aead_correct (wl_aead W)"
    and idv: "list_all visible (wl_uuid_show W i)"
    using lib by (simp_all add: wire_lib_correct_def)
  have low: "map ascii_lower ''attest-base-id'' = ''attest-base-id''" by (simp add: ascii_lower_def)
  from seal obtain nonce key idv hmac ahl where k:
    "length (client_write_iv ks) = 12" "nonce = build_aead_nonce c (client_write_iv ks)"
    "aead_key_new (wl_aead W) Aes256Gcm (client_write_key ks) = Inr key"
    "seal_in_place (wl_aead W) key nonce aad body = Inr data"
    "hl_from_str (wl_http W) (wl_uuid_show W i) = Inr idv"
    "wl_hmac384 W (client_mac_key ks) = Inr hmac"
    "update_ahl (wl_http W) m p q a (hdr_insert ''attest-base-id'' idv (case extra of None \<Rightarrow> [] | Some h \<Rightarrow> h)) = Inr ahl"
    "hdrs = hdr_insert ''attest-ticket'' (encode_attest_ticket (wl_http W) c (hmac (be64 c @ ahl)) None)
       (hdr_insert ''attest-base-id'' idv (case extra of None \<Rightarrow> [] | Some h \<Rightarrow> h))" "n = c"
    by (rule seal_request_with_Inr)
  have "idv = wl_uuid_show W i" using http \<open>list_all visible _\<close> k(5) by (simp add: http_lib_correct_def)
  then have id: "hdr_get (pt_headers parts) ''attest-base-id'' = Some (wl_uuid_show W i)"
    using arrives_hdr_get [OF arr, of "''attest-base-id''"] k(8) by simp
  let ?tk = "\<lparr>dt_nonce = c, dt_mac = hmac (be64 c @ ahl), dt_salt = None\<rparr>"
  have tk: "decode_attest_ticket (wl_http W) (pt_headers parts) = Inr ?tk"
    using http arrives_hdr_get [OF arr, of "''attest-ticket''"] k(8) by (intro decode_encode_ticket) simp_all
  have "update_ahl (wl_http W) (pt_method parts) (uri_path (request_target parts)) (uri_query (request_target parts))
           (request_authority W parts) (pt_headers parts) = Inr ahl"
    using arrives_ahl [OF arr header_map_wf_insert [OF extra low] k(8)] k(7) by simp
  moreover have "open_in_place (wl_aead W) key nonce aad data = Inr body"
    using aead k(4) by (rule aead_seal_open)
  moreover have "request_authority W parts \<noteq> []" using arr by (simp add: arrives_def)
  ultimately have "open_request_with W parts ?tk data aad ks c' = Inr body"
    using k(1-3,6) by (simp add: open_request_with_def nonce_from_slice_def bound_aead_key_new_def bound_open_def)
  with id tk k(9) show thesis by (intro that [of ?tk]) simp_all
qed

lemma registry_store_lookup [simp]:
  "map_of (sessions (registry_store r s)) i = (if i = session_id s then Some s else map_of (sessions r) i)"
  by (simp add: registry_store_def)

lemma session_lookup:
  assumes "wire_lib_correct W" "hdr_get (pt_headers parts) ''attest-base-id'' = Some (wl_uuid_show W i)"
    and "map_of (sessions rg) i = Some t" "is_alive t now"
  shows "session_from_request_parts W rg now parts = (Inr \<lparr>os_session = t, os_aad = request_aad W i\<rparr>, rg)"
  using assms
  by (simp add: session_from_request_parts_def base_id_header_def wire_lib_correct_def http_lib_correct_def registry_get_def request_aad_def)

lemma client_counter_mono: "(a :: u64) \<le> b \<Longrightarrow> b \<noteq> - 1 \<Longrightarrow> a \<noteq> - 1 \<and> a + 1 \<le> b + 1"
proof -
  assume ab: "a \<le> b" "b \<noteq> - 1"
  then have "a \<noteq> - 1" by (metis word_order.extremum_uniqueI)
  with ab show ?thesis by (simp add: word_le_nat_alt unat_Suc_word)
qed

lemma request_step:
  assumes lib: "wire_lib_correct W" and pair: "paired s t" and t: "usable t now'"
    and reg: "map_of (sessions rg) (session_id s) = Some t"
    and extra: "header_map_wf (case extra of None \<Rightarrow> [] | Some h \<Rightarrow> h)"
    and seal: "seal_request_body W s now m p q a body (request_aad W (session_id s)) extra = (Inr (hdrs, data, n), s')"
    and arr: "arrives W hdrs m p q a data parts b"
  obtains t' where
    "encrypted_json W of_json rg now' parts b = (map_err RejectPlaintext (of_json body), registry_store rg t')"
    "paired s' t'" "session_id t' = session_id s" "expires_at t' = expires_at t" "session_id s' = session_id s"
    "expires_at s' = expires_at s" "n = client_counter s"
    "hdr_get (pt_headers parts) ''attest-base-id'' = Some (wl_uuid_show W (session_id s))"
    "keys t' = keys t" "server_counter t' = server_counter t"
proof -
  let ?aad = "request_aad W (session_id s)" and ?c = "client_counter s"
  have f: "with_keys_for_trr s now ?c (seal_request_with W (session_id s) m p q a body ?aad extra) =
      (Inr (Inr (hdrs, data, n)), s')"
    using seal by (auto simp: seal_request_body_def with_keys_for_next_trr_def split: prod.splits sum.splits)
  note c = trr_Inr [OF f]
  have fc: "seal_request_with W (session_id s) m p q a body ?aad extra (keys s) ?c = Inr (hdrs, data, n)"
    using c by simp
  from lib fc arr extra obtain tk where k:
    "hdr_get (pt_headers parts) ''attest-base-id'' = Some (wl_uuid_show W (session_id s))"
    "decode_attest_ticket (wl_http W) (pt_headers parts) = Inr tk" "dt_nonce tk = ?c" "n = ?c"
    "open_request_with W parts tk data ?aad (keys s) (client_counter t) = Inr body"
    by (rule request_opens)
  have pt: "seen_below t ?c" "client_counter t \<noteq> - 1" "keys t = keys s" "session_id t = session_id s"
    "seen_below s ?c" "client_counter t + 1 \<le> ?c + 1"
    using pair c client_counter_mono [of "client_counter t" ?c] by (auto simp: paired_def)
  have cm: "?c \<noteq> - 1" and us: "usable s now" using c by simp_all
  have ok: "open_request_with W parts tk data ?aad (keys t) (client_counter t) = Inr body" using k(5) pt(3) by simp
  obtain t' where t': "with_keys_for_trr t now' ?c (open_request_with W parts tk data ?aad) = (Inr (Inr body), t')"
    "client_counter t' = client_counter t + 1" "seen_below t' (?c + 1)"
    using trr_in_step [where f = "open_request_with W parts tk data ?aad", OF t pt(1,2) cm ok] by blast
  have s': "client_counter s' = ?c + 1" "seen_below s' (?c + 1)"
    using trr_in_step [where f = "seal_request_with W (session_id s) m p q a body ?aad extra", OF us pt(5) cm cm fc] f
    by simp_all
  have sess: "session_from_request_parts W rg now' parts = (Inr \<lparr>os_session = t, os_aad = ?aad\<rparr>, rg)"
    using session_lookup [OF lib k(1) reg] t by (simp add: usable_def)
  have body: "wl_server_body W (pt_headers parts) b = Inr (wl_hex_encode W data)"
    "wl_hex_decode W (wl_hex_encode W data) = Inr data"
    using arr lib by (simp_all add: arrives_def wire_lib_correct_def)
  have "encrypted_json W of_json rg now' parts b = (map_err RejectPlaintext (of_json body), registry_store rg t')"
    by (simp add: encrypted_json_def sess k(2,3) body t'(1))
  moreover have "paired s' t'"
    using pair s' t'(2,3) trr_frame [OF f] trr_frame [OF t'(1)] pt(6) by (auto simp: paired_def)
  ultimately show thesis
    using trr_frame [OF f] trr_frame [OF t'(1)] pt(4) k t'(1) by (intro that [of t']) simp_all
qed

lemma response_step:
  assumes lib: "wire_lib_correct W" and pair: "paired s t"
    and seal: "seal_response W to_json \<lparr>os_session = t, os_aad = aad\<rparr> now v = (Inr r, os')"
    and s: "is_alive s now'"
  obtains plain s' where "to_json v = Inr plain" "unseal_response_body W s now' (sr_body r) aad = (Inr plain, s')"
    "paired s' (os_session os')" "session_id (os_session os') = session_id t"
    "s' = s\<lparr>server_counter := server_counter s + 1\<rparr>"
proof -
  obtain plain where plain: "to_json v = Inr plain"
    using seal by (auto simp: seal_response_def split: sum.splits)
  obtain t' where t': "with_keys_for_trs t now (seal_response_with W (session_id t) aad plain) = (Inr (Inr r), t')"
    "os_session os' = t'"
    using seal plain by (auto simp: seal_response_def split: sum.splits prod.splits)
  note tc = trs_Inr [OF t'(1)]
  let ?n = "build_aead_nonce (server_counter t) (server_write_iv (keys t))"
  have "seal_response_with W (session_id t) aad plain (keys t) (server_counter t) = Inr r" using tc by simp
  then obtain key data where k: "length (server_write_iv (keys t)) = 12"
    "aead_key_new (wl_aead W) Aes256Gcm (server_write_key (keys t)) = Inr key"
    "seal_in_place (wl_aead W) key ?n aad plain = Inr data"
    "wl_json_ciphertext W (wl_hex_encode W data) = Inr (sr_body r)"
    by (auto simp: seal_response_with_def bind_result_Inr_iff nonce_from_slice_def split: if_splits)
  have "open_in_place (wl_aead W) key ?n aad data = Inr plain"
    using lib k(3) by (intro aead_seal_open) (simp_all add: wire_lib_correct_def)
  then have u: "unseal_with W data aad (keys s) (server_counter s) = Inr plain"
    using k pair by (simp add: unseal_with_def paired_def nonce_from_slice_def bound_aead_key_new_def bound_open_def)
  have "wl_client_body W (sr_body r) = Inr (Some (wl_hex_encode W data))" "wl_hex_decode W (wl_hex_encode W data) = Inr data"
    using lib k(4) by (auto simp: wire_lib_correct_def)
  then have "unseal_response_body W s now' (sr_body r) aad = (Inr plain, s\<lparr>server_counter := server_counter s + 1\<rparr>)"
    using u trs_in_step [OF s, of "unseal_with W data aad"] tc pair by (simp add: unseal_response_body_def paired_def)
  moreover have "paired (s\<lparr>server_counter := server_counter s + 1\<rparr>) (os_session os')"
    using pair tc t'(2) by (auto simp: paired_def)
  ultimately show thesis using plain tc t'(2) by (intro that) simp_all
qed

subsection \<open>The exchange\<close>

text \<open>
  A route handler that takes both extractors: it decrypts the request, computes its answer, and seals
  it with the session.
\<close>

definition serve ::
    "wire_lib \<Rightarrow> (bytes \<Rightarrow> string + 't) \<Rightarrow> ('u \<Rightarrow> string + bytes) \<Rightarrow> ('t \<Rightarrow> 'u) \<Rightarrow> AtbRegistry \<Rightarrow> time \<Rightarrow> Parts \<Rightarrow> bytes \<Rightarrow>
     (rejection + sealed_response) \<times> AtbRegistry" where
  "serve W of_json to_json handler rg now parts b =
     (case encrypted_json W of_json rg now parts b of
        (Inl e, rg1) \<Rightarrow> (Inl e, rg1)
      | (Inr v, rg1) \<Rightarrow>
          (case session_from_request_parts W rg1 now parts of
             (Inl e, rg2) \<Rightarrow> (Inl e, rg2)
           | (Inr os, rg2) \<Rightarrow>
               (case seal_response W to_json os now (handler v) of
                  (r, os') \<Rightarrow> (r, registry_store rg2 (os_session os')))))"

lemma serve_step:
  assumes lib: "wire_lib_correct W" and pair: "paired s t" and t: "usable t now'"
    and reg: "map_of (sessions rg) (session_id s) = Some t"
    and extra: "header_map_wf (case extra of None \<Rightarrow> [] | Some h \<Rightarrow> h)"
    and seal: "seal_request_body W s now m p q a body (request_aad W (session_id s)) extra = (Inr (hdrs, data, n), s')"
    and arr: "arrives W hdrs m p q a data parts b"
    and serve: "serve W of_json to_json handler rg now' parts b = (Inr r, rg')"
    and alive: "is_alive s now''"
  obtains v plain s2 t2 where "of_json body = Inr v" "to_json (handler v) = Inr plain"
    "unseal_response_body W s' now'' (sr_body r) (request_aad W (session_id s)) = (Inr plain, s2)"
    "map_of (sessions rg') (session_id s) = Some t2" "paired s2 t2"
proof -
  let ?aad = "request_aad W (session_id s)"
  obtain t' where st:
    "encrypted_json W of_json rg now' parts b = (map_err RejectPlaintext (of_json body), registry_store rg t')"
    "paired s' t'" "session_id t' = session_id s" "expires_at t' = expires_at t" "session_id s' = session_id s"
    "expires_at s' = expires_at s" "n = client_counter s"
    "hdr_get (pt_headers parts) ''attest-base-id'' = Some (wl_uuid_show W (session_id s))"
    "keys t' = keys t" "server_counter t' = server_counter t"
    by (rule request_step [OF lib pair t reg extra seal arr])
  have l: "session_from_request_parts W (registry_store rg t') now' parts =
      (Inr \<lparr>os_session = t', os_aad = ?aad\<rparr>, registry_store rg t')"
    using session_lookup [OF lib st(8), of "registry_store rg t'" t' now'] st(3,4) t by (simp add: usable_def)
  obtain v where v: "of_json body = Inr v"
    using serve by (cases "of_json body") (auto simp: serve_def st(1))
  obtain os' where os': "seal_response W to_json \<lparr>os_session = t', os_aad = ?aad\<rparr> now' (handler v) = (Inr r, os')"
    "rg' = registry_store (registry_store rg t') (os_session os')"
    using serve by (auto simp: serve_def st(1) v l split: prod.splits)
  have "is_alive s' now''" using alive st(6) by simp
  with lib st(2) os'(1) obtain plain s2 where r: "to_json (handler v) = Inr plain"
    "unseal_response_body W s' now'' (sr_body r) ?aad = (Inr plain, s2)"
    "paired s2 (os_session os')" "session_id (os_session os') = session_id t'"
    by (rule response_step)
  then show thesis using v os'(2) st(3) by (intro that [of v plain s2 "os_session os'"]) simp_all
qed

text \<open>
  C5. A trusted request and its response round-trip. Let the client's and the server's sessions be in
  step (same identifier and keys, neither has seen the next counter, equal response counters), let the
  request arrive with its method, target, authority and attest headers intact, and let the route
  handler answer. Then the handler was given exactly the value the client's body encodes,
  \<open>trusted_request_ext\<close> returns exactly the encoding of the handler's answer, and the two sessions are in
  step again, so that the same holds for the next exchange.
\<close>
theorem trusted_exchange:
  assumes "wire_lib_correct W" and "paired s t" and "usable t now'" and "is_alive s now" and "is_alive s now''"
    and "map_of (sessions rg) (session_id s) = Some t"
    and "header_map_wf (case extra of None \<Rightarrow> [] | Some h \<Rightarrow> h)" and "cl_transport cl \<noteq> None"
    and "wl_parse_uri W (full_uri_str (cl_server_uri cl) path) = Inr u" and "wl_parse_method W meth = Inr meth"
    and "seal_request_body W s now meth (uri_path u) (uri_query u) (ahl_authority u) body
           (request_aad W (session_id s)) extra = (Inr (hdrs, data, n), s')"
    and "wl_json_ciphertext W (wl_hex_encode W data) = Inr b"
    and "arrives W hdrs meth (uri_path u) (uri_query u) (ahl_authority u) data parts b"
    and "serve W of_json to_json handler rg now' parts b = (Inr r, rg')"
    and "cl_send cl \<lparr>tr_method = meth, tr_uri = u,
           tr_headers = hdr_insert ''content-type'' (str_bytes ''application/json'') hdrs, tr_body = b\<rparr> =
         Inr \<lparr>tp_status = 200, tp_body = (\<lambda>_. Inr (sr_body r))\<rparr>"
  shows "\<exists>v plain s2 t2. of_json body = Inr v \<and> to_json (handler v) = Inr plain \<and>
           trusted_request_ext W cl s now now'' meth path body extra = (Inr plain, s2) \<and>
           map_of (sessions rg') (session_id s) = Some t2 \<and> paired s2 t2"
proof -
  from assms(1-3,6,7,11,13,14,5) obtain v plain s2 t2 where e: "of_json body = Inr v" "to_json (handler v) = Inr plain"
    "unseal_response_body W s' now'' (sr_body r) (request_aad W (session_id s)) = (Inr plain, s2)"
    "map_of (sessions rg') (session_id s) = Some t2" "paired s2 t2"
    by (rule serve_step)
  have b: "build_request W cl s now meth path body extra =
      (Inr \<lparr>tr_method = meth, tr_uri = u,
           tr_headers = hdr_insert ''content-type'' (str_bytes ''application/json'') hdrs, tr_body = b\<rparr>, s')"
    using assms(9-12) by (simp add: build_request_def)
  have "trusted_request_ext W cl s now now'' meth path body extra = (Inr plain, s2)"
    using assms(4,8,15) e(3) by (simp add: trusted_request_ext_def b is_success_def)
  with e show ?thesis by blast
qed

text \<open>A concrete instance of the libraries, a client and a pair of sessions.\<close>

fun demo_unwrap :: "bytes \<Rightarrow> string + bytes" where
  "demo_unwrap [] = Inl ''empty''"
| "demo_unwrap (b # x) = Inr x"

definition demo_uri :: uri where
  "demo_uri = \<lparr>uri_scheme = Some ''https'', uri_authority = Some ''h:443'', uri_path = ''/p'', uri_query = None\<rparr>"

definition demo_wire_lib :: wire_lib where
  "demo_wire_lib =
     \<lparr>wl_http = demo_http, wl_aead = tagged_aead, wl_hmac384 = (\<lambda>k. Inr (\<lambda>m. k @ m)),
      wl_uuid_show = (\<lambda>i. demo_encode (be_bytes 16 (unat i))),
      wl_uuid_parse = (\<lambda>b. case demo_decode b of Inl _ \<Rightarrow> None | Inr x \<Rightarrow> Some (word_of_nat (of_be x))),
      wl_hex_encode = demo_encode, wl_hex_decode = demo_decode,
      wl_json_ciphertext = (\<lambda>x. Inr (123 # x)), wl_client_body = (\<lambda>b. map_sum id Some (demo_unwrap b)),
      wl_server_body = (\<lambda>h b. map_sum (\<lambda>_. 400) id (demo_unwrap b)),
      wl_parse_uri = (\<lambda>_. Inr demo_uri), wl_parse_method = Inr\<rparr>"

lemma demo_wire_lib_correct: "wire_lib_correct demo_wire_lib"
proof -
  have "word_of_nat (of_be (be_bytes 16 (unat i))) = i" for i :: AtbId
    using unsigned_less [of i, where ?'a = nat] by (simp add: of_be_be_bytes)
  then show ?thesis
    by (simp add: wire_lib_correct_def demo_wire_lib_def demo_http_correct tagged_aead_correct)
qed

definition demo_keys :: SessionKeys where
  "demo_keys = \<lparr>master_secret = replicate 48 1, resumption_master_secret = replicate 48 1,
     client_write_key = replicate 32 2, server_write_key = replicate 32 3, client_write_iv = replicate 12 4,
     server_write_iv = replicate 12 5, client_mac_key = replicate 32 6, server_mac_key = replicate 32 7,
     transcript_hash = replicate 48 8\<rparr>"

definition demo_peer :: "ReplayStrategy \<Rightarrow> AttestSession" where
  "demo_peer st = session_new 7 X25519MlKem768Aes256GcmSha384 V2 demo_keys 100 st None"

lemma session_new_paired:
  "keys_wf ks \<Longrightarrow> paired (session_new i c v ks e st r) (session_new i c' v' ks e' st' r')"
  by (cases st; cases st') (simp_all add: paired_def session_new_def seen_below_def guard_new_def)

lemma session_new_usable: "now < e \<Longrightarrow> usable (session_new i c v ks e st r) now"
  by (simp add: usable_def session_new_def)

lemma demo_keys_wf: "keys_wf demo_keys"
  by (simp add: keys_wf_def demo_keys_def)

lemma demo_seal_request:
  "\<exists>hdrs data n s'. seal_request_body demo_wire_lib (demo_peer (SlidingWindow 64)) 0 ''POST'' ''/p'' None ''h'' body aad None =
     (Inr (hdrs, data, n), s') \<and> header_map_wf hdrs"
proof -
  let ?s = "demo_peer (SlidingWindow 64)" and ?W = demo_wire_lib
  let ?h = "hdr_insert ''attest-base-id'' (wl_uuid_show ?W 7) []"
  have len: "length (demo_encode x) = 2 * length x" for x by (induction x) (simp_all add: demo_encode_def)
  have "ahl_names ?h = [''attest-base-id'']"
    by (simp add: ahl_names_def hdr_insert_def hm_insert_def hm_remove_def ascii_lower_def)
  moreover have "length (ahl_value (wl_http ?W) ?h ''attest-base-id'') \<le> MAX_AHL_HEADER_VALUE_LEN"
    by (simp add: ahl_value_def hdr_get_all_def hdr_insert_def List.map_filter_def demo_wire_lib_def demo_http_def
        demo_text_def len MAX_AHL_HEADER_VALUE_LEN_def)
  ultimately obtain ahl where ahl: "update_ahl (wl_http ?W) ''POST'' ''/p'' None ''h'' ?h = Inr ahl"
    by (simp add: update_ahl_def Let_def MAX_AHL_HEADERS_def MAX_AHL_HEADER_NAME_LEN_def)
  have idv: "hl_from_str (wl_http ?W) (wl_uuid_show ?W 7) = Inr (wl_uuid_show ?W 7)"
    using demo_wire_lib_correct by (simp add: wire_lib_correct_def http_lib_correct_def)
  have lens: "length (client_write_iv demo_keys) = 12" "length (client_write_key demo_keys) = 32"
    by (simp_all add: demo_keys_def)
  have aead: "wl_aead ?W = tagged_aead" "wl_hmac384 ?W = (\<lambda>k. Inr (\<lambda>m. k @ m))"
    by (simp_all add: demo_wire_lib_def)
  have "\<exists>x. seal_request_with ?W 7 ''POST'' ''/p'' None ''h'' body aad None demo_keys 1 = Inr x"
    by (simp add: seal_request_with_def idv ahl lens aead nonce_from_slice_def aead_key_new_def seal_in_place_def
        tagged_aead_def key_len_def)
  then obtain hdrs data n where x: "seal_request_with ?W 7 ''POST'' ''/p'' None ''h'' body aad None demo_keys 1 = Inr (hdrs, data, n)"
    by auto
  have s: "usable ?s 0" "seen_below ?s 1" "client_counter ?s = 1" "keys ?s = demo_keys" "session_id ?s = 7"
    by (simp_all add: demo_peer_def usable_def session_new_def seen_below_def guard_new_def)
  have fx: "seal_request_with ?W 7 ''POST'' ''/p'' None ''h'' body aad None (keys ?s) (client_counter ?s) = Inr (hdrs, data, n)"
    using x s by simp
  obtain s' where "with_keys_for_trr ?s 0 1 (seal_request_with ?W 7 ''POST'' ''/p'' None ''h'' body aad None) =
      (Inr (Inr (hdrs, data, n)), s')"
    using trr_in_step [where f = "seal_request_with ?W 7 ''POST'' ''/p'' None ''h'' body aad None", OF s(1,2) _ _ fx] s(3)
    by auto
  moreover have "header_map_wf hdrs"
    using x by (rule seal_request_with_Inr)
      (simp add: header_map_wf_insert header_map_wf_def hdr_insert_def hm_insert_def hm_remove_def ascii_lower_def)
  ultimately show ?thesis using s(3,5) by (auto simp: seal_request_body_def with_keys_for_next_trr_def)
qed

lemma seal_response_demo:
  assumes "is_alive t now" "server_counter t \<noteq> - 1" "keys t = demo_keys"
  shows "\<exists>r os'. seal_response demo_wire_lib Inr \<lparr>os_session = t, os_aad = aad\<rparr> now v = (Inr r, os')"
proof -
  have idv: "hl_from_str (wl_http demo_wire_lib) (wl_uuid_show demo_wire_lib i) = Inr (wl_uuid_show demo_wire_lib i)" for i
    using demo_wire_lib_correct by (simp add: wire_lib_correct_def http_lib_correct_def)
  have "\<exists>r. seal_response_with demo_wire_lib i aad v demo_keys c = Inr r" for i c
    by (simp add: seal_response_with_def idv nonce_from_slice_def aead_key_new_def seal_in_place_def demo_keys_def)
      (simp add: demo_wire_lib_def tagged_aead_def key_len_def)
  then show ?thesis
    using assms by (auto simp: seal_response_def trs_in_step split: sum.splits)
qed

lemma demo_request:
  "\<exists>parts b t'. encrypted_json demo_wire_lib Inr (registry_store registry_new (demo_peer StrictMonotonic)) 0 parts b =
     (Inr [1, 2], registry_store (registry_store registry_new (demo_peer StrictMonotonic)) t') \<and> session_id t' = 7"
proof -
  let ?W = demo_wire_lib and ?s = "demo_peer (SlidingWindow 64)" and ?t = "demo_peer StrictMonotonic"
  have id: "session_id ?s = 7" "session_id ?t = 7" by (simp_all add: demo_peer_def session_new_def)
  obtain hdrs data n s' where seal: "seal_request_body ?W ?s 0 ''POST'' ''/p'' None ''h'' [1, 2] (request_aad ?W (session_id ?s)) None =
      (Inr (hdrs, data, n), s')" and wf: "header_map_wf hdrs"
    using demo_seal_request by blast
  let ?parts = "\<lparr>pt_method = ''POST'', pt_uri = demo_uri\<lparr>uri_authority := Some ''h''\<rparr>, pt_original_uri = None, pt_headers = hdrs\<rparr>"
  have arr: "arrives ?W hdrs ''POST'' ''/p'' None ''h'' data ?parts (123 # demo_encode data)"
    using wf by (simp add: arrives_def request_target_def request_authority_def demo_uri_def demo_wire_lib_def)
  have pair: "paired ?s ?t" unfolding demo_peer_def by (rule session_new_paired [OF demo_keys_wf])
  have us: "usable ?t 0" by (simp add: demo_peer_def usable_def session_new_def)
  have rg: "map_of (sessions (registry_store registry_new ?t)) (session_id ?s) = Some ?t" by (simp add: id)
  have ex: "header_map_wf (case None of None \<Rightarrow> [] | Some h \<Rightarrow> h)" by (simp add: header_map_wf_def)
  obtain t' where "encrypted_json ?W Inr (registry_store registry_new ?t) 0 ?parts (123 # demo_encode data) =
      (map_err RejectPlaintext (Inr [1, 2]), registry_store (registry_store registry_new ?t) t')" "session_id t' = session_id ?s"
    by (rule request_step [OF demo_wire_lib_correct pair us rg ex seal arr, where of_json = Inr])
  then show ?thesis using id by auto
qed

theorem trusted_exchange_witness:
  "\<exists>cl s2. trusted_request_ext demo_wire_lib cl (demo_peer (SlidingWindow 64)) 0 1 ''POST'' ''/p'' [1, 2] None = (Inr [2, 1], s2)"
proof -
  let ?W = demo_wire_lib and ?s = "demo_peer (SlidingWindow 64)" and ?t = "demo_peer StrictMonotonic"
  let ?rg = "registry_store registry_new ?t" and ?aad = "request_aad demo_wire_lib 7"
  obtain hdrs data n s' where seal: "seal_request_body ?W ?s 0 ''POST'' ''/p'' None ''h'' [1, 2] ?aad None =
      (Inr (hdrs, data, n), s')" and wf: "header_map_wf hdrs"
    using demo_seal_request by blast
  let ?parts = "\<lparr>pt_method = ''POST'', pt_uri = demo_uri\<lparr>uri_authority := Some ''h''\<rparr>, pt_original_uri = None, pt_headers = hdrs\<rparr>"
  let ?b = "123 # demo_encode data"
  have arr: "arrives ?W hdrs ''POST'' ''/p'' None ''h'' data ?parts ?b"
    using wf by (simp add: arrives_def request_target_def request_authority_def demo_uri_def demo_wire_lib_def)
  have id: "session_id ?s = 7" "session_id ?t = 7" by (simp_all add: demo_peer_def session_new_def)
  have rg: "map_of (sessions ?rg) (session_id ?s) = Some ?t" by (simp add: id)
  have us: "usable ?t 0" "is_alive ?s 0" "is_alive ?s 1"
    by (simp_all add: demo_peer_def usable_def session_new_def)
  have pair: "paired ?s ?t" unfolding demo_peer_def by (rule session_new_paired [OF demo_keys_wf])
  have ex: "header_map_wf (case None of None \<Rightarrow> [] | Some h \<Rightarrow> h)" by (simp add: header_map_wf_def)
  have seal': "seal_request_body ?W ?s 0 ''POST'' ''/p'' None ''h'' [1, 2] (request_aad ?W (session_id ?s)) None =
      (Inr (hdrs, data, n), s')" using seal id by simp
  obtain t' where st: "encrypted_json ?W Inr ?rg 0 ?parts ?b = (map_err RejectPlaintext (Inr [1, 2]), registry_store ?rg t')"
    "paired s' t'" "session_id t' = session_id ?s" "expires_at t' = expires_at ?t"
    "hdr_get (pt_headers ?parts) ''attest-base-id'' = Some (wl_uuid_show ?W (session_id ?s))"
    "keys t' = keys ?t" "server_counter t' = server_counter ?t"
    by (rule request_step [OF demo_wire_lib_correct pair us(1) rg ex seal' arr, where of_json = Inr])
  have t': "is_alive t' 0" "server_counter t' \<noteq> - 1" "keys t' = demo_keys"
    using st(4,6,7) by (simp_all add: demo_peer_def session_new_def)
  obtain r os' where os: "seal_response ?W Inr \<lparr>os_session = t', os_aad = ?aad\<rparr> 0 (rev [1, 2]) = (Inr r, os')"
    using seal_response_demo [OF t'] by blast
  have l: "session_from_request_parts ?W (registry_store ?rg t') 0 ?parts =
      (Inr \<lparr>os_session = t', os_aad = ?aad\<rparr>, registry_store ?rg t')"
    using session_lookup [OF demo_wire_lib_correct st(5), of "registry_store ?rg t'" t' 0] st(3) t'(1) id by simp
  have srv: "serve ?W Inr Inr rev ?rg 0 ?parts ?b = (Inr r, registry_store (registry_store ?rg t') (os_session os'))"
    using os by (simp add: serve_def st(1) l)
  define cl :: TrustedClient where "cl = \<lparr>cl_tee_provider = (\<lambda>_. Inr []), cl_verifier = (\<lambda>_ _. Inl []),
    cl_transport = Some \<lparr>send_options = Inl [], send_attest = (\<lambda>_. Inl [])\<rparr>, cl_strict_attestation = False,
    cl_require_preflight = True, cl_server_identity_pub = None, cl_server_uri = ''https://h:443/'',
    cl_max_response_size = 100, cl_send = (\<lambda>_. Inr \<lparr>tp_status = 200, tp_body = (\<lambda>_. Inr (sr_body r))\<rparr>)\<rparr>"
  have u: "uri_path demo_uri = ''/p''" "uri_query demo_uri = None" "ahl_authority demo_uri = ''h''"
    by (simp_all add: demo_uri_def ahl_authority_def rsplit_once_def)
  have p: "wl_parse_uri ?W (full_uri_str (cl_server_uri cl) ''/p'') = Inr demo_uri" "wl_parse_method ?W ''POST'' = Inr ''POST''"
    "wl_json_ciphertext ?W (wl_hex_encode ?W data) = Inr ?b"
    by (simp_all add: demo_wire_lib_def)
  have c: "cl_transport cl \<noteq> None" "cl_send cl req = Inr \<lparr>tp_status = 200, tp_body = (\<lambda>_. Inr (sr_body r))\<rparr>" for req
    by (simp_all add: cl_def)
  from trusted_exchange [OF demo_wire_lib_correct pair us rg ex c(1) p(1,2) _ p(3) _ srv c(2), unfolded u, OF seal' arr]
  obtain s2 where "trusted_request_ext ?W cl ?s 0 1 ''POST'' ''/p'' [1, 2] None = (Inr (rev [1, 2]), s2)" by auto
  then show ?thesis by auto
qed

subsection \<open>What an accepted request has proved\<close>

definition request_result :: "(bytes \<Rightarrow> string + 't) \<Rightarrow> SessionError + (rejection + bytes) \<Rightarrow> rejection + 't" where
  "request_result of_json q =
     (case q of Inl e \<Rightarrow> Inl (RejectSession e) | Inr (Inl e) \<Rightarrow> Inl e | Inr (Inr p) \<Rightarrow> map_err RejectPlaintext (of_json p))"

lemma session_from_request_parts_Inr:
  assumes "session_from_request_parts W rg now parts = (Inr sess, rg1)"
  shows "rg1 = rg \<and> (\<exists>ids i t. base_id_header W parts = Some ids \<and> wl_uuid_parse W ids = Some i \<and>
           map_of (sessions rg) i = Some t \<and> sess = \<lparr>os_session = t, os_aad = AAD_PREFIX @ ids\<rparr>)"
proof -
  obtain ids where ids: "base_id_header W parts = Some ids"
    using assms by (cases "base_id_header W parts") (simp_all add: session_from_request_parts_def)
  obtain i where i: "wl_uuid_parse W ids = Some i"
    using assms ids by (cases "wl_uuid_parse W ids") (simp_all add: session_from_request_parts_def)
  obtain t where t: "registry_get rg i now = (Some t, rg1)" "sess = \<lparr>os_session = t, os_aad = AAD_PREFIX @ ids\<rparr>"
    using assms ids i by (auto simp: session_from_request_parts_def split: prod.splits option.splits)
  then have "map_of (sessions rg) i = Some t \<and> rg1 = rg"
    by (auto simp: registry_get_def split: option.splits if_splits)
  with ids i t(2) show ?thesis by simp
qed

lemma encrypted_json_cases:
  assumes "encrypted_json W of_json rg now parts b = (r, rg')"
  obtains (refused) "isl r" "rg' = rg"
  | (expired) i where "isl r" "rg' = remove_and_count i rg"
  | (session) ids i t tk ct q t' hex where "base_id_header W parts = Some ids" "wl_uuid_parse W ids = Some i"
    "map_of (sessions rg) i = Some t" "decode_attest_ticket (wl_http W) (pt_headers parts) = Inr tk"
    "with_keys_for_trr t now (dt_nonce tk) (open_request_with W parts tk ct (AAD_PREFIX @ ids)) = (q, t')"
    "rg' = registry_store rg t'" "r = request_result of_json q"
    "wl_server_body W (pt_headers parts) b = Inr hex" "wl_hex_decode W hex = Inr ct"
proof (cases "session_from_request_parts W rg now parts")
  case (Pair a rg1)
  show thesis
  proof (cases a)
    case (Inl e)
    with Pair consider "rg1 = rg" | i where "rg1 = remove_and_count i rg"
      by (auto simp: session_from_request_parts_def registry_get_def split: option.splits if_splits)
    moreover have "isl r" "rg' = rg1" using assms Inl Pair by (auto simp: encrypted_json_def)
    ultimately show thesis by cases (use refused expired in blast)+
  next
    case (Inr sess)
    then have "session_from_request_parts W rg now parts = (Inr sess, rg1)" using Pair by simp
    from session_from_request_parts_Inr [OF this] obtain ids i t where k: "base_id_header W parts = Some ids" "wl_uuid_parse W ids = Some i"
      "map_of (sessions rg) i = Some t" "sess = \<lparr>os_session = t, os_aad = AAD_PREFIX @ ids\<rparr>" "rg1 = rg"
      by blast
    show thesis
    proof (cases "isl r \<and> rg' = rg")
      case False
      have e: "session_from_request_parts W rg now parts = (Inr sess, rg)" using Pair Inr k by simp
      from False assms obtain tk hex ct where d:
        "decode_attest_ticket (wl_http W) (pt_headers parts) = Inr tk"
        "wl_server_body W (pt_headers parts) b = Inr hex" "wl_hex_decode W hex = Inr ct"
        unfolding encrypted_json_def e by (auto split: sum.splits TrailerError.splits)
      obtain q t' where w: "with_keys_for_trr t now (dt_nonce tk) (open_request_with W parts tk ct (AAD_PREFIX @ ids)) = (q, t')"
        by fastforce
      have "rg' = registry_store rg t' \<and> r = request_result of_json q"
        using assms unfolding encrypted_json_def e
        by (cases q) (auto simp: k(4) d w request_result_def split: sum.splits)
      with k(1-3) d w show thesis by (intro session [of ids i t tk ct q t' hex]) simp_all
    qed (use refused in blast)
  qed
qed

lemma open_request_with_Inr:
  assumes "open_request_with W parts tk ct aad ks c = Inr p"
  shows "\<exists>hmac ahl. wl_hmac384 W (client_mac_key ks) = Inr hmac \<and> request_authority W parts \<noteq> [] \<and>
     update_ahl (wl_http W) (pt_method parts) (uri_path (request_target parts)) (uri_query (request_target parts))
       (request_authority W parts) (pt_headers parts) = Inr ahl \<and>
     hmac (be64 (dt_nonce tk) @ ahl) = dt_mac tk \<and>
     lib_open (wl_aead W) Aes256Gcm (client_write_key ks) (build_aead_nonce (dt_nonce tk) (client_write_iv ks)) aad ct = Some p"
  using assms
  by (auto simp: open_request_with_def bind_result_Inr_iff nonce_from_slice_def bound_aead_key_new_def aead_key_new_def
      bound_open_def open_in_place_def split: if_splits)

text \<open>
  C6. What the server has checked when \<open>EncryptedJson\<close> yields a value: the request names a registered
  session that is alive and attested, its ticket's nonce passed the replay check, the ticket's MAC is
  the HMAC, under the session's client MAC key, of that nonce and the attested header list of this
  very method, path, query, authority and attest headers. The request's body is a JSON object whose hexadecimal
  ciphertext opens, under the session's client key, that nonce and the session's associated data, to a plaintext,
  and the value is what the JSON parser reads from that plaintext. Nothing but this one session has changed.
\<close>
theorem accepted_request_authenticated:
  assumes "encrypted_json W of_json rg now parts b = (Inr v, rg')"
  shows "\<exists>ids i t t' tk hex ct p hmac ahl.
     base_id_header W parts = Some ids \<and> wl_uuid_parse W ids = Some i \<and> map_of (sessions rg) i = Some t \<and>
     usable t now \<and> trr_check t (dt_nonce tk) \<noteq> None \<and>
     decode_attest_ticket (wl_http W) (pt_headers parts) = Inr tk \<and>
     wl_hmac384 W (client_mac_key (keys t)) = Inr hmac \<and> request_authority W parts \<noteq> [] \<and>
     canonicalize_ahl (wl_http W) (pt_method parts) (uri_path (request_target parts)) (uri_query (request_target parts))
       (request_authority W parts) (pt_headers parts) = Inr ahl \<and>
     dt_mac tk = hmac (be64 (dt_nonce tk) @ ahl) \<and>
     wl_server_body W (pt_headers parts) b = Inr hex \<and> wl_hex_decode W hex = Inr ct \<and>
     lib_open (wl_aead W) Aes256Gcm (client_write_key (keys t)) (build_aead_nonce (dt_nonce tk) (client_write_iv (keys t)))
       (AAD_PREFIX @ ids) ct = Some p \<and> of_json p = Inr v \<and>
     rg' = registry_store rg t' \<and> session_id t' = session_id t \<and> keys t' = keys t"
  using assms
proof (cases rule: encrypted_json_cases)
  case (session ids i t tk ct q t' hex)
  from session(7) obtain p where q: "q = Inr (Inr p)" "of_json p = Inr v"
    by (auto simp: request_result_def eq_commute [of "Inr v"] split: sum.splits)
  note w = session(5) [unfolded q(1)]
  have "trr_check t (dt_nonce tk) \<noteq> None" using w by (auto simp: with_keys_for_trr_def split: if_splits option.splits)
  moreover obtain hmac ahl where "wl_hmac384 W (client_mac_key (keys t)) = Inr hmac" "request_authority W parts \<noteq> []"
    "update_ahl (wl_http W) (pt_method parts) (uri_path (request_target parts)) (uri_query (request_target parts))
       (request_authority W parts) (pt_headers parts) = Inr ahl" "hmac (be64 (dt_nonce tk) @ ahl) = dt_mac tk"
    "lib_open (wl_aead W) Aes256Gcm (client_write_key (keys t)) (build_aead_nonce (dt_nonce tk) (client_write_iv (keys t)))
       (AAD_PREFIX @ ids) ct = Some p"
    using trr_Inr [OF w] open_request_with_Inr by blast
  ultimately show ?thesis
    using session q(2) trr_Inr [OF w] trr_frame [OF w] unfolding canonicalize_ahl_def
    by (intro exI [of _ ids] exI [of _ i] exI [of _ t] exI [of _ t'] exI [of _ tk] exI [of _ hex] exI [of _ ct]
        exI [of _ p] exI [of _ hmac] exI [of _ ahl]) simp
qed simp_all

theorem accepted_request_authenticated_witness:
  "\<exists>parts b rg'. encrypted_json demo_wire_lib Inr (registry_store registry_new (demo_peer StrictMonotonic)) 0 parts b = (Inr [1, 2], rg') \<and>
     (\<exists>tk t' hex ct. decode_attest_ticket demo_http (pt_headers parts) = Inr tk \<and> session_id t' = 7 \<and>
        wl_server_body demo_wire_lib (pt_headers parts) b = Inr hex \<and> wl_hex_decode demo_wire_lib hex = Inr ct \<and>
        rg' = registry_store (registry_store registry_new (demo_peer StrictMonotonic)) t')"
proof -
  obtain parts b t' where p: "encrypted_json demo_wire_lib Inr (registry_store registry_new (demo_peer StrictMonotonic)) 0 parts b =
      (Inr [1, 2], registry_store (registry_store registry_new (demo_peer StrictMonotonic)) t')" "session_id t' = 7"
    using demo_request by blast
  from accepted_request_authenticated [OF p(1)] obtain tk hex ct where a:
    "decode_attest_ticket (wl_http demo_wire_lib) (pt_headers parts) = Inr tk"
    "wl_server_body demo_wire_lib (pt_headers parts) b = Inr hex" "wl_hex_decode demo_wire_lib hex = Inr ct" by blast
  have "wl_http demo_wire_lib = demo_http" by (simp add: demo_wire_lib_def)
  then have "decode_attest_ticket demo_http (pt_headers parts) = Inr tk" using a(1) by simp
  with p a(2,3) show ?thesis by blast
qed

subsection \<open>A request is accepted once\<close>

definition request_attempt ::
    "wire_lib \<Rightarrow> (bytes \<Rightarrow> string + 't) \<Rightarrow> AtbRegistry \<Rightarrow> time \<times> Parts \<times> bytes \<Rightarrow> (rejection + AtbId \<times> u64) \<times> AtbRegistry" where
  "request_attempt W of_json rg x =
     (case x of (now, parts, b) \<Rightarrow>
        (case encrypted_json W of_json rg now parts b of
           (Inl e, rg') \<Rightarrow> (Inl e, rg')
         | (Inr _, rg') \<Rightarrow>
             (Inr (the (Option.bind (base_id_header W parts) (wl_uuid_parse W)),
                   dt_nonce (the (result_ok (decode_attest_ticket (wl_http W) (pt_headers parts))))), rg')))"

definition session_used :: "AttestSession \<Rightarrow> u64 set \<Rightarrow> bool" where
  "session_used t N \<longleftrightarrow> strict_used t N \<or> sliding_used t N"

definition requests_used :: "AtbRegistry \<Rightarrow> (AtbId \<times> u64) set \<Rightarrow> bool" where
  "requests_used rg A \<longleftrightarrow>
     (\<forall>i t. map_of (sessions rg) i = Some t \<longrightarrow> session_id t = i \<and> session_used t {n. (i, n) \<in> A})"

lemma session_used_trr:
  assumes "session_used t N" "with_keys_for_trr t now n f = (q, t')"
  shows "session_used t' N" "q = Inr (Inr p) \<Longrightarrow> n \<notin> N \<and> session_used t' (insert n N)"
  using assms strict_used_trr [OF _ assms(2)] sliding_used_trr [OF _ assms(2)] by (auto simp: session_used_def)

lemma requests_used_remove: "requests_used rg A \<Longrightarrow> requests_used (remove_and_count i rg) A"
  by (simp add: requests_used_def map_of_remove_and_count)

lemma requests_used_store:
  assumes "requests_used rg A" "session_used t' {n. (session_id t', n) \<in> B}" "\<And>i n. i \<noteq> session_id t' \<Longrightarrow> (i, n) \<in> B \<longleftrightarrow> (i, n) \<in> A"
  shows "requests_used (registry_store rg t') B"
  using assms by (auto simp: requests_used_def)

lemma request_attempt_used:
  assumes "requests_used rg A" "request_attempt W of_json rg x = (r, rg')"
  shows "(\<forall>z. r = Inr z \<longrightarrow> z \<notin> A \<and> requests_used rg' (insert z A)) \<and> ((\<exists>e. r = Inl e) \<longrightarrow> requests_used rg' A)"
proof -
  obtain now parts b where x: "x = (now, parts, b)" by (metis prod_cases3)
  obtain r0 where e: "encrypted_json W of_json rg now parts b = (r0, rg')"
    using assms(2) x by (auto simp: request_attempt_def split: prod.splits sum.splits)
  from e show ?thesis
  proof (cases rule: encrypted_json_cases)
    case (session ids i t tk ct q t')
    have t: "session_id t' = i" "session_used t {n. (i, n) \<in> A}"
      using assms(1) session(3) trr_frame [OF session(5)] by (auto simp: requests_used_def)
    note u = session_used_trr [OF t(2) session(5)]
    have keep: "requests_used (registry_store rg t') A"
      using u(1) t(1) by (intro requests_used_store [OF assms(1)]) auto
    show ?thesis
    proof (cases r0)
      case (Inr v)
      then obtain p where q: "q = Inr (Inr p)"
        using session(7) by (auto simp: request_result_def split: sum.splits)
      have r: "r = Inr (i, dt_nonce tk)" using assms(2) x e Inr session(1,2,4) by (auto simp: request_attempt_def)
      have s: "{n. (i, n) \<in> insert (i, dt_nonce tk) A} = insert (dt_nonce tk) {n. (i, n) \<in> A}" by auto
      have "requests_used (registry_store rg t') (insert (i, dt_nonce tk) A)"
        using u(2) [OF q] t(1) s by (intro requests_used_store [OF assms(1)]) auto
      with u(2) [OF q] r session(6) show ?thesis by auto
    qed (use keep session(6) assms(2) x e in \<open>auto simp: request_attempt_def\<close>)
  qed (use assms x e requests_used_remove in \<open>auto simp: request_attempt_def split: sum.splits\<close>)
qed

interpretation request_source: fresh_source "request_attempt W of_json" requests_used for W of_json
  by unfold_locales (use request_attempt_used in blast)+

text \<open>
  C7. The server never processes two requests with the same session and ticket nonce. Over any sequence
  of deliveries, including verbatim replays, altered bodies, requests for other sessions and expired
  sessions, the accepted requests have pairwise different pairs of session identifier and nonce.
\<close>
theorem requests_accepted_once:
  assumes "requests_used rg {}"
  shows "distinct (issued_by (request_attempt W of_json) rg xs)"
  using assms by (rule request_source.issued_distinct)

theorem requests_accepted_once_witness:
  "requests_used (registry_store registry_new (demo_peer StrictMonotonic)) {} \<and>
   (\<exists>parts b rg'. encrypted_json demo_wire_lib Inr (registry_store registry_new (demo_peer StrictMonotonic)) 0 parts b = (Inr [1, 2], rg') \<and>
      distinct (issued_by (request_attempt demo_wire_lib Inr) (registry_store registry_new (demo_peer StrictMonotonic))
        [(0, parts, b), (0, parts, b)]))"
proof -
  have u: "requests_used (registry_store registry_new (demo_peer StrictMonotonic)) {}"
    by (auto simp: requests_used_def session_used_def strict_used_def demo_peer_def session_new_def registry_new_def
        registry_with_capacity_def)
  with requests_accepted_once [OF u] demo_request show ?thesis by blast
qed

subsection \<open>Losing step\<close>

text \<open>
  A response that fails to decrypt breaks the session for good. The client advances its response
  counter before it knows whether the ciphertext opens, so after one forged or damaged JSON response
  its counter is ahead of the server's by one, and from then on each genuine response is sealed with
  a nonce different from the one the client opens it with.
\<close>
lemma forged_response_desynchronises:
  assumes "paired s t" and "is_alive s now" and "server_counter s \<noteq> - 1"
    and "wl_client_body W forged = Inr (Some hex)" and "wl_hex_decode W hex = Inr ct"
    and "lib_open (wl_aead W) Aes256Gcm (server_write_key (keys s))
           (build_aead_nonce (server_counter s) (server_write_iv (keys s))) aad ct = None"
    and "aead_correct (wl_aead W)"
  shows "\<exists>e s'. unseal_response_body W s now forged aad = (Inl e, s') \<and> server_counter s' = server_counter t + 1 \<and>
           build_aead_nonce (server_counter s') (server_write_iv (keys s')) \<noteq>
           build_aead_nonce (server_counter t) (server_write_iv (keys t))"
proof -
  let ?s' = "s\<lparr>server_counter := server_counter s + 1\<rparr>"
  have k: "length (server_write_iv (keys s)) = 12" "length (server_write_key (keys s)) = 32" "keys t = keys s"
    "server_counter t = server_counter s"
    using assms(1) by (auto simp: paired_def keys_wf_def)
  have "\<exists>e. unseal_with W ct aad (keys s) (server_counter s) = Inl e"
    using assms(6,7) k(1,2)
    by (simp add: unseal_with_def nonce_from_slice_def bound_aead_key_new_def aead_key_new_def bound_open_def
        open_in_place_def aead_correct_def key_len_def)
  then obtain e where "unseal_response_body W s now forged aad = (Inl e, ?s')"
    using assms(4,5) trs_in_step [OF assms(2,3), of "unseal_with W ct aad"] by (auto simp: unseal_response_body_def)
  moreover have "build_aead_nonce (server_counter s + 1) (server_write_iv (keys s)) \<noteq>
      build_aead_nonce (server_counter s) (server_write_iv (keys s))"
    using build_aead_nonce_inj [OF k(1)] by simp
  ultimately show ?thesis using k(3,4) by auto
qed

text \<open>The middleware lets through only requests of a live registered session that its policy admits.\<close>

lemma tr_middleware_passes:
  assumes "tr_middleware W policy rg now parts = (Inr s, rg')"
  shows "\<exists>ids i. base_id_header W parts = Some ids \<and> wl_uuid_parse W ids = Some i \<and> map_of (sessions rg) i = Some s \<and>
           is_alive s now \<and> rg' = rg \<and> (\<forall>p. policy = Some p \<longrightarrow> p parts s)"
  using assms
  by (auto simp: tr_middleware_def registry_get_def bind_eq_Some_conv split: option.splits if_splits prod.splits)

end
