(* ===== verification/Streaming.thy ===== *)
theory Streaming
  imports Trusted_Requests
begin

section \<open>Streamed requests and responses\<close>

text \<open>
  The binary framing of \<open>openhttpa-client/src/client.rs\<close> (\<open>trusted_request_streaming\<close>, \<open>StreamFrameReader\<close>) and
  \<open>openhttpa-server/src/extractors.rs\<close> (\<open>seal_stream\<close>, \<open>EncryptedStream\<close>, its own \<open>StreamFrameReader\<close>). A byte
  stream is the list of the chunks still to come, each a transport error or bytes; a pull-based stream
  is polled at given clock readings. Each frame's associated data ends in the running SHA-384 of the
  frames before it.

  The lemmas show that the readers do not depend on how the transport cuts the stream, that sealed
  streams are recovered in both directions, how much the server buffers, and what the protocol does
  not detect: truncation, the replay of a whole response, and the effect of random replay nonces.
\<close>

subsection \<open>Frames\<close>

record StreamFrame =
  sf_counter :: u64
  sf_ciphertext :: bytes

definition frame_len :: "bytes \<Rightarrow> nat" where
  "frame_len buf = unat (u32_of_be (take 4 buf))"

definition split_frame :: "bytes \<Rightarrow> (StreamFrame \<times> bytes) option" where
  "split_frame buf =
     (if 4 \<le> length buf then
        (let len = frame_len buf
         in if 4 + 8 + len \<le> length buf then
              Some (\<lparr>sf_counter = u64_of_be (take 8 (drop 4 buf)), sf_ciphertext = take len (drop 12 buf)\<rparr>,
                    drop (12 + len) buf)
            else None)
      else None)"

type_synonym byte_stream = "(string + bytes) list"

fun client_next_frame :: "bytes \<Rightarrow> byte_stream \<Rightarrow> (ClientError + StreamFrame option) \<times> bytes \<times> byte_stream" where
  "client_next_frame buf [] =
     (case split_frame buf of
        Some (f, rest) \<Rightarrow> (Inr (Some f), rest, [])
      | None \<Rightarrow>
          if buf = [] then (Inr None, buf, [])
          else (Inl (ClientTransport (Msg ''Incomplete frame at end of stream'')), buf, []))"
| "client_next_frame buf (c # cs) =
     (case split_frame buf of
        Some (f, rest) \<Rightarrow> (Inr (Some f), rest, c # cs)
      | None \<Rightarrow>
          (case c of
             Inl e \<Rightarrow> (Inl (ClientTransport (Msg e)), buf, cs)
           | Inr chunk \<Rightarrow> client_next_frame (buf @ chunk) cs))"

definition MAX_FRAME_SIZE :: nat where
  "MAX_FRAME_SIZE = 16 * 1024 * 1024"

definition frame_too_large :: "bytes \<Rightarrow> bool" where
  "frame_too_large buf \<longleftrightarrow> 4 \<le> length buf \<and> MAX_FRAME_SIZE < frame_len buf"

definition size_error :: "bytes \<Rightarrow> string" where
  "size_error buf = ''Frame size '' @ show_nat (frame_len buf) @ '' exceeds maximum allowed ('' @
     show_nat MAX_FRAME_SIZE @ '' bytes)''"

fun server_next_frame :: "bytes \<Rightarrow> byte_stream \<Rightarrow> (string + StreamFrame option) \<times> bytes \<times> byte_stream" where
  "server_next_frame buf [] =
     (if frame_too_large buf then (Inl (size_error buf), buf, [])
      else case split_frame buf of
        Some (f, rest) \<Rightarrow> (Inr (Some f), rest, [])
      | None \<Rightarrow> if buf = [] then (Inr None, buf, []) else (Inl ''Incomplete frame'', buf, []))"
| "server_next_frame buf (c # cs) =
     (if frame_too_large buf then (Inl (size_error buf), buf, c # cs)
      else case split_frame buf of
        Some (f, rest) \<Rightarrow> (Inr (Some f), rest, c # cs)
      | None \<Rightarrow>
          (case c of
             Inl e \<Rightarrow> (Inl e, buf, cs)
           | Inr chunk \<Rightarrow> server_next_frame (buf @ chunk) cs))"

definition frame_bytes :: "u64 \<Rightarrow> bytes \<Rightarrow> bytes option" where
  "frame_bytes counter data =
     (if length data < 2 ^ 32 then Some (be32 (word_of_nat (length data)) @ be64 counter @ data) else None)"

subsection \<open>Sealing and opening a chunk\<close>

definition seal_chunk ::
    "wire_lib \<Rightarrow> hash_lib \<Rightarrow> (AeadError \<Rightarrow> 'e) \<Rightarrow> (AeadError \<Rightarrow> 'e) \<Rightarrow> 'e \<Rightarrow> bytes \<Rightarrow> bytes \<Rightarrow> u64 \<Rightarrow> bytes \<Rightarrow> bytes \<Rightarrow> bytes \<Rightarrow>
     'e + bytes \<times> bytes" where
  "seal_chunk W D key_err seal_err panic key_bytes iv counter aad hash data =
     (if length iv \<noteq> 12 then Inl panic else
      bind_result (map_err key_err (aead_key_new (wl_aead W) Aes256Gcm key_bytes)) (\<lambda>key.
      bind_result (map_err seal_err (seal_in_place (wl_aead W) key (build_aead_nonce counter iv) (aad @ hash) data)) (\<lambda>ct.
      case frame_bytes counter ct of
        None \<Rightarrow> Inl panic
      | Some frame \<Rightarrow> Inr (frame, sha384 D (hash @ ct)))))"

definition open_chunk ::
    "wire_lib \<Rightarrow> hash_lib \<Rightarrow> (AeadError \<Rightarrow> 'e) \<Rightarrow> (AeadError \<Rightarrow> 'e) \<Rightarrow> 'e \<Rightarrow> bytes \<Rightarrow> bytes \<Rightarrow> StreamFrame \<Rightarrow> bytes \<Rightarrow> bytes \<Rightarrow>
     'e + bytes \<times> bytes" where
  "open_chunk W D key_err open_err panic key_bytes iv frame aad hash =
     (if length iv \<noteq> 12 then Inl panic else
      bind_result (map_err key_err (aead_key_new (wl_aead W) Aes256Gcm key_bytes)) (\<lambda>key.
      bind_result (map_err open_err (open_in_place (wl_aead W) key (build_aead_nonce (sf_counter frame) iv) (aad @ hash)
          (sf_ciphertext frame))) (\<lambda>p.
      Inr (p, sha384 D (hash @ sf_ciphertext frame)))))"

definition hash_after :: "bytes \<Rightarrow> 'e + bytes \<times> bytes \<Rightarrow> SessionError + ('e + bytes \<times> bytes) \<Rightarrow> bytes" where
  "hash_after hash closure r =
     (case r of
        Inr (Inr (_, h)) \<Rightarrow> h
      | Inl CounterOverflow \<Rightarrow> (case closure of Inr (_, h) \<Rightarrow> h | Inl _ \<Rightarrow> hash)
      | _ \<Rightarrow> hash)"

subsection \<open>The client\<close>

definition client_seal_chunk ::
    "wire_lib \<Rightarrow> hash_lib \<Rightarrow> bytes \<Rightarrow> AttestSession \<times> bytes \<Rightarrow> time \<times> bytes option \<times> (string + bytes) \<Rightarrow>
     (client_msg + bytes) \<times> AttestSession \<times> bytes" where
  "client_seal_chunk W D aad st x =
     (case (st, x) of ((s, hash), (now, rand_nonce, chunk_res)) \<Rightarrow>
        (case chunk_res of
           Inl e \<Rightarrow> (Inl (Msg e), s, hash)
         | Inr chunk \<Rightarrow>
             (case rand_nonce of
                None \<Rightarrow> (Inl (Msg ''RNG failure''), s, hash)
              | Some nonce_bytes \<Rightarrow>
                  (let closure = (\<lambda>ks counter. seal_chunk W D KeySetup EncryptionFailed (Msg ''panic'')
                         (client_write_key ks) (client_write_iv ks) counter aad hash chunk);
                       res = with_keys_for_trr s now (u64_of_be nonce_bytes) closure;
                       hash' = hash_after hash (closure (keys s) (client_counter s)) (fst res)
                   in case res of
                        (Inr (Inr (frame, _)), s') \<Rightarrow> (Inr frame, s', hash')
                      | (Inr (Inl e), s') \<Rightarrow> (Inl e, s', hash')
                      | (Inl e, s') \<Rightarrow> (Inl (SessionMsg e), s', hash')))))"

fun client_seal_stream ::
    "wire_lib \<Rightarrow> hash_lib \<Rightarrow> bytes \<Rightarrow> AttestSession \<times> bytes \<Rightarrow> (time \<times> bytes option \<times> (string + bytes)) list \<Rightarrow>
     (client_msg + bytes) list \<times> AttestSession \<times> bytes" where
  "client_seal_stream W D aad st [] = ([], st)"
| "client_seal_stream W D aad st (x # xs) =
     (case client_seal_chunk W D aad st x of
        (r, st') \<Rightarrow> (case client_seal_stream W D aad st' xs of (rs, st'') \<Rightarrow> (r # rs, st'')))"

record 's stream_state =
  ss_buffer :: bytes
  ss_chunks :: byte_stream
  ss_session :: 's
  ss_hash :: bytes

definition client_stream_poll ::
    "wire_lib \<Rightarrow> hash_lib \<Rightarrow> bytes \<Rightarrow> AttestSession stream_state \<Rightarrow> time \<Rightarrow>
     (ClientError + bytes) option \<times> AttestSession stream_state" where
  "client_stream_poll W D aad st now =
     (case client_next_frame (ss_buffer st) (ss_chunks st) of
        (Inr None, buf, cs) \<Rightarrow> (None, st\<lparr>ss_buffer := buf, ss_chunks := cs\<rparr>)
      | (Inl e, buf, cs) \<Rightarrow> (Some (Inl e), st\<lparr>ss_buffer := buf, ss_chunks := cs\<rparr>)
      | (Inr (Some frame), buf, cs) \<Rightarrow>
          (let st1 = st\<lparr>ss_buffer := buf, ss_chunks := cs\<rparr>
           in case with_keys_for_trs (ss_session st) now (\<lambda>ks _. open_chunk W D (\<lambda>e. ClientHandshake (KeySetup e))
                     (\<lambda>e. ClientHandshake (DecryptionFailed e)) ClientPanic (server_write_key ks) (server_write_iv ks)
                     frame aad (ss_hash st)) of
                (Inr (Inr (p, h)), s') \<Rightarrow> (Some (Inr p), st1\<lparr>ss_session := s', ss_hash := h\<rparr>)
              | (Inr (Inl e), s') \<Rightarrow> (Some (Inl e), st1\<lparr>ss_session := s'\<rparr>)
              | (Inl e, s') \<Rightarrow> (Some (Inl (ClientHandshake (SessionMsg e))), st1\<lparr>ss_session := s'\<rparr>)))"

subsection \<open>The server\<close>

datatype LlmError = LlmTransport client_msg

definition seal_stream_item ::
    "wire_lib \<Rightarrow> hash_lib \<Rightarrow> ('v \<Rightarrow> string + bytes) \<Rightarrow> bytes \<Rightarrow> AttestSession \<times> bytes \<Rightarrow> time \<times> (string + 'v) \<Rightarrow>
     (string + bytes) \<times> AttestSession \<times> bytes" where
  "seal_stream_item W D to_json aad st x =
     (case (st, x) of ((t, hash), (now, item)) \<Rightarrow>
        (case bind_result item to_json of
           Inl e \<Rightarrow> (Inl e, t, hash)
         | Inr plaintext \<Rightarrow>
             (let closure = (\<lambda>ks counter. seal_chunk W D (\<lambda>_. LlmTransport (Msg ''Key setup failed''))
                    (\<lambda>_. LlmTransport (Msg ''Encryption failed'')) (LlmTransport (Msg ''panic''))
                    (server_write_key ks) (server_write_iv ks) counter aad hash plaintext);
                  res = with_keys_for_trs t now closure;
                  hash' = hash_after hash (closure (keys t) (server_counter t)) (fst res)
              in case res of
                   (Inr (Inr (frame, _)), t') \<Rightarrow> (Inr frame, t', hash')
                 | (_, t') \<Rightarrow> (Inl ''Seal fail'', t', hash'))))"

fun seal_stream ::
    "wire_lib \<Rightarrow> hash_lib \<Rightarrow> ('v \<Rightarrow> string + bytes) \<Rightarrow> bytes \<Rightarrow> AttestSession \<times> bytes \<Rightarrow> (time \<times> (string + 'v)) list \<Rightarrow>
     (string + bytes) list \<times> AttestSession \<times> bytes" where
  "seal_stream W D to_json aad st [] = ([], st)"
| "seal_stream W D to_json aad st (x # xs) =
     (case seal_stream_item W D to_json aad st x of
        (r, st') \<Rightarrow> (case seal_stream W D to_json aad st' xs of (rs, st'') \<Rightarrow> (r # rs, st'')))"

definition server_stream_poll ::
    "wire_lib \<Rightarrow> hash_lib \<Rightarrow> bytes \<Rightarrow> AttestSession stream_state \<Rightarrow> time \<Rightarrow>
     (LlmError + bytes) option \<times> AttestSession stream_state" where
  "server_stream_poll W D aad st now =
     (case server_next_frame (ss_buffer st) (ss_chunks st) of
        (Inr None, buf, cs) \<Rightarrow> (None, st\<lparr>ss_buffer := buf, ss_chunks := cs\<rparr>)
      | (Inl e, buf, cs) \<Rightarrow> (Some (Inl (LlmTransport (Msg e))), st\<lparr>ss_buffer := buf, ss_chunks := cs\<rparr>)
      | (Inr (Some frame), buf, cs) \<Rightarrow>
          (let st1 = st\<lparr>ss_buffer := buf, ss_chunks := cs\<rparr>
           in case with_keys_for_trr (ss_session st) now (sf_counter frame) (\<lambda>ks _. open_chunk W D
                     (\<lambda>e. LlmTransport (KeySetup e)) (\<lambda>e. LlmTransport (DecryptionFailed e)) (LlmTransport (Msg ''panic''))
                     (client_write_key ks) (client_write_iv ks) frame aad (ss_hash st)) of
                (Inr (Inr (p, h)), s') \<Rightarrow> (Some (Inr p), st1\<lparr>ss_session := s', ss_hash := h\<rparr>)
              | (Inr (Inl e), s') \<Rightarrow> (Some (Inl e), st1\<lparr>ss_session := s'\<rparr>)
              | (Inl e, s') \<Rightarrow> (Some (Inl (LlmTransport (SessionMsg e))), st1\<lparr>ss_session := s'\<rparr>)))"

text \<open>Polling a stream at successive clock readings until it ends.\<close>

fun poll_stream :: "('st \<Rightarrow> time \<Rightarrow> 'a option \<times> 'st) \<Rightarrow> 'st \<Rightarrow> time list \<Rightarrow> 'a list \<times> 'st" where
  "poll_stream poll st [] = ([], st)"
| "poll_stream poll st (now # ns) =
     (case poll st now of
        (None, st') \<Rightarrow> ([], st')
      | (Some r, st') \<Rightarrow> (case poll_stream poll st' ns of (rs, st'') \<Rightarrow> (r # rs, st'')))"

subsection \<open>Readers do not see chunk boundaries\<close>

lemma split_frame_append: "split_frame b = Some (f, r) \<Longrightarrow> split_frame (b @ c) = Some (f, r @ c)"
  by (auto simp: split_frame_def frame_len_def Let_def split: if_splits)

lemma split_frame_frame_bytes:
  assumes "frame_bytes c ct = Some fr"
  shows "split_frame (fr @ r) = Some (\<lparr>sf_counter = c, sf_ciphertext = ct\<rparr>, r)" "frame_len (fr @ r) = length ct"
proof -
  from assms have fr: "fr = be32 (word_of_nat (length ct)) @ be64 c @ ct" and l: "length ct < 2 ^ 32"
    by (auto simp: frame_bytes_def split: if_splits)
  have "unat (word_of_nat (length ct) :: u32) = length ct" using l by (simp add: unat_of_nat)
  then show "frame_len (fr @ r) = length ct" by (simp add: frame_len_def fr)
  then show "split_frame (fr @ r) = Some (\<lparr>sf_counter = c, sf_ciphertext = ct\<rparr>, r)"
    by (simp add: split_frame_def Let_def) (simp add: fr)
qed

lemma split_frame_shorter: "split_frame b = Some (f, r) \<Longrightarrow> length r < length b"
  by (auto simp: split_frame_def Let_def split: if_splits)

lemma split_frame_Nil [simp]: "split_frame [] = None"
  by (simp add: split_frame_def)

text \<open>
  The contract both readers share: on a byte sequence that is admissible for the reader, the next frame
  is the one at the front of the concatenation of the buffer and all chunks to come.
\<close>

locale frame_reader =
  fixes next_frame :: "bytes \<Rightarrow> byte_stream \<Rightarrow> ('e + StreamFrame option) \<times> bytes \<times> byte_stream"
    and admissible :: "bytes \<Rightarrow> bool" and incomplete :: 'e
  assumes frame: "admissible (buf @ concat cs) \<Longrightarrow> split_frame (buf @ concat cs) = Some (f, r) \<Longrightarrow>
      \<exists>buf' cs'. next_frame buf (map Inr cs) = (Inr (Some f), buf', map Inr cs') \<and> buf' @ concat cs' = r"
    and no_frame: "admissible (buf @ concat cs) \<Longrightarrow> split_frame (buf @ concat cs) = None \<Longrightarrow>
      next_frame buf (map Inr cs) =
        (if buf @ concat cs = [] then Inr None else Inl incomplete, buf @ concat cs, [])"
    and rest: "admissible b \<Longrightarrow> split_frame b = Some (f, r) \<Longrightarrow> admissible r"

text \<open>All frames of a stream, and how it ends: \<open>None\<close> for a clean end.\<close>

primrec read_frames ::
    "(bytes \<Rightarrow> byte_stream \<Rightarrow> ('e + StreamFrame option) \<times> bytes \<times> byte_stream) \<Rightarrow> nat \<Rightarrow> bytes \<Rightarrow> byte_stream \<Rightarrow>
     StreamFrame list \<times> 'e option" where
  "read_frames nf 0 buf cs = ([], None)"
| "read_frames nf (Suc n) buf cs =
     (case nf buf cs of
        (Inr None, _) \<Rightarrow> ([], None)
      | (Inl e, _) \<Rightarrow> ([], Some e)
      | (Inr (Some f), buf', cs') \<Rightarrow> (case read_frames nf n buf' cs' of (fs, e) \<Rightarrow> (f # fs, e)))"

function parse_frames :: "bytes \<Rightarrow> StreamFrame list \<times> bytes" where
  "parse_frames b = (case split_frame b of None \<Rightarrow> ([], b) | Some (f, r) \<Rightarrow> (case parse_frames r of (fs, e) \<Rightarrow> (f # fs, e)))"
  by pat_completeness auto
termination
  by (relation "measure length") (auto simp: split_frame_shorter)

declare parse_frames.simps [simp del]

context frame_reader
begin

lemma read_frames_parse:
  assumes "admissible (buf @ concat cs)" "length (buf @ concat cs) < n"
  shows "read_frames next_frame n buf (map Inr cs) =
    (fst (parse_frames (buf @ concat cs)), if snd (parse_frames (buf @ concat cs)) = [] then None else Some incomplete)"
  using assms
proof (induction n arbitrary: buf cs)
  case (Suc n)
  show ?case
  proof (cases "split_frame (buf @ concat cs)")
    case None
    then show ?thesis
      using no_frame [OF Suc.prems(1)] by (simp add: parse_frames.simps [of "buf @ concat cs"])
  next
    case (Some fr)
    obtain f r where fr: "fr = (f, r)" by fastforce
    obtain buf' cs' where st: "next_frame buf (map Inr cs) = (Inr (Some f), buf', map Inr cs')" "buf' @ concat cs' = r"
      using frame [OF Suc.prems(1)] Some fr by blast
    have "admissible (buf' @ concat cs')" using rest [OF Suc.prems(1)] Some fr st(2) by simp
    moreover have "length (buf' @ concat cs') < n" using split_frame_shorter [of "buf @ concat cs"] Some fr st(2) Suc.prems(2) by simp
    ultimately have "read_frames next_frame n buf' (map Inr cs') =
        (fst (parse_frames r), if snd (parse_frames r) = [] then None else Some incomplete)"
      using Suc.IH [of buf' cs'] st(2) by simp
    then show ?thesis
      using Some fr st by (simp add: parse_frames.simps [of "buf @ concat cs"] split: prod.split)
  qed
qed simp

end

lemma client_reader_frame:
  assumes "split_frame (buf @ concat cs) = Some (f, r)"
  shows "\<exists>buf' cs'. client_next_frame buf (map Inr cs) = (Inr (Some f), buf', map Inr cs') \<and> buf' @ concat cs' = r"
  using assms
proof (induction cs arbitrary: buf)
  case (Cons c cs)
  show ?case
  proof (cases "split_frame buf")
    case None
    with Cons show ?thesis by simp
  next
    case (Some x)
    then obtain f' r' where x: "split_frame buf = Some (f', r')" by (metis surj_pair)
    from split_frame_append [OF this, of "concat (c # cs)"] Cons.prems
    have "f' = f" "r' @ concat (c # cs) = r" by simp_all
    with x show ?thesis by (intro exI [of _ r'] exI [of _ "c # cs"]) simp
  qed
qed simp

lemma client_reader_no_frame:
  assumes "split_frame (buf @ concat cs) = None"
  shows "client_next_frame buf (map Inr cs) =
     (if buf @ concat cs = [] then Inr None else Inl (ClientTransport (Msg ''Incomplete frame at end of stream'')), buf @ concat cs, [])"
  using assms
proof (induction cs arbitrary: buf)
  case (Cons c cs)
  have "split_frame buf = None"
    using Cons.prems split_frame_append [of buf _ _ "concat (c # cs)"] by (cases "split_frame buf") auto
  with Cons show ?case by simp
qed simp

interpretation client_reader: frame_reader client_next_frame "\<lambda>_. True" "ClientTransport (Msg ''Incomplete frame at end of stream'')"
  using client_reader_frame client_reader_no_frame by unfold_locales blast+

function within_limit :: "bytes \<Rightarrow> bool" where
  "within_limit b \<longleftrightarrow>
     \<not> frame_too_large b \<and> (case split_frame b of None \<Rightarrow> True | Some (f, r) \<Rightarrow> within_limit r)"
  by pat_completeness auto
termination
  by (relation "measure length") (auto simp: split_frame_shorter)

declare within_limit.simps [simp del]

lemma frame_too_large_append: "\<not> frame_too_large (b @ c) \<Longrightarrow> \<not> frame_too_large b"
  by (auto simp: frame_too_large_def frame_len_def)

lemma server_reader_frame:
  assumes "\<not> frame_too_large (buf @ concat cs)" "split_frame (buf @ concat cs) = Some (f, r)"
  shows "\<exists>buf' cs'. server_next_frame buf (map Inr cs) = (Inr (Some f), buf', map Inr cs') \<and> buf' @ concat cs' = r"
  using assms
proof (induction cs arbitrary: buf)
  case (Cons c cs)
  note small = frame_too_large_append [OF Cons.prems(1)]
  show ?case
  proof (cases "split_frame buf")
    case None
    with Cons small show ?thesis by simp
  next
    case (Some x)
    then obtain f' r' where x: "split_frame buf = Some (f', r')" by (metis surj_pair)
    from split_frame_append [OF this, of "concat (c # cs)"] Cons.prems(2)
    have "f' = f" "r' @ concat (c # cs) = r" by simp_all
    with x small show ?thesis by (intro exI [of _ r'] exI [of _ "c # cs"]) simp
  qed
qed simp

lemma server_reader_no_frame:
  assumes "\<not> frame_too_large (buf @ concat cs)" "split_frame (buf @ concat cs) = None"
  shows "server_next_frame buf (map Inr cs) =
     (if buf @ concat cs = [] then Inr None else Inl ''Incomplete frame'', buf @ concat cs, [])"
  using assms
proof (induction cs arbitrary: buf)
  case (Cons c cs)
  have "split_frame buf = None"
    using Cons.prems split_frame_append [of buf _ _ "concat (c # cs)"] by (cases "split_frame buf") auto
  with Cons frame_too_large_append [OF Cons.prems(1)] show ?case by simp
qed simp

interpretation server_reader: frame_reader server_next_frame within_limit "''Incomplete frame''"
proof
  fix buf cs f r assume "within_limit (buf @ concat cs)" "split_frame (buf @ concat cs) = Some (f, r)"
  then show "\<exists>buf' cs'. server_next_frame buf (map Inr cs) = (Inr (Some f), buf', map Inr cs') \<and> buf' @ concat cs' = r"
    using server_reader_frame by (simp add: within_limit.simps [of "buf @ concat cs"])
next
  fix buf cs assume "within_limit (buf @ concat cs)" "split_frame (buf @ concat cs) = None"
  then show "server_next_frame buf (map Inr cs) =
      (if buf @ concat cs = [] then Inr None else Inl ''Incomplete frame'', buf @ concat cs, [])"
    using server_reader_no_frame by (simp add: within_limit.simps [of "buf @ concat cs"])
next
  fix b f r assume "within_limit b" "split_frame b = Some (f, r)"
  then show "within_limit r" by (simp add: within_limit.simps [of b])
qed

lemma parse_frame_bytes:
  "list_all2 (\<lambda>f b. frame_bytes (sf_counter f) (sf_ciphertext f) = Some b) fs bs \<Longrightarrow> parse_frames (concat bs) = (fs, [])"
proof (induction fs bs rule: list_all2_induct)
  case Nil
  show ?case by (simp add: parse_frames.simps)
next
  case (Cons f fs b bs)
  then show ?case
    using split_frame_frame_bytes(1) [of "sf_counter f" "sf_ciphertext f" b "concat bs"]
    by (simp add: parse_frames.simps [of "b @ concat bs"])
qed

lemma within_limit_frame_bytes:
  "list_all2 (\<lambda>f b. frame_bytes (sf_counter f) (sf_ciphertext f) = Some b) fs bs \<Longrightarrow>
   \<forall>f\<in>set fs. length (sf_ciphertext f) \<le> MAX_FRAME_SIZE \<Longrightarrow> within_limit (concat bs)"
proof (induction fs bs rule: list_all2_induct)
  case Nil
  show ?case by (simp add: within_limit.simps frame_too_large_def)
next
  case (Cons f fs b bs)
  then show ?case
    using split_frame_frame_bytes [of "sf_counter f" "sf_ciphertext f" b "concat bs"]
    by (simp add: within_limit.simps [of "b @ concat bs"] frame_too_large_def)
qed

text \<open>
  C22. Framing is independent of the transport. However a stream of frames is cut into chunks, the client's
  reader returns exactly the frames that were written and then a clean end; the server's reader
  does so when no frame exceeds 16 MiB. More generally both readers, on every stream without transport
  errors, return what a parser of the whole concatenation returns, and end with the incomplete-frame
  error exactly when bytes are left over.
\<close>
theorem framing_independent_of_chunks:
  assumes "list_all2 (\<lambda>f b. frame_bytes (sf_counter f) (sf_ciphertext f) = Some b) fs bs" and "concat cs = concat bs"
    and "length (concat cs) < n"
  shows "read_frames client_next_frame n [] (map Inr cs) = (fs, None) \<and>
         ((\<forall>f\<in>set fs. length (sf_ciphertext f) \<le> MAX_FRAME_SIZE) \<longrightarrow>
            read_frames server_next_frame n [] (map Inr cs) = (fs, None)) \<and>
         (\<forall>xs m. length (concat xs) < m \<longrightarrow>
            read_frames client_next_frame m [] (map Inr xs) =
              (fst (parse_frames (concat xs)),
               if snd (parse_frames (concat xs)) = [] then None
               else Some (ClientTransport (Msg ''Incomplete frame at end of stream''))) \<and>
            (within_limit (concat xs) \<longrightarrow>
             read_frames server_next_frame m [] (map Inr xs) =
               (fst (parse_frames (concat xs)), if snd (parse_frames (concat xs)) = [] then None else Some ''Incomplete frame'')))"
  using client_reader.read_frames_parse [of "[]"] server_reader.read_frames_parse [of "[]"] assms(2,3)
    parse_frame_bytes [OF assms(1)] within_limit_frame_bytes [OF assms(1)]
  by simp

theorem framing_independent_of_chunks_witness:
  "read_frames client_next_frame 100 [] [Inr [0, 0], Inr [0, 1, 0, 0, 0, 0, 0], Inr [0, 0, 7, 42]] =
     ([\<lparr>sf_counter = 7, sf_ciphertext = [42]\<rparr>], None)"
proof -
  let ?b = "[0, 0, 0, 1, 0, 0, 0, 0, 0, 0, 0, 7, 42] :: bytes"
  have f: "frame_bytes 7 [42] = Some ?b"
  proof -
    have "be32 (word_of_nat (length [42 :: byte])) @ be64 7 @ [42] = ?b" by code_simp
    then show ?thesis by (simp add: frame_bytes_def)
  qed
  then have "list_all2 (\<lambda>f b. frame_bytes (sf_counter f) (sf_ciphertext f) = Some b)
      [\<lparr>sf_counter = 7, sf_ciphertext = [42]\<rparr>] [?b]" by simp
  then have "read_frames client_next_frame 100 [] (map Inr [[0, 0], [0, 1, 0, 0, 0, 0, 0], [0, 0, 7, 42]]) =
      ([\<lparr>sf_counter = 7, sf_ciphertext = [42]\<rparr>], None)"
    by (rule framing_independent_of_chunks [THEN conjunct1]) simp_all
  then show ?thesis by (simp only: list.map)
qed

subsection \<open>What the server buffers\<close>

text \<open>
  C36. The server's reader buffers a bounded amount: when no chunk is longer than \<open>k\<close>, its buffer never grows
  beyond the largest frame with its 12-byte header plus one chunk, whatever lengths the peer announces.
\<close>
theorem server_buffer_bounded:
  assumes "length buf \<le> 12 + MAX_FRAME_SIZE + k" and "\<forall>c. Inr c \<in> set cs \<longrightarrow> length c \<le> k"
    and "server_next_frame buf cs = (r, buf', cs')"
  shows "length buf' \<le> 12 + MAX_FRAME_SIZE + k \<and> (\<forall>c. Inr c \<in> set cs' \<longrightarrow> length c \<le> k)"
  using assms
proof (induction cs arbitrary: buf)
  case Nil
  then have "cs' = [] \<and> (buf' = buf \<or> (\<exists>f. split_frame buf = Some (f, buf')))"
    by (auto split: if_splits option.splits)
  then show ?case using Nil.prems(1) split_frame_shorter [of buf] by fastforce
next
  case (Cons c cs)
  show ?case
  proof (cases "frame_too_large buf \<or> split_frame buf \<noteq> None \<or> isl c")
    case True
    with Cons.prems(3) have "set cs' \<subseteq> set (c # cs) \<and> (buf' = buf \<or> (\<exists>f. split_frame buf = Some (f, buf')))"
      by (cases c) (auto split: if_splits option.splits)
    then show ?thesis
      using Cons.prems(1,2) split_frame_shorter [of buf] by fastforce
  next
    case False
    then obtain d where d: "c = Inr d" by (cases c) auto
    have "length buf < 12 + MAX_FRAME_SIZE"
      using False by (auto simp: frame_too_large_def split_frame_def Let_def MAX_FRAME_SIZE_def split: if_splits)
    moreover have "length d \<le> k" using Cons.prems(2) d by simp
    ultimately have "length (buf @ d) \<le> 12 + MAX_FRAME_SIZE + k" by simp
    moreover have "\<not> frame_too_large buf" "split_frame buf = None" using False by (simp, blast)
    ultimately show ?thesis using Cons.IH [of "buf @ d"] Cons.prems(2,3) d by simp
  qed
qed

theorem server_buffer_bounded_witness:
  "length ([] :: bytes) \<le> 12 + MAX_FRAME_SIZE + 2 \<and>
   (\<exists>r buf' cs'. server_next_frame [] [Inr [0, 255], Inr [0, 0], Inr [1, 1]] = (r, buf', cs') \<and>
      length buf' \<le> 12 + MAX_FRAME_SIZE + 2)"
proof -
  let ?cs = "[Inr [0, 255], Inr [0, 0], Inr [1, 1]] :: byte_stream"
  obtain r buf' cs' where x: "server_next_frame [] ?cs = (r, buf', cs')" by (metis prod_cases3)
  moreover have "length buf' \<le> 12 + MAX_FRAME_SIZE + 2"
    using server_buffer_bounded [of "[]" 2 ?cs, OF _ _ x] by simp
  ultimately show ?thesis by (metis le0 list.size(3))
qed

subsection \<open>Streamed responses are recovered\<close>

lemma seal_chunk_Inr:
  assumes "seal_chunk W D ke se pa key iv c aad hash data = Inr (fr, h)"
  obtains ct where "length iv = 12" "aead_key_new (wl_aead W) Aes256Gcm key = Inr \<lparr>raw = key, algorithm = Aes256Gcm\<rparr>"
    "seal_in_place (wl_aead W) \<lparr>raw = key, algorithm = Aes256Gcm\<rparr> (build_aead_nonce c iv) (aad @ hash) data = Inr ct"
    "frame_bytes c ct = Some fr" "h = sha384 D (hash @ ct)"
  using assms
  by (auto simp: seal_chunk_def bind_result_Inr_iff aead_key_new_def split: if_splits option.splits)

text \<open>What one side seals as a chunk, the other side opens to the same data and the same running hash.\<close>

lemma open_sealed_chunk:
  assumes "aead_correct (wl_aead W)" "seal_chunk W D ke se pa key iv c aad hash data = Inr (fr, h)"
  obtains ct where "split_frame (fr @ r) = Some (\<lparr>sf_counter = c, sf_ciphertext = ct\<rparr>, r)" "frame_bytes c ct = Some fr"
    "open_chunk W D ke' se' pa' key iv \<lparr>sf_counter = c, sf_ciphertext = ct\<rparr> aad hash = Inr (data, h)"
proof -
  from assms(2) obtain ct where k: "length iv = 12" "aead_key_new (wl_aead W) Aes256Gcm key = Inr \<lparr>raw = key, algorithm = Aes256Gcm\<rparr>"
    "seal_in_place (wl_aead W) \<lparr>raw = key, algorithm = Aes256Gcm\<rparr> (build_aead_nonce c iv) (aad @ hash) data = Inr ct"
    "frame_bytes c ct = Some fr" "h = sha384 D (hash @ ct)"
    by (rule seal_chunk_Inr)
  from aead_seal_open [OF assms(1) k(3)] k(1,2,5)
  have "open_chunk W D ke' se' pa' key iv \<lparr>sf_counter = c, sf_ciphertext = ct\<rparr> aad hash = Inr (data, h)"
    by (simp add: open_chunk_def)
  with split_frame_frame_bytes(1) [OF k(4)] k(4) show thesis by (intro that)
qed

lemma seal_stream_item_Inr:
  assumes "seal_stream_item W D to_json aad (t, hash) (now, item) = (Inr fr, t', h')"
  obtains v p where "item = Inr v" "to_json v = Inr p"
    "seal_chunk W D (\<lambda>_. LlmTransport (Msg ''Key setup failed'')) (\<lambda>_. LlmTransport (Msg ''Encryption failed''))
       (LlmTransport (Msg ''panic'')) (server_write_key (keys t)) (server_write_iv (keys t)) (server_counter t) aad hash p =
     Inr (fr, h')"
    "t' = t\<lparr>server_counter := server_counter t + 1\<rparr>" "server_counter t \<noteq> - 1"
proof -
  obtain v p where v: "item = Inr v" "to_json v = Inr p"
    using assms by (cases item; cases "bind_result item to_json") (auto simp: seal_stream_item_def)
  let ?f = "\<lambda>ks counter. seal_chunk W D (\<lambda>_. LlmTransport (Msg ''Key setup failed'')) (\<lambda>_. LlmTransport (Msg ''Encryption failed''))
       (LlmTransport (Msg ''panic'')) (server_write_key ks) (server_write_iv ks) counter aad hash p"
  obtain r t1 where w: "with_keys_for_trs t now ?f = (r, t1)" by fastforce
  obtain h where r: "r = Inr (Inr (fr, h))" "t1 = t'" "h = h'"
    using assms v w by (auto simp: seal_stream_item_def hash_after_def split: sum.splits)
  from trs_Inr [OF w [unfolded r]] show thesis using v r by (intro that) simp_all
qed

lemma client_poll_sealed:
  assumes "aead_correct (wl_aead W)" "seal_stream_item W D to_json aad (t, hash) (now, item) = (Inr fr, t', h')"
    and "keys (ss_session st) = keys t" "ss_hash st = hash" "is_alive (ss_session st) now'" "server_counter (ss_session st) \<noteq> - 1"
    and "ss_chunks st = map Inr cs" "ss_buffer st @ concat cs = fr @ r"
  obtains p buf' cs' where "bind_result item to_json = Inr p"
    "client_stream_poll W D aad st now' =
       (Some (Inr p), st\<lparr>ss_buffer := buf', ss_chunks := map Inr cs',
          ss_session := (ss_session st)\<lparr>server_counter := server_counter (ss_session st) + 1\<rparr>, ss_hash := h'\<rparr>)"
    "buf' @ concat cs' = r"
proof -
  obtain v p where v: "item = Inr v" "to_json v = Inr p"
    "seal_chunk W D (\<lambda>_. LlmTransport (Msg ''Key setup failed'')) (\<lambda>_. LlmTransport (Msg ''Encryption failed''))
       (LlmTransport (Msg ''panic'')) (server_write_key (keys t)) (server_write_iv (keys t)) (server_counter t) aad hash p =
     Inr (fr, h')" "t' = t\<lparr>server_counter := server_counter t + 1\<rparr>" "server_counter t \<noteq> - 1"
    by (rule seal_stream_item_Inr [OF assms(2)])
  obtain ct where ct: "split_frame (fr @ r) = Some (\<lparr>sf_counter = server_counter t, sf_ciphertext = ct\<rparr>, r)"
    "open_chunk W D (\<lambda>e. ClientHandshake (KeySetup e)) (\<lambda>e. ClientHandshake (DecryptionFailed e)) ClientPanic
       (server_write_key (keys t)) (server_write_iv (keys t)) \<lparr>sf_counter = server_counter t, sf_ciphertext = ct\<rparr> aad hash = Inr (p, h')"
    by (rule open_sealed_chunk [OF assms(1) v(3)])
  obtain buf' cs' where nf: "client_next_frame (ss_buffer st) (map Inr cs) =
      (Inr (Some \<lparr>sf_counter = server_counter t, sf_ciphertext = ct\<rparr>), buf', map Inr cs')" "buf' @ concat cs' = r"
    using client_reader_frame [of "ss_buffer st" cs] ct(1) assms(8) by auto
  have "client_stream_poll W D aad st now' =
       (Some (Inr p), st\<lparr>ss_buffer := buf', ss_chunks := map Inr cs',
          ss_session := (ss_session st)\<lparr>server_counter := server_counter (ss_session st) + 1\<rparr>, ss_hash := h'\<rparr>)"
    using assms(3-7) nf(1) ct(2) by (simp add: client_stream_poll_def trs_in_step)
  with v nf(2) show thesis by (intro that) simp_all
qed

lemma unat_succ_less: "c \<noteq> - 1 \<Longrightarrow> unat (c + 1 :: u64) = Suc (unat c)"
  by (simp add: unat_Suc_word)

lemma unat_max_u64: "unat (- 1 :: u64) = 2 ^ 64 - 1"
  by (simp add: unsigned_minus_1_eq_mask mask_eq_exp_minus_1)

lemma seal_stream_Cons:
  assumes "seal_stream W D to_json aad st (x # xs) = (map Inr frames, e)"
  obtains fr frames' t' h' where "frames = fr # frames'" "seal_stream_item W D to_json aad st x = (Inr fr, t', h')"
    "seal_stream W D to_json aad (t', h') xs = (map Inr frames', e)"
proof -
  obtain r t' h' where i: "seal_stream_item W D to_json aad st x = (r, t', h')" by (metis prod_cases3)
  obtain rs e' where j: "seal_stream W D to_json aad (t', h') xs = (rs, e')" by (metis surj_pair)
  have "r # rs = map Inr frames" "e' = e" using assms i j by simp_all
  then obtain fr frames' where "frames = fr # frames'" "r = Inr fr" "rs = map Inr frames'" by (cases frames) auto
  with i j \<open>e' = e\<close> show thesis by (intro that) simp_all
qed

lemma seal_stream_length: "seal_stream W D to_json aad st xs = (rs, e) \<Longrightarrow> length rs = length xs"
  by (induction xs arbitrary: st rs) (auto split: prod.splits)

lemma seal_stream_take:
  "seal_stream W D to_json aad st xs = (rs, e) \<Longrightarrow> \<exists>e'. seal_stream W D to_json aad st (take k xs) = (take k rs, e')"
proof (induction xs arbitrary: st rs k)
  case (Cons x xs)
  obtain r st' where i: "seal_stream_item W D to_json aad st x = (r, st')" by (metis surj_pair)
  obtain rs' where j: "seal_stream W D to_json aad st' xs = (rs', e)" "rs = r # rs'"
    using Cons.prems i by (auto split: prod.splits)
  show ?case
  proof (cases k)
    case (Suc m)
    from Cons.IH [OF j(1), of m] obtain e' where "seal_stream W D to_json aad st' (take m xs) = (take m rs', e')" ..
    with i j Suc show ?thesis by simp
  qed simp
qed simp

lemma seal_stream_counter:
  assumes "seal_stream W D to_json aad (t, hash) xs = (map Inr frames, t', h')"
  shows "unat (server_counter t) + length frames < 2 ^ 64 \<and>
         t' = t\<lparr>server_counter := server_counter t + of_nat (length frames)\<rparr>"
  using assms
proof (induction xs arbitrary: t hash frames)
  case Nil
  then show ?case using unat_less_64 [of "server_counter t"] by simp
next
  case (Cons x xs)
  obtain fr frames' t1 h1 where c: "frames = fr # frames'" "seal_stream_item W D to_json aad (t, hash) x = (Inr fr, t1, h1)"
    "seal_stream W D to_json aad (t1, h1) xs = (map Inr frames', t', h')"
    by (rule seal_stream_Cons [OF Cons.prems])
  obtain now item where x: "x = (now, item)" by fastforce
  have t1: "t1 = t\<lparr>server_counter := server_counter t + 1\<rparr>" "server_counter t \<noteq> - 1"
    using c(2) x by (auto elim: seal_stream_item_Inr)
  from Cons.IH [OF c(3)] t1 c(1) show ?case by (simp add: unat_succ_less add.assoc)
qed

lemma client_stream_recovers:
  assumes "aead_correct (wl_aead W)" "seal_stream W D to_json aad (t, hash) xs = (map Inr frames, e)"
    and "keys (ss_session st) = keys t" "ss_hash st = hash" "ss_chunks st = map Inr cs" "ss_buffer st @ concat cs = concat frames"
    and "\<forall>now\<in>set ns. is_alive (ss_session st) now" "unat (server_counter (ss_session st)) + length frames < 2 ^ 64"
    and "length frames < length ns"
  shows "\<exists>ps st'. map (\<lambda>(_, item). bind_result item to_json) xs = map Inr ps \<and>
           poll_stream (client_stream_poll W D aad) st ns = (map Inr ps, st') \<and>
           ss_session st' = (ss_session st)\<lparr>server_counter := server_counter (ss_session st) + of_nat (length frames)\<rparr>"
  using assms(2-9)
proof (induction xs arbitrary: t hash frames st cs ns)
  case Nil
  obtain now ns' where ns: "ns = now # ns'" using Nil.prems(8) by (cases ns) auto
  have z: "ss_buffer st @ concat cs = []" "frames = []" using Nil.prems(1,5) by auto
  have "client_next_frame (ss_buffer st) (map Inr cs) = (Inr None, [], [])"
    using client_reader_no_frame [of "ss_buffer st" cs] z(1) by simp
  then show ?case using ns z(2) Nil.prems(4) by (simp add: client_stream_poll_def)
next
  case (Cons x xs)
  obtain fr frames' t1 h1 where c: "frames = fr # frames'" "seal_stream_item W D to_json aad (t, hash) x = (Inr fr, t1, h1)"
    "seal_stream W D to_json aad (t1, h1) xs = (map Inr frames', e)"
    by (rule seal_stream_Cons [OF Cons.prems(1)])
  obtain time item where x: "x = (time, item)" by fastforce
  obtain now ns' where ns: "ns = now # ns'" using Cons.prems(8) by (cases ns) auto
  let ?s = "ss_session st"
  have sc: "server_counter ?s \<noteq> - 1" using Cons.prems(7) c(1) unat_max_u64 by auto
  have al: "is_alive ?s now" using Cons.prems(6) ns by simp
  have b: "ss_buffer st @ concat cs = fr @ concat frames'" using Cons.prems(5) c(1) by simp
  obtain p buf' cs' where p: "bind_result item to_json = Inr p"
    "client_stream_poll W D aad st now =
       (Some (Inr p), st\<lparr>ss_buffer := buf', ss_chunks := map Inr cs',
          ss_session := ?s\<lparr>server_counter := server_counter ?s + 1\<rparr>, ss_hash := h1\<rparr>)"
    "buf' @ concat cs' = concat frames'"
    by (rule client_poll_sealed [OF assms(1) c(2) [unfolded x] Cons.prems(2,3) al sc Cons.prems(4) b])
  let ?st = "st\<lparr>ss_buffer := buf', ss_chunks := map Inr cs',
          ss_session := ?s\<lparr>server_counter := server_counter ?s + 1\<rparr>, ss_hash := h1\<rparr>"
  have "keys t1 = keys t" using c(2) x by (auto elim: seal_stream_item_Inr)
  then obtain ps st' where r: "map (\<lambda>(_, item). bind_result item to_json) xs = map Inr ps"
    "poll_stream (client_stream_poll W D aad) ?st ns' = (map Inr ps, st')"
    "ss_session st' = (ss_session ?st)\<lparr>server_counter := server_counter (ss_session ?st) + of_nat (length frames')\<rparr>"
    using Cons.IH [OF c(3), of ?st cs' ns'] Cons.prems(2,6-8) p(3) ns c(1) sc by (auto simp: unat_succ_less)
  show ?case
    using r p x ns c(1) by (intro exI [of _ "p # ps"] exI [of _ st']) (simp add: add.assoc)
qed

text \<open>
  C21. A streamed response round-trips. When every item was sealed, then however the transport cuts the
  stream, the client's stream yields exactly the serialised items in order and ends, and the two
  sessions are in step again.
\<close>
theorem streamed_response_recovered:
  assumes "aead_correct (wl_aead W)" and "paired s t"
    and "seal_stream W D to_json aad (t, replicate 48 0) xs = (map Inr frames, t', h')"
    and "concat cs = concat frames" and "\<forall>now\<in>set ns. is_alive s now" and "length frames < length ns"
  shows "\<exists>ps st'. map (\<lambda>(_, item). bind_result item to_json) xs = map Inr ps \<and>
           poll_stream (client_stream_poll W D aad)
             \<lparr>ss_buffer = [], ss_chunks = map Inr cs, ss_session = s, ss_hash = replicate 48 0\<rparr> ns = (map Inr ps, st') \<and>
           paired (ss_session st') t'"
proof -
  have k: "keys s = keys t" "server_counter s = server_counter t" using assms(2) by (simp_all add: paired_def)
  note sc = seal_stream_counter [OF assms(3)]
  from client_stream_recovers [OF assms(1,3), of "\<lparr>ss_buffer = [], ss_chunks = map Inr cs, ss_session = s, ss_hash = replicate 48 0\<rparr>" cs ns]
  obtain ps st' where r: "map (\<lambda>(_, item). bind_result item to_json) xs = map Inr ps"
    "poll_stream (client_stream_poll W D aad)
       \<lparr>ss_buffer = [], ss_chunks = map Inr cs, ss_session = s, ss_hash = replicate 48 0\<rparr> ns = (map Inr ps, st')"
    "ss_session st' = s\<lparr>server_counter := server_counter s + of_nat (length frames)\<rparr>"
    using assms(4-6) k sc by auto
  moreover have "paired (ss_session st') t'" using assms(2) r(3) sc k by (auto simp: paired_def)
  ultimately show ?thesis by blast
qed

text \<open>
  C33. What the client does not notice in a streamed response. Given a recorded stream of sealed frames,
  any number of its leading frames, delivered as the answer to any later streaming request of the
  same session (whatever its response counter is by then), is decrypted to the corresponding items and
  ends cleanly: neither a truncation at a frame boundary nor the replay of an old response is detected.
\<close>
theorem streamed_response_truncation_and_replay:
  assumes "aead_correct (wl_aead W)"
    and "seal_stream W D to_json aad (t, replicate 48 0) xs = (map Inr frames, e)"
    and "keys s = keys t" and "unat (server_counter s) + length frames < 2 ^ 64" and "\<forall>now\<in>set ns. is_alive s now"
    and "concat cs = concat (take k frames)" and "length frames < length ns"
  shows "\<exists>ps st'. map (\<lambda>(_, item). bind_result item to_json) (take k xs) = map Inr ps \<and>
           poll_stream (client_stream_poll W D aad)
             \<lparr>ss_buffer = [], ss_chunks = map Inr cs, ss_session = s, ss_hash = replicate 48 0\<rparr> ns = (map Inr ps, st')"
proof -
  obtain e' where t: "seal_stream W D to_json aad (t, replicate 48 0) (take k xs) = (map Inr (take k frames), e')"
    using seal_stream_take [OF assms(2), of k] by (auto simp: take_map)
  note rec = client_stream_recovers [OF assms(1) t, of "\<lparr>ss_buffer = [], ss_chunks = map Inr cs, ss_session = s, ss_hash = replicate 48 0\<rparr>" cs ns]
  have "length (take k frames) \<le> length frames" by simp
  then have "unat (server_counter s) + length (take k frames) < 2 ^ 64" "length (take k frames) < length ns"
    using assms(4,7) by linarith+
  with rec show ?thesis using assms(3,5,6) by (auto simp del: length_take)
qed

subsection \<open>Streamed requests are recovered\<close>

lemma client_seal_chunk_Inr:
  assumes "client_seal_chunk W D aad (s, hash) (now, rn, cr) = (Inr fr, s', h')"
  obtains chunk nb where "cr = Inr chunk" "rn = Some nb"
    "seal_chunk W D KeySetup EncryptionFailed (Msg ''panic'') (client_write_key (keys s)) (client_write_iv (keys s))
       (client_counter s) aad hash chunk = Inr (fr, h')"
    "keys s' = keys s" "client_counter s \<noteq> - 1" "client_counter s' = client_counter s + 1"
    "\<exists>f x. with_keys_for_trr s now (u64_of_be nb) (f :: SessionKeys \<Rightarrow> u64 \<Rightarrow> client_msg + bytes \<times> bytes) = (Inr (Inr x), s')"
proof -
  have "\<not> isl cr" using assms by (cases cr) (simp_all add: client_seal_chunk_def)
  then obtain chunk where "cr = Inr chunk" by (cases cr) simp_all
  moreover have "rn \<noteq> None"
  proof
    assume "rn = None"
    with calculation assms show False by (simp add: client_seal_chunk_def)
  qed
  ultimately obtain nb where v: "cr = Inr chunk" "rn = Some nb" by blast
  let ?f = "\<lambda>ks counter. seal_chunk W D KeySetup EncryptionFailed (Msg ''panic'') (client_write_key ks)
       (client_write_iv ks) counter aad hash chunk"
  obtain r s1 where w: "with_keys_for_trr s now (u64_of_be nb) ?f = (r, s1)" by (rule prod.exhaust)
  have e: "client_seal_chunk W D aad (s, hash) (now, rn, cr) =
      (case r of Inr (Inr (frame, _)) \<Rightarrow> Inr frame | Inr (Inl e) \<Rightarrow> Inl e | Inl e \<Rightarrow> Inl (SessionMsg e),
       s1, hash_after hash (?f (keys s) (client_counter s)) r)"
    unfolding client_seal_chunk_def v Let_def w by (simp add: w split: sum.split prod.split)
  have "r = Inr (Inr (fr, h')) \<and> s1 = s'"
    using assms [unfolded e] by (cases r; cases "projr r") (auto simp: hash_after_def)
  then have r: "r = Inr (Inr (fr, h'))" "s1 = s'" by simp_all
  note w' = w [unfolded r]
  have q: "?f (keys s) (client_counter s) = Inr (fr, h')" "client_counter s \<noteq> - 1" "client_counter s' = client_counter s + 1"
    using trr_Inr [OF w'] by simp_all
  have "\<exists>f x. with_keys_for_trr s now (u64_of_be nb) (f :: SessionKeys \<Rightarrow> u64 \<Rightarrow> client_msg + bytes \<times> bytes) = (Inr (Inr x), s')"
    by (rule exI [of _ ?f], rule exI [of _ "(fr, h')"]) (rule w')
  moreover have "keys s' = keys s" using trr_frame [OF w'] by simp
  ultimately show thesis using v q by (intro that [of chunk nb])
qed

lemma server_poll_sealed:
  assumes "aead_correct (wl_aead W)" "client_seal_chunk W D aad (s, hash) (now, rn, cr) = (Inr fr, s', h')"
    and "keys (ss_session st) = keys s" "ss_hash st = hash" "usable (ss_session st) now'"
    and "client_counter (ss_session st) \<le> client_counter s" "seen_below (ss_session st) (client_counter s)"
    and "ss_chunks st = map Inr cs" "ss_buffer st @ concat cs = fr @ r" "length fr \<le> 12 + MAX_FRAME_SIZE"
  obtains chunk buf' cs' t' where "cr = Inr chunk"
    "server_stream_poll W D aad st now' =
       (Some (Inr chunk), st\<lparr>ss_buffer := buf', ss_chunks := map Inr cs', ss_session := t', ss_hash := h'\<rparr>)"
    "buf' @ concat cs' = r" "keys t' = keys s" "expires_at t' = expires_at (ss_session st)" "phase t' = phase (ss_session st)"
    "client_counter t' \<le> client_counter s'" "seen_below t' (client_counter s')" "keys s' = keys s"
proof -
  obtain chunk nb where v: "cr = Inr chunk" "rn = Some nb"
    "seal_chunk W D KeySetup EncryptionFailed (Msg ''panic'') (client_write_key (keys s)) (client_write_iv (keys s))
       (client_counter s) aad hash chunk = Inr (fr, h')"
    "keys s' = keys s" "client_counter s \<noteq> - 1" "client_counter s' = client_counter s + 1"
    by (rule client_seal_chunk_Inr [OF assms(2)])
  let ?t = "ss_session st"
  obtain ct where ct: "split_frame (fr @ r) = Some (\<lparr>sf_counter = client_counter s, sf_ciphertext = ct\<rparr>, r)"
    "frame_bytes (client_counter s) ct = Some fr"
    "open_chunk W D (\<lambda>e. LlmTransport (KeySetup e)) (\<lambda>e. LlmTransport (DecryptionFailed e)) (LlmTransport (Msg ''panic''))
       (client_write_key (keys s)) (client_write_iv (keys s)) \<lparr>sf_counter = client_counter s, sf_ciphertext = ct\<rparr> aad hash =
     Inr (chunk, h')"
    by (rule open_sealed_chunk [OF assms(1) v(3)])
  have "length ct \<le> MAX_FRAME_SIZE"
    using ct(2) assms(10) by (auto simp: frame_bytes_def split: if_splits)
  then have "\<not> frame_too_large (fr @ r)"
    using split_frame_frame_bytes(2) [OF ct(2)] by (simp add: frame_too_large_def)
  then obtain buf' cs' where nf: "server_next_frame (ss_buffer st) (map Inr cs) =
      (Inr (Some \<lparr>sf_counter = client_counter s, sf_ciphertext = ct\<rparr>), buf', map Inr cs')" "buf' @ concat cs' = r"
    using server_reader_frame [of "ss_buffer st" cs] ct(1) assms(9) by auto
  let ?f = "\<lambda>ks (_ :: u64). open_chunk W D (\<lambda>e. LlmTransport (KeySetup e)) (\<lambda>e. LlmTransport (DecryptionFailed e))
     (LlmTransport (Msg ''panic'')) (client_write_key ks) (client_write_iv ks) \<lparr>sf_counter = client_counter s, sf_ciphertext = ct\<rparr> aad hash"
  have m: "client_counter ?t \<noteq> - 1" "client_counter ?t + 1 \<le> client_counter s + 1"
    using client_counter_mono [OF assms(6) v(5)] by auto
  have "?f (keys ?t) (client_counter ?t) = Inr (chunk, h')" using ct(3) assms(3) by simp
  from trr_in_step [where f = ?f, OF assms(5,7) m(1) v(5) this]
  obtain t' where t': "with_keys_for_trr ?t now' (client_counter s) ?f = (Inr (Inr (chunk, h')), t')"
    "client_counter t' = client_counter ?t + 1" "seen_below t' (client_counter s + 1)" by blast
  have "server_stream_poll W D aad st now' =
       (Some (Inr chunk), st\<lparr>ss_buffer := buf', ss_chunks := map Inr cs', ss_session := t', ss_hash := h'\<rparr>)"
    using nf(1) t'(1) assms(4,8) by (simp add: server_stream_poll_def)
  with v nf(2) t' m(2) trr_frame [OF t'(1)] assms(3) show thesis by (intro that [of chunk t' cs' buf']) simp_all
qed

lemma client_seal_stream_Cons:
  assumes "client_seal_stream W D aad st (x # xs) = (map Inr frames, e)"
  obtains fr frames' s' h' where "frames = fr # frames'" "client_seal_chunk W D aad st x = (Inr fr, s', h')"
    "client_seal_stream W D aad (s', h') xs = (map Inr frames', e)"
proof -
  obtain r t' h' where i: "client_seal_chunk W D aad st x = (r, t', h')" by (metis prod_cases3)
  obtain rs e' where j: "client_seal_stream W D aad (t', h') xs = (rs, e')" by (metis surj_pair)
  have "r # rs = map Inr frames" "e' = e" using assms i j by simp_all
  then obtain fr frames' where "frames = fr # frames'" "r = Inr fr" "rs = map Inr frames'" by (cases frames) auto
  with i j \<open>e' = e\<close> show thesis by (intro that) simp_all
qed

lemma server_stream_recovers:
  assumes "aead_correct (wl_aead W)" "client_seal_stream W D aad (s, hash) xs = (map Inr frames, e)"
    and "keys (ss_session st) = keys s" "ss_hash st = hash" "ss_chunks st = map Inr cs" "ss_buffer st @ concat cs = concat frames"
    and "\<forall>now\<in>set ns. usable (ss_session st) now" "client_counter (ss_session st) \<le> client_counter s"
    and "seen_below (ss_session st) (client_counter s)" "\<forall>fr\<in>set frames. length fr \<le> 12 + MAX_FRAME_SIZE"
    and "length frames < length ns"
  shows "\<exists>ps st'. map (\<lambda>(_, _, cr). cr) xs = map Inr ps \<and>
           poll_stream (server_stream_poll W D aad) st ns = (map Inr ps, st')"
  using assms(2-11)
proof (induction xs arbitrary: s hash frames st cs ns)
  case Nil
  obtain now ns' where ns: "ns = now # ns'" using Nil.prems(10) by (cases ns) auto
  have z: "ss_buffer st @ concat cs = []" "frames = []" using Nil.prems(1,5) by auto
  have "server_next_frame (ss_buffer st) (map Inr cs) = (Inr None, [], [])"
    using server_reader_no_frame [of "ss_buffer st" cs] z(1) by (simp add: frame_too_large_def)
  then show ?case using ns z(2) Nil.prems(4) by (simp add: server_stream_poll_def)
next
  case (Cons x xs)
  obtain fr frames' s1 h1 where c: "frames = fr # frames'" "client_seal_chunk W D aad (s, hash) x = (Inr fr, s1, h1)"
    "client_seal_stream W D aad (s1, h1) xs = (map Inr frames', e)"
    by (rule client_seal_stream_Cons [OF Cons.prems(1)])
  obtain time rn cr where x: "x = (time, rn, cr)" by (metis prod_cases3)
  obtain now ns' where ns: "ns = now # ns'" using Cons.prems(10) by (cases ns) auto
  have us: "usable (ss_session st) now" using Cons.prems(6) ns by simp
  have b: "ss_buffer st @ concat cs = fr @ concat frames'" "length fr \<le> 12 + MAX_FRAME_SIZE"
    using Cons.prems(5,9) c(1) by simp_all
  obtain chunk buf' cs' t' where p: "cr = Inr chunk"
    "server_stream_poll W D aad st now =
       (Some (Inr chunk), st\<lparr>ss_buffer := buf', ss_chunks := map Inr cs', ss_session := t', ss_hash := h1\<rparr>)"
    "buf' @ concat cs' = concat frames'" "keys t' = keys s" "expires_at t' = expires_at (ss_session st)" "phase t' = phase (ss_session st)"
    "client_counter t' \<le> client_counter s1" "seen_below t' (client_counter s1)" "keys s1 = keys s"
    by (rule server_poll_sealed [OF assms(1) c(2) [unfolded x] Cons.prems(2,3) us Cons.prems(7,8,4) b])
  let ?st = "st\<lparr>ss_buffer := buf', ss_chunks := map Inr cs', ss_session := t', ss_hash := h1\<rparr>"
  have "\<forall>now\<in>set ns'. usable t' now" using Cons.prems(6) ns p(5,6) by (simp add: usable_def)
  then obtain ps st' where r: "map (\<lambda>(_, _, cr). cr) xs = map Inr ps"
    "poll_stream (server_stream_poll W D aad) ?st ns' = (map Inr ps, st')"
    using Cons.IH [OF c(3), of ?st cs' ns'] Cons.prems(9,10) p ns c(1) by auto
  show ?case using r p x ns by (intro exI [of _ "chunk # ps"] exI [of _ st']) simp
qed

text \<open>
  A streamed request round-trips. When the client sealed every chunk and the server's session has seen
  only smaller counters, then however the transport cuts the stream, the server's \<open>EncryptedStream\<close> yields
  exactly the chunks in order and ends, as long as no frame exceeds 16 MiB.
\<close>
lemma streamed_request_recovered:
  assumes "aead_correct (wl_aead W)"
    and "client_seal_stream W D aad (s, replicate 48 0) xs = (map Inr frames, e)" and "paired s t"
    and "concat cs = concat frames" and "\<forall>now\<in>set ns. usable t now"
    and "\<forall>fr\<in>set frames. length fr \<le> 12 + MAX_FRAME_SIZE" and "length frames < length ns"
  shows "\<exists>ps st'. map (\<lambda>(_, _, chunk). chunk) xs = map Inr ps \<and>
           poll_stream (server_stream_poll W D aad)
             \<lparr>ss_buffer = [], ss_chunks = map Inr cs, ss_session = t, ss_hash = replicate 48 0\<rparr> ns = (map Inr ps, st')"
  using assms server_stream_recovers [OF assms(1,2), of "\<lparr>ss_buffer = [], ss_chunks = map Inr cs, ss_session = t, ss_hash = replicate 48 0\<rparr>" cs ns]
  by (simp add: paired_def)

subsection \<open>Random replay nonces\<close>

text \<open>
  One streamed chunk makes the client's session unusable for ordinary requests. The client feeds its own
  replay window with a random 64-bit number per chunk, while ordinary requests use the sequential
  counter. Once a chunk was sealed whose random number exceeds the counter by more than the window,
  every later \<open>seal_request_body\<close> is refused as a replay, and since a refused request leaves the session
  unchanged, this never ends.
\<close>
lemma streaming_blocks_client_session:
  assumes "client_seal_chunk W D aad (s, hash) (now, Some nonce_bytes, Inr chunk) = (Inr frame, s', h')"
    and "replay_strategy s = SlidingWindow w" and "length (window (replay_guard s)) = 64"
    and "unat (client_counter s) + 64 * 64 < unat (u64_of_be nonce_bytes)" and "is_alive s now'"
  shows "seal_request_body W s' now' meth path query authority body aad' extra =
           (Inl (ClientHandshake (SessionMsg ReplayRejected)), s')"
proof -
  obtain f x where k: "client_counter s \<noteq> - 1" "client_counter s' = client_counter s + 1"
    "with_keys_for_trr s now (u64_of_be nonce_bytes) (f :: SessionKeys \<Rightarrow> u64 \<Rightarrow> client_msg + bytes \<times> bytes) = (Inr (Inr x), s')"
    by (rule client_seal_chunk_Inr [OF assms(1)]) auto
  have g: "replay_guard s' = guard_accept (replay_guard s) (u64_of_be nonce_bytes)"
    using trr_sliding [OF assms(2) k(3)] by auto
  have h: "unat (u64_of_be nonce_bytes) \<le> unat (highest (replay_guard s'))"
    by (simp add: g guard_accept_highest max_def word_le_nat_alt)
  have c: "unat (client_counter s') = Suc (unat (client_counter s))" using k(1,2) by (simp add: unat_succ_less)
  have le: "client_counter s' \<le> highest (replay_guard s')" using c h assms(4) by (simp add: word_le_nat_alt)
  have "64 * 64 \<le> unat (highest (replay_guard s') - client_counter s')"
    using c h assms(4) by (simp add: unat_diff [OF le])
  moreover have "client_counter s' \<noteq> 0" using c by auto
  ultimately have "guard_check (replay_guard s') (client_counter s') = Inl (TooOld (client_counter s'))"
    using le assms(3) g by (simp add: guard_check_def Let_def)
  moreover have "replay_strategy s' = SlidingWindow w" "usable s' now'"
    using trr_frame [OF k(3)] trr_Inr [OF k(3)] assms(2,5) by (simp_all add: usable_def)
  ultimately show ?thesis
    by (simp add: seal_request_body_def with_keys_for_next_trr_def with_keys_for_trr_def trr_check_def usable_def)
qed

subsection \<open>Concrete streams\<close>

definition demo_digest :: hash_lib where
  "demo_digest = \<lparr>sha384 = (\<lambda>m. replicate 48 0), sha512 = (\<lambda>m. replicate 64 0)\<rparr>"

lemma demo_aead_correct: "aead_correct (wl_aead demo_wire_lib)"
  by (simp add: demo_wire_lib_def tagged_aead_correct)

lemma demo_seal_chunk:
  assumes "length key = 32" "length iv = 12" "length data + length aad < 1000"
  shows "\<exists>fr. seal_chunk demo_wire_lib demo_digest ke se pa key iv c aad (replicate 48 0) data = Inr (fr, replicate 48 0) \<and>
           length fr < 2000"
  using assms
  by (simp add: seal_chunk_def demo_wire_lib_def tagged_aead_def aead_key_new_def seal_in_place_def key_len_def
      frame_bytes_def demo_digest_def)

lemma demo_response_item:
  assumes "is_alive t now" "server_counter t \<noteq> - 1" "keys t = demo_keys" "length p < 900"
  shows "\<exists>fr. seal_stream_item demo_wire_lib demo_digest Inr [] (t, replicate 48 0) (now, Inr p) =
     (Inr fr, t\<lparr>server_counter := server_counter t + 1\<rparr>, replicate 48 0)"
proof -
  have "length (server_write_key (keys t)) = 32" "length (server_write_iv (keys t)) = 12" "length p + length ([] :: bytes) < 1000"
    using assms by (simp_all add: demo_keys_def)
  from demo_seal_chunk [where c = "server_counter t" and ke = "\<lambda>_. LlmTransport (Msg ''Key setup failed'')"
      and se = "\<lambda>_. LlmTransport (Msg ''Encryption failed'')" and pa = "LlmTransport (Msg ''panic'')", OF this]
  obtain fr where "seal_chunk demo_wire_lib demo_digest (\<lambda>_. LlmTransport (Msg ''Key setup failed''))
      (\<lambda>_. LlmTransport (Msg ''Encryption failed'')) (LlmTransport (Msg ''panic''))
      (server_write_key (keys t)) (server_write_iv (keys t)) (server_counter t) [] (replicate 48 0) p = Inr (fr, replicate 48 0)"
    by blast
  then show ?thesis
    using assms(1,2) by (simp add: seal_stream_item_def trs_in_step hash_after_def Let_def)
qed

lemma demo_response_stream:
  "\<exists>frames e. seal_stream demo_wire_lib demo_digest Inr [] (demo_peer StrictMonotonic, replicate 48 0) [(0, Inr [1]), (0, Inr [2])] =
     (map Inr frames, e) \<and> length frames = 2"
proof -
  let ?t = "demo_peer StrictMonotonic"
  have t: "is_alive ?t 0" "server_counter ?t \<noteq> - 1" "keys ?t = demo_keys" "server_counter ?t = 1"
    by (simp_all add: demo_peer_def session_new_def)
  obtain fr where 1: "seal_stream_item demo_wire_lib demo_digest Inr [] (?t, replicate 48 0) (0, Inr [1]) =
     (Inr fr, ?t\<lparr>server_counter := 2\<rparr>, replicate 48 0)"
    using demo_response_item [OF t(1-3), of "[1]"] t(4) by auto
  obtain fr' where 2: "seal_stream_item demo_wire_lib demo_digest Inr [] (?t\<lparr>server_counter := 2\<rparr>, replicate 48 0) (0, Inr [2]) =
     (Inr fr', ?t\<lparr>server_counter := 3\<rparr>, replicate 48 0)"
    using demo_response_item [of "?t\<lparr>server_counter := 2\<rparr>" 0 "[2]"] t by auto
  show ?thesis by (rule exI [of _ "[fr, fr']"]) (simp add: 1 2)
qed

theorem streamed_response_recovered_witness:
  "\<exists>frames e st'. seal_stream demo_wire_lib demo_digest Inr [] (demo_peer StrictMonotonic, replicate 48 0) [(0, Inr [1]), (0, Inr [2])] =
     (map Inr frames, e) \<and>
   poll_stream (client_stream_poll demo_wire_lib demo_digest []) \<lparr>ss_buffer = [], ss_chunks = map Inr frames,
     ss_session = demo_peer (SlidingWindow 64), ss_hash = replicate 48 0\<rparr> [0, 0, 0] = ([Inr [1], Inr [2]], st')"
proof -
  obtain frames t' h' where f: "seal_stream demo_wire_lib demo_digest Inr [] (demo_peer StrictMonotonic, replicate 48 0)
      [(0, Inr [1]), (0, Inr [2])] = (map Inr frames, t', h')" "length frames = 2"
    using demo_response_stream by (metis surj_pair)
  have pair: "paired (demo_peer (SlidingWindow 64)) (demo_peer StrictMonotonic)"
    unfolding demo_peer_def by (rule session_new_paired [OF demo_keys_wf])
  have al: "\<forall>now\<in>set [0, 0, 0]. is_alive (demo_peer (SlidingWindow 64)) now" "length frames < length [0, 0, 0 :: nat]"
    using f(2) by (simp_all add: demo_peer_def session_new_def)
  obtain ps st' where "map (\<lambda>(_, item). bind_result item Inr) [(0 :: nat, Inr [1]), (0, Inr [2])] = (map Inr ps :: (string + bytes) list)"
    "poll_stream (client_stream_poll demo_wire_lib demo_digest []) \<lparr>ss_buffer = [], ss_chunks = map Inr frames,
     ss_session = demo_peer (SlidingWindow 64), ss_hash = replicate 48 0\<rparr> [0, 0, 0] = (map Inr ps, st')"
    using streamed_response_recovered [OF demo_aead_correct pair f(1) refl al] by blast
  moreover from this(1) have "ps = [[1], [2]]" by (cases ps rule: list.exhaust) (auto split: prod.splits)
  ultimately show ?thesis using f(1) by auto
qed

theorem streamed_response_truncation_and_replay_witness:
  "\<exists>frames e st'. seal_stream demo_wire_lib demo_digest Inr [] (demo_peer StrictMonotonic, replicate 48 0) [(0, Inr [1]), (0, Inr [2])] =
     (map Inr frames, e) \<and> length frames = 2 \<and>
   poll_stream (client_stream_poll demo_wire_lib demo_digest []) \<lparr>ss_buffer = [], ss_chunks = map Inr (take 1 frames),
     ss_session = (demo_peer (SlidingWindow 64))\<lparr>server_counter := 50\<rparr>, ss_hash = replicate 48 0\<rparr> [0, 0, 0] = ([Inr [1]], st')"
proof -
  let ?s = "(demo_peer (SlidingWindow 64))\<lparr>server_counter := 50\<rparr>"
  obtain frames e where f: "seal_stream demo_wire_lib demo_digest Inr [] (demo_peer StrictMonotonic, replicate 48 0)
      [(0, Inr [1]), (0, Inr [2])] = (map Inr frames, e)" "length frames = 2"
    using demo_response_stream by blast
  have s: "keys ?s = keys (demo_peer StrictMonotonic)" "unat (server_counter ?s) + length frames < 2 ^ 64"
    "\<forall>now\<in>set [0, 0, 0]. is_alive ?s now" "length frames < length [0, 0, 0 :: nat]"
    using f(2) by (simp_all add: demo_peer_def session_new_def)
  obtain ps st' where "map (\<lambda>(_, item). bind_result item Inr) (take 1 [(0 :: nat, Inr [1]), (0, Inr [2])]) = (map Inr ps :: (string + bytes) list)"
    "poll_stream (client_stream_poll demo_wire_lib demo_digest []) \<lparr>ss_buffer = [], ss_chunks = map Inr (take 1 frames),
     ss_session = ?s, ss_hash = replicate 48 0\<rparr> [0, 0, 0] = (map Inr ps, st')"
    using streamed_response_truncation_and_replay [OF demo_aead_correct f(1) s(1-3) refl s(4)] by blast
  moreover from this(1) have "ps = [[1]]" by (cases ps rule: list.exhaust) auto
  ultimately show ?thesis using f by auto
qed

lemma demo_client_chunk:
  assumes "usable s now" "seen_below s (u64_of_be nb)" "client_counter s \<noteq> - 1" "u64_of_be nb \<noteq> - 1" "keys s = demo_keys"
    and "length p < 900"
  shows "\<exists>fr s'. client_seal_chunk demo_wire_lib demo_digest [] (s, replicate 48 0) (now, Some nb, Inr p) = (Inr fr, s', replicate 48 0) \<and>
           length fr < 2000"
proof -
  let ?f = "\<lambda>ks counter. seal_chunk demo_wire_lib demo_digest KeySetup EncryptionFailed (Msg ''panic'') (client_write_key ks)
       (client_write_iv ks) counter [] (replicate 48 0) p"
  have "length (client_write_key (keys s)) = 32" "length (client_write_iv (keys s)) = 12" "length p + length ([] :: bytes) < 1000"
    using assms(5,6) by (simp_all add: demo_keys_def)
  from demo_seal_chunk [where c = "client_counter s" and ke = KeySetup and se = EncryptionFailed and pa = "Msg ''panic''", OF this]
  obtain fr where fr: "?f (keys s) (client_counter s) = Inr (fr, replicate 48 0)" "length fr < 2000" by blast
  obtain s' where w: "with_keys_for_trr s now (u64_of_be nb) ?f = (Inr (Inr (fr, replicate 48 0)), s')"
    using trr_in_step [where f = ?f, OF assms(1-4) fr(1)] by blast
  have "client_seal_chunk demo_wire_lib demo_digest [] (s, replicate 48 0) (now, Some nb, Inr p) = (Inr fr, s', replicate 48 0)"
    by (simp add: client_seal_chunk_def Let_def w hash_after_def)
  with fr(2) show ?thesis by blast
qed

lemma demo_peer_client:
  "usable (demo_peer (SlidingWindow 64)) 0" "seen_below (demo_peer (SlidingWindow 64)) (u64_of_be (be64 1000000))"
  "client_counter (demo_peer (SlidingWindow 64)) \<noteq> - 1" "u64_of_be (be64 1000000) \<noteq> - 1"
  "keys (demo_peer (SlidingWindow 64)) = demo_keys" "length ([1] :: bytes) < 900"
  by (simp_all add: demo_peer_def session_new_def usable_def seen_below_def guard_new_def)

end
