(* ===== verification/Server_Middleware.thy ===== *)
theory Server_Middleware
  imports Trusted_Requests Tickets
begin

section \<open>Rate limiting, replay guards and 0-RTT resumption\<close>

text \<open>
  \<open>openhttpa-server/src/rate_limit.rs\<close>, the local Bloom-filter guard and the 0-RTT middleware of
  \<open>middleware.rs\<close>, and the guards of \<open>replay_guard_fs.rs\<close> and \<open>replay_guard_redis.rs\<close>. \<open>DashMap\<close>s are association
  lists; the Bloom filter, the subtraction of \<open>std::time::Instant\<close> (partial on some platforms) and the answers
  of the Redis server are parameters. The mutexes of the local guard are taken one after the other, so
  its operations are also given as atomic actions of a step relation.

  The lemmas show that the limiter is exact and what it bounds, when a guard can accept a nonce twice,
  and when a ticket resumes a session.
\<close>

subsection \<open>Rate limiting\<close>

datatype IpAddr = IpV4 "32 word" | IpV6 "128 word"

fun normalize_ip :: "IpAddr \<Rightarrow> IpAddr" where
  "normalize_ip (IpV4 a) = IpV4 a"
| "normalize_ip (IpV6 a) = IpV6 (push_bit 64 (drop_bit 64 a))"

record RateLimitState =
  clients :: "(IpAddr \<times> time list) list"
  max_requests :: nat
  rl_window :: nat

definition rate_limit_new :: "nat \<Rightarrow> nat \<Rightarrow> RateLimitState" where
  "rate_limit_new n w = \<lparr>clients = [], max_requests = n, rl_window = w\<rparr>"

type_synonym instant_sub = "time \<Rightarrow> nat \<Rightarrow> time option"

definition rl_cutoff :: "instant_sub \<Rightarrow> RateLimitState \<Rightarrow> time \<Rightarrow> time" where
  "rl_cutoff sub st now = (case sub now (rl_window st) of Some c \<Rightarrow> c | None \<Rightarrow> now)"

definition rl_entry :: "RateLimitState \<Rightarrow> IpAddr \<Rightarrow> time list" where
  "rl_entry st ip = (case map_of (clients st) ip of None \<Rightarrow> [] | Some e \<Rightarrow> e)"

definition rate_limit_cleanup :: "instant_sub \<Rightarrow> RateLimitState \<Rightarrow> time \<Rightarrow> RateLimitState" where
  "rate_limit_cleanup sub st now =
     st\<lparr>clients := filter (\<lambda>(ip, e). e \<noteq> [])
         (map (\<lambda>(ip, e). (ip, filter (\<lambda>ts. rl_cutoff sub st now \<le> ts) e)) (clients st))\<rparr>"

definition check_and_record :: "instant_sub \<Rightarrow> RateLimitState \<Rightarrow> time \<Rightarrow> IpAddr \<Rightarrow> bool \<times> RateLimitState" where
  "check_and_record sub st now ip0 =
     (let ip = normalize_ip ip0;
          entry = filter (\<lambda>ts. rl_cutoff sub st now \<le> ts) (rl_entry st ip)
      in if max_requests st \<le> length entry
         then (False, st\<lparr>clients := hm_insert ip entry (clients st)\<rparr>)
         else (True, st\<lparr>clients := hm_insert ip (entry @ [now]) (clients st)\<rparr>))"

definition request_ip :: "IpAddr option \<Rightarrow> IpAddr" where
  "request_ip connect_info = (case connect_info of None \<Rightarrow> IpV4 2130706433 | Some ip \<Rightarrow> ip)"

definition rate_limit_call ::
    "instant_sub \<Rightarrow> RateLimitState \<Rightarrow> time \<Rightarrow> IpAddr option \<Rightarrow> (nat + unit) \<times> RateLimitState" where
  "rate_limit_call sub st now connect_info =
     (case check_and_record sub st now (request_ip connect_info) of
        (True, st') \<Rightarrow> (Inr (), st')
      | (False, st') \<Rightarrow> (Inl 429, st'))"

subsection \<open>The local replay guard\<close>

record ('b, 'f) bloom_lib =
  bl_new :: "nat \<Rightarrow> 'f \<Rightarrow> 'b option"
  bl_check :: "'b \<Rightarrow> bytes \<Rightarrow> bool"
  bl_set :: "'b \<Rightarrow> bytes \<Rightarrow> 'b"
  bl_rotate_rate :: 'f

record 'b LocalReplayGuard =
  lg_bloom :: 'b
  lg_prev :: "'b option"
  lg_capacity :: nat
  lg_count :: nat

definition local_guard_new :: "('b, 'f) bloom_lib \<Rightarrow> nat \<Rightarrow> 'f \<Rightarrow> 'b LocalReplayGuard option" where
  "local_guard_new B items fp_rate =
     map_option (\<lambda>b. \<lparr>lg_bloom = b, lg_prev = None, lg_capacity = items, lg_count = 0\<rparr>) (bl_new B items fp_rate)"

definition is_near_capacity :: "'b LocalReplayGuard \<Rightarrow> bool" where
  "is_near_capacity g \<longleftrightarrow> lg_capacity g * 4 div 5 \<le> lg_count g"

definition local_rotate :: "('b, 'f) bloom_lib \<Rightarrow> 'b LocalReplayGuard \<Rightarrow> 'b LocalReplayGuard option" where
  "local_rotate B g =
     map_option (\<lambda>fresh. g\<lparr>lg_bloom := fresh, lg_prev := Some (lg_bloom g), lg_count := 0\<rparr>)
       (bl_new B (lg_capacity g) (bl_rotate_rate B))"

definition in_prev :: "('b, 'f) bloom_lib \<Rightarrow> 'b option \<Rightarrow> u64 \<Rightarrow> bool" where
  "in_prev B prev nonce = (case prev of Some p \<Rightarrow> bl_check B p (be64 nonce) | None \<Rightarrow> False)"

definition local_check_and_accept ::
    "('b, 'f) bloom_lib \<Rightarrow> 'b LocalReplayGuard \<Rightarrow> bytes \<Rightarrow> u64 \<Rightarrow> (ReplayError + unit) \<times> 'b LocalReplayGuard" where
  "local_check_and_accept B g key nonce =
     (if in_prev B (lg_prev g) nonce then (Inl (Replay nonce), g)
      else if bl_check B (lg_bloom g) (be64 nonce) then (Inl (Replay nonce), g)
      else (Inr (), g\<lparr>lg_bloom := bl_set B (lg_bloom g) (be64 nonce), lg_count := lg_count g + 1\<rparr>))"

definition local_check :: "('b, 'f) bloom_lib \<Rightarrow> 'b LocalReplayGuard \<Rightarrow> bytes \<Rightarrow> u64 \<Rightarrow> ReplayError + unit" where
  "local_check B g key nonce =
     (if in_prev B (lg_prev g) nonce then Inl (Replay nonce)
      else if bl_check B (lg_bloom g) (be64 nonce) then Inl (Replay nonce) else Inr ())"

definition local_accept ::
    "('b, 'f) bloom_lib \<Rightarrow> 'b LocalReplayGuard \<Rightarrow> bytes \<Rightarrow> u64 \<Rightarrow> (ReplayError + unit) \<times> 'b LocalReplayGuard" where
  "local_accept B g key nonce =
     (Inr (), g\<lparr>lg_bloom := bl_set B (lg_bloom g) (be64 nonce), lg_count := lg_count g + 1\<rparr>)"

subsection \<open>The file-backed and the Redis guard\<close>

datatype replay_file = NoState | Unreadable | Stored u64 "u64 list"

definition file_guard_new :: "nat \<Rightarrow> replay_file \<Rightarrow> ReplayGuard" where
  "file_guard_new W f =
     (case f of
        Stored h w \<Rightarrow> if length w = W then guard_import_state (guard_new W) h w else guard_new W
      | _ \<Rightarrow> guard_new W)"

definition file_guard_persist :: "ReplayGuard \<Rightarrow> replay_file \<Rightarrow> string option \<Rightarrow> (string + unit) \<times> replay_file" where
  "file_guard_persist g f io =
     (case io of
        Some e \<Rightarrow> (Inl e, f)
      | None \<Rightarrow> (case guard_export_state g of (h, w) \<Rightarrow> (Inr (), Stored h w)))"

definition file_guard_check :: "ReplayGuard \<Rightarrow> u64 \<Rightarrow> ReplayError + unit" where
  "file_guard_check g nonce = guard_check g nonce"

definition file_guard_accept ::
    "ReplayGuard \<times> replay_file \<Rightarrow> u64 \<Rightarrow> string option \<Rightarrow> (string + unit) \<times> ReplayGuard \<times> replay_file" where
  "file_guard_accept s nonce io =
     (case s of (g, f) \<Rightarrow>
        (let g' = guard_accept g nonce
         in case file_guard_persist g' f io of (r, f') \<Rightarrow> (r, g', f')))"

text \<open>
  A Redis command returns the error of the connection or of the command, or its answer; \<open>SET NX PX\<close> answers with
  a text exactly when it stored the key. The padding of the answer's latency is left out.
\<close>

record 'r redis_lib =
  rd_set_nx_px :: "'r \<Rightarrow> bytes \<Rightarrow> u64 \<Rightarrow> (string + string option) \<times> 'r"
  rd_exists :: "'r \<Rightarrow> bytes \<Rightarrow> string + bool"

definition redis_key :: "bytes \<Rightarrow> u64 \<Rightarrow> bytes" where
  "redis_key key nonce = str_bytes ''replay:'' @ key @ str_bytes '':'' @ str_bytes (show_nat (unat nonce))"

definition redis_ttl_ms :: "nat \<Rightarrow> u64" where
  "redis_ttl_ms ttl = (if ttl < 2 ^ 64 then word_of_nat ttl else - 1)"

definition set_nx :: "'r redis_lib \<Rightarrow> nat \<Rightarrow> 'r \<Rightarrow> bytes \<Rightarrow> u64 \<Rightarrow> (ReplayError + bool) \<times> 'r" where
  "set_nx R ttl r key nonce =
     (case rd_set_nx_px R r (redis_key key nonce) (redis_ttl_ms ttl) of
        (Inl e, r') \<Rightarrow> (Inl (StorageError e), r')
      | (Inr answer, r') \<Rightarrow> (Inr (answer \<noteq> None), r'))"

definition redis_check_and_accept ::
    "'r redis_lib \<Rightarrow> nat \<Rightarrow> 'r \<Rightarrow> bytes \<Rightarrow> u64 \<Rightarrow> (ReplayError + unit) \<times> 'r" where
  "redis_check_and_accept R ttl r key nonce =
     (case set_nx R ttl r key nonce of
        (Inl e, r') \<Rightarrow> (Inl e, r')
      | (Inr inserted, r') \<Rightarrow> (if inserted then Inr () else Inl (Replay nonce), r'))"

definition redis_check :: "'r redis_lib \<Rightarrow> 'r \<Rightarrow> bytes \<Rightarrow> u64 \<Rightarrow> ReplayError + unit" where
  "redis_check R r key nonce =
     (case rd_exists R r (redis_key key nonce) of
        Inl e \<Rightarrow> Inl (StorageError e)
      | Inr found \<Rightarrow> if found then Inl (Replay nonce) else Inr ())"

definition redis_accept :: "'r redis_lib \<Rightarrow> nat \<Rightarrow> 'r \<Rightarrow> bytes \<Rightarrow> u64 \<Rightarrow> (ReplayError + unit) \<times> 'r" where
  "redis_accept R ttl r key nonce = (case set_nx R ttl r key nonce of (x, r') \<Rightarrow> (map_sum id (\<lambda>_. ()) x, r'))"

subsection \<open>0-RTT resumption\<close>

type_synonym 'g replay_service = "'g \<Rightarrow> bytes \<Rightarrow> u64 \<Rightarrow> (ReplayError + unit) \<times> 'g"

definition is_safe :: "string \<Rightarrow> bool" where
  "is_safe m \<longleftrightarrow> m \<in> {''GET'', ''HEAD'', ''OPTIONS'', ''TRACE''}"

record rtt0_env =
  r0_wire :: wire_lib
  r0_hkdf :: hkdf_lib
  r0_codec :: state_codec
  r0_engine :: TicketEngine
  r0_now :: time
  r0_now_sys :: time

definition resumption_ticket :: "rtt0_env \<Rightarrow> Parts \<Rightarrow> DurableSessionState option" where
  "resumption_ticket E parts =
     Option.bind (hdr_get (pt_headers parts) ''attest-ticket-resumption'') (\<lambda>hdr.
     Option.bind (result_ok (hl_to_str (wl_http (r0_wire E)) hdr)) (\<lambda>text.
     Option.bind (result_ok (wl_hex_decode (r0_wire E) text)) (\<lambda>raw.
       result_ok (unseal_session (wl_aead (r0_wire E)) (r0_codec E) (r0_engine E) (r0_now_sys E) raw))))"

definition rtt0_state :: "rtt0_env \<Rightarrow> Parts \<Rightarrow> DurableSessionState \<Rightarrow> DurableSessionState" where
  "rtt0_state E parts d =
     (case Option.bind (result_ok (decode_attest_ticket (wl_http (r0_wire E)) (pt_headers parts))) dt_salt of
        None \<Rightarrow> d
      | Some salt \<Rightarrow>
          (case derive_0rtt (r0_hkdf E) (d_resumption_secret d) salt of
             Inl _ \<Rightarrow> d
           | Inr k \<Rightarrow> d\<lparr>d_keys := k\<rparr>))"

definition rtt0_call ::
    "rtt0_env \<Rightarrow> 'g replay_service \<Rightarrow> AtbRegistry \<times> 'g \<Rightarrow> Parts \<Rightarrow> (nat + unit) \<times> AtbRegistry \<times> 'g" where
  "rtt0_call E guard s parts =
     (case s of (rg, g) \<Rightarrow>
        if hdr_get (pt_headers parts) ''attest-ticket-resumption'' = None then (Inr (), rg, g)
        else if \<not> is_safe (pt_method parts) then (Inl 425, rg, g)
        else case resumption_ticket E parts of
            None \<Rightarrow> (Inr (), rg, g)
          | Some d \<Rightarrow>
              (case guard g (wl_uuid_show (r0_wire E) (d_id d)) (d_client_counter d) of
                 (Inl _, g') \<Rightarrow> (Inr (), rg, g')
               | (Inr _, g') \<Rightarrow>
                   (Inr (), snd (registry_insert rg (from_durable (rtt0_state E parts d) (r0_now E) (r0_now_sys E))), g')))"

subsection \<open>The limiter is exact\<close>

text \<open>
  \<open>instant_sub_correct\<close> is the documented behaviour of \<open>Instant::checked_sub\<close> where the difference is
  representable. The reference limiter keeps the whole history of accepted requests.
\<close>

definition instant_sub_correct :: "instant_sub \<Rightarrow> bool" where
  "instant_sub_correct sub \<longleftrightarrow> (\<forall>now w. w \<le> now \<longrightarrow> sub now w = Some (now - w))"

datatype rl_op = RlRequest time "IpAddr option" | RlCleanup time

fun rl_time :: "rl_op \<Rightarrow> time" where
  "rl_time (RlRequest t _) = t"
| "rl_time (RlCleanup t) = t"

fun rl_run :: "instant_sub \<Rightarrow> RateLimitState \<Rightarrow> rl_op list \<Rightarrow> (time \<times> IpAddr) list" where
  "rl_run sub st [] = []"
| "rl_run sub st (RlCleanup t # xs) = rl_run sub (rate_limit_cleanup sub st t) xs"
| "rl_run sub st (RlRequest t ci # xs) =
     (case rate_limit_call sub st t ci of
        (Inr _, st') \<Rightarrow> (t, normalize_ip (request_ip ci)) # rl_run sub st' xs
      | (Inl _, st') \<Rightarrow> rl_run sub st' xs)"

definition accepted_since :: "(time \<times> IpAddr) list \<Rightarrow> IpAddr \<Rightarrow> time \<Rightarrow> time list" where
  "accepted_since hist ip c = filter (\<lambda>ts. c \<le> ts) (map fst (filter (\<lambda>(_, b). b = ip) hist))"

fun rl_reference :: "nat \<Rightarrow> nat \<Rightarrow> (time \<times> IpAddr) list \<Rightarrow> rl_op list \<Rightarrow> (time \<times> IpAddr) list" where
  "rl_reference n w hist [] = []"
| "rl_reference n w hist (RlCleanup t # xs) = rl_reference n w hist xs"
| "rl_reference n w hist (RlRequest t ci # xs) =
     (let ip = normalize_ip (request_ip ci)
      in if length (accepted_since hist ip (t - w)) < n
         then (t, ip) # rl_reference n w (hist @ [(t, ip)]) xs else rl_reference n w hist xs)"

definition rl_rel :: "nat \<Rightarrow> nat \<Rightarrow> time \<Rightarrow> RateLimitState \<Rightarrow> (time \<times> IpAddr) list \<Rightarrow> bool" where
  "rl_rel n w c st hist \<longleftrightarrow>
     hm_wf (clients st) \<and> max_requests st = n \<and> rl_window st = w \<and>
     (\<forall>ip. filter (\<lambda>ts. c \<le> ts) (rl_entry st ip) = accepted_since hist ip c)"

lemma accepted_since_mono: "c \<le> c' \<Longrightarrow> accepted_since hist ip c' = filter (\<lambda>ts. c' \<le> ts) (accepted_since hist ip c)"
  by (auto simp: accepted_since_def intro: filter_cong)

lemma accepted_since_idem [simp]: "filter ((\<le>) c) (accepted_since hist ip c) = accepted_since hist ip c"
  by (simp add: accepted_since_def)

lemma rl_rel_mono:
  assumes "rl_rel n w c st hist" "c \<le> c'"
  shows "filter (\<lambda>ts. c' \<le> ts) (rl_entry st ip) = accepted_since hist ip c'"
proof -
  have "filter (\<lambda>ts. c' \<le> ts) (rl_entry st ip) = filter (\<lambda>ts. c' \<le> ts) (filter (\<lambda>ts. c \<le> ts) (rl_entry st ip))"
    using assms(2) by (auto intro: filter_cong)
  with assms show ?thesis by (simp add: rl_rel_def accepted_since_mono)
qed

lemma rl_cutoff_eq: "instant_sub_correct sub \<Longrightarrow> rl_window st = w \<Longrightarrow> w \<le> t \<Longrightarrow> rl_cutoff sub st t = t - w"
  by (simp add: rl_cutoff_def instant_sub_correct_def)

lemma rl_entry_insert: "rl_entry (st\<lparr>clients := hm_insert ip e (clients st)\<rparr>) i = (if i = ip then e else rl_entry st i)"
  by (simp add: rl_entry_def)

lemma map_of_pruned:
  "hm_wf m \<Longrightarrow> map_of (filter (\<lambda>(k, e). e \<noteq> []) (map (\<lambda>(k, e). (k, f e)) m)) i =
     (case map_of m i of None \<Rightarrow> None | Some e \<Rightarrow> if f e = [] then None else Some (f e))"
proof (induction m)
  case (Cons x m)
  have "map_of (filter (\<lambda>(k, e). e \<noteq> []) (map (\<lambda>(k, e). (k, f e)) m)) i = None" if "i = fst x"
    unfolding map_of_eq_None_iff using Cons.prems that by (force simp: image_iff)
  with Cons show ?case by (cases x) (auto split: option.splits)
qed simp

lemma rl_cleanup_rel:
  assumes "rl_rel n w c st hist" "instant_sub_correct sub" "w \<le> t" "c \<le> t - w"
  shows "rl_rel n w (t - w) (rate_limit_cleanup sub st t) hist"
proof -
  let ?st = "rate_limit_cleanup sub st t"
  have cut: "rl_cutoff sub st t = t - w" using assms by (intro rl_cutoff_eq) (simp_all add: rl_rel_def)
  have wf: "hm_wf (clients st)" using assms(1) by (simp add: rl_rel_def)
  have "rl_entry ?st ip = filter (\<lambda>ts. t - w \<le> ts) (rl_entry st ip)" for ip
    using map_of_pruned [OF wf, of "filter (\<lambda>ts. t - w \<le> ts)" ip]
    by (auto simp: rl_entry_def rate_limit_cleanup_def cut split: option.splits)
  moreover have "hm_wf (clients ?st)"
    using wf by (auto simp: rate_limit_cleanup_def comp_def split_beta intro!: distinct_filter)
  ultimately show ?thesis
    using assms(1) rl_rel_mono [OF assms(1,4)] by (simp add: rl_rel_def rate_limit_cleanup_def)
qed

lemma accepted_since_append:
  "accepted_since (hist @ [(t, b)]) ip c = accepted_since hist ip c @ (if b = ip \<and> c \<le> t then [t] else [])"
  by (simp add: accepted_since_def)

lemma rl_request_rel:
  assumes rel: "rl_rel n w c st hist" and sub: "instant_sub_correct sub" and t: "w \<le> t" "c \<le> t - w"
    and ip: "ip = normalize_ip (request_ip ci)"
  shows "if length (accepted_since hist ip (t - w)) < n
         then \<exists>st'. rate_limit_call sub st t ci = (Inr (), st') \<and> rl_rel n w (t - w) st' (hist @ [(t, ip)])
         else \<exists>st'. rate_limit_call sub st t ci = (Inl 429, st') \<and> rl_rel n w (t - w) st' hist"
proof -
  have cut: "rl_cutoff sub st t = t - w" using assms by (intro rl_cutoff_eq) (simp_all add: rl_rel_def)
  have st: "hm_wf (clients st)" "max_requests st = n" "rl_window st = w" using rel by (simp_all add: rl_rel_def)
  note e = rl_rel_mono [OF rel t(2)]
  let ?e = "accepted_since hist ip (t - w)"
  have call: "rate_limit_call sub st t ci =
      (if length ?e < n then (Inr (), st\<lparr>clients := hm_insert ip (?e @ [t]) (clients st)\<rparr>)
       else (Inl 429, st\<lparr>clients := hm_insert ip ?e (clients st)\<rparr>))"
    using st e by (simp add: rate_limit_call_def check_and_record_def Let_def cut ip)
  have "rl_rel n w (t - w) (st\<lparr>clients := hm_insert ip ?e (clients st)\<rparr>) hist"
    using st e by (simp add: rl_rel_def rl_entry_insert)
  moreover have "rl_rel n w (t - w) (st\<lparr>clients := hm_insert ip (?e @ [t]) (clients st)\<rparr>) (hist @ [(t, ip)])"
    using st e by (auto simp: rl_rel_def rl_entry_insert accepted_since_append)
  ultimately show ?thesis by (simp add: call)
qed

lemma rl_run_reference:
  assumes "instant_sub_correct sub" "rl_rel n w c st hist" "sorted (map rl_time xs)" "\<forall>x\<in>set xs. w \<le> rl_time x \<and> c \<le> rl_time x - w"
  shows "rl_run sub st xs = rl_reference n w hist xs"
  using assms(2-4)
proof (induction xs arbitrary: c st hist)
  case (Cons x xs)
  have later: "\<forall>y\<in>set xs. w \<le> rl_time y \<and> rl_time x - w \<le> rl_time y - w"
    using Cons.prems(2,3) by (auto simp: diff_le_mono)
  have srt: "sorted (map rl_time xs)" using Cons.prems(2) by simp
  show ?case
  proof (cases x)
    case (RlCleanup t)
    have "rl_rel n w (t - w) (rate_limit_cleanup sub st t) hist"
      using rl_cleanup_rel [OF Cons.prems(1) assms(1)] Cons.prems(3) RlCleanup by simp
    from Cons.IH [OF this srt] later RlCleanup show ?thesis by simp
  next
    case (RlRequest t ci)
    let ?ip = "normalize_ip (request_ip ci)"
    have "w \<le> t" "c \<le> t - w" using Cons.prems(3) RlRequest by auto
    from rl_request_rel [OF Cons.prems(1) assms(1) this refl, of ci] show ?thesis
      using Cons.IH [OF _ srt] later RlRequest
      by (cases "length (accepted_since hist ?ip (t - w)) < n") (auto simp: Let_def)
  qed
qed simp

definition window_count :: "(time \<times> IpAddr) list \<Rightarrow> IpAddr \<Rightarrow> nat \<Rightarrow> time \<Rightarrow> nat" where
  "window_count hist ip w t = length (filter (\<lambda>(ts, b). b = ip \<and> t \<le> ts + w \<and> ts \<le> t) hist)"

lemma window_count_append: "window_count (xs @ ys) ip w t = window_count xs ip w t + window_count ys ip w t"
  by (simp add: window_count_def)

lemma length_filter_mono: "(\<And>x. P x \<Longrightarrow> Q x) \<Longrightarrow> length (filter P xs) \<le> length (filter Q xs)"
  by (induction xs) (auto intro: le_SucI)

lemma window_count_le_since:
  assumes "w \<le> now" "now \<le> t"
  shows "window_count hist ip w t \<le> length (accepted_since hist ip (now - w))"
proof -
  have "window_count hist ip w t = length (filter (\<lambda>(ts, b). t \<le> ts + w \<and> ts \<le> t) (filter (\<lambda>(_, b). b = ip) hist))"
    unfolding window_count_def filter_filter by (rule arg_cong [where f = length], rule filter_cong) auto
  also have "\<dots> \<le> length (filter (\<lambda>(ts, b). now - w \<le> ts) (filter (\<lambda>(_, b). b = ip) hist))"
    using assms by (intro length_filter_mono) auto
  also have "\<dots> = length (accepted_since hist ip (now - w))"
    unfolding accepted_since_def filter_map length_map by (rule arg_cong [where f = length], rule filter_cong) auto
  finally show ?thesis .
qed

lemma reference_window_bound:
  assumes "sorted (map rl_time xs)" "\<forall>x\<in>set xs. w \<le> rl_time x" "\<forall>ip t. window_count hist ip w t \<le> n"
  shows "window_count (hist @ rl_reference n w hist xs) ip w t \<le> n"
  using assms
proof (induction xs arbitrary: hist)
  case (Cons x xs)
  show ?case
  proof (cases x)
    case (RlCleanup u)
    with Cons show ?thesis by simp
  next
    case (RlRequest u ci)
    let ?b = "normalize_ip (request_ip ci)"
    show ?thesis
    proof (cases "length (accepted_since hist ?b (u - w)) < n")
      case False
      with Cons RlRequest show ?thesis by (simp add: Let_def)
    next
      case True
      have "window_count (hist @ [(u, ?b)]) i w v \<le> n" for i v
      proof (cases "i = ?b \<and> u \<le> v")
        case hit: True
        then have "window_count hist i w v < n"
          using window_count_le_since [of w u v hist i] Cons.prems(2) RlRequest True by simp
        then show ?thesis by (simp add: window_count_append window_count_def [of "[_]"])
      next
        case False
        then have "window_count [(u, ?b)] i w v = 0" by (auto simp: window_count_def)
        with Cons.prems(3) show ?thesis by (simp add: window_count_append)
      qed
      then have "window_count ((hist @ [(u, ?b)]) @ rl_reference n w (hist @ [(u, ?b)]) xs) ip w t \<le> n"
        using Cons.IH [of "hist @ [(u, ?b)]"] Cons.prems(1,2) by simp
      with RlRequest True show ?thesis by (simp add: Let_def)
    qed
  qed
qed simp

lemma rl_rel_new: "rl_rel n w c (rate_limit_new n w) []"
  by (simp add: rl_rel_def rate_limit_new_def rl_entry_def accepted_since_def)

text \<open>
  C31. The rate limiter is exact and bounds every rolling window. On a monotonic clock, and whatever requests
  and background clean-ups occur, it accepts a request exactly when fewer than \<open>max_requests\<close> requests of the
  same address bucket (an IPv4 address or an IPv6 /64 network) were accepted in the window before it,
  as a limiter with the complete history would; so in every interval of the window's length at most
  \<open>max_requests\<close> requests of a bucket are accepted.
\<close>
theorem rate_limit_exact:
  assumes "instant_sub_correct sub" and "sorted (map rl_time xs)" and "\<forall>x\<in>set xs. w \<le> rl_time x"
  shows "rl_run sub (rate_limit_new n w) xs = rl_reference n w [] xs \<and>
         window_count (rl_run sub (rate_limit_new n w) xs) ip w t \<le> n"
proof -
  have "rl_run sub (rate_limit_new n w) xs = rl_reference n w [] xs"
    using assms by (intro rl_run_reference [where c = 0] rl_rel_new) auto
  with reference_window_bound [OF assms(2,3), of "[]" n ip t] show ?thesis by (simp add: window_count_def)
qed

theorem rate_limit_exact_witness:
  "let sub = (\<lambda>now w. if w \<le> now then Some (now - w) else None);
       xs = [RlRequest 100 None, RlRequest 101 None, RlRequest 102 None, RlCleanup 130, RlRequest 150 None]
   in instant_sub_correct sub \<and> map fst (rl_run sub (rate_limit_new 2 10) xs) = [100, 101, 150]"
proof -
  let ?sub = "(\<lambda>now w. if w \<le> now then Some (now - w) else None) :: instant_sub"
  let ?xs = "[RlRequest 100 None, RlRequest 101 None, RlRequest 102 None, RlCleanup 130, RlRequest 150 None]"
  have s: "instant_sub_correct ?sub" by (simp add: instant_sub_correct_def)
  have "rl_run ?sub (rate_limit_new 2 10) ?xs = rl_reference 2 10 [] ?xs"
    using rate_limit_exact [OF s, of ?xs 10 2] by simp
  with s show ?thesis by (simp add: Let_def accepted_since_def request_ip_def)
qed

subsection \<open>What the local guard remembers\<close>

text \<open>A Bloom filter has no false negatives, and an empty filter no positives.\<close>

definition bloom_correct :: "('b, 'f) bloom_lib \<Rightarrow> bool" where
  "bloom_correct B \<longleftrightarrow>
     (\<forall>b x. bl_check B (bl_set B b x) x) \<and> (\<forall>b x y. bl_check B b x \<longrightarrow> bl_check B (bl_set B b y) x) \<and>
     (\<forall>n f b x. bl_new B n f = Some b \<longrightarrow> \<not> bl_check B b x)"

definition local_attempt :: "('b, 'f) bloom_lib \<Rightarrow> 'b LocalReplayGuard \<Rightarrow> bytes \<times> u64 \<Rightarrow> bool \<times> 'b LocalReplayGuard" where
  "local_attempt B g x = (case local_check_and_accept B g (fst x) (snd x) of (r, g') \<Rightarrow> (\<not> isl r, g'))"

definition local_seen :: "('b, 'f) bloom_lib \<Rightarrow> 'b LocalReplayGuard \<Rightarrow> (bytes \<times> u64) set \<Rightarrow> bool" where
  "local_seen B g A \<longleftrightarrow> (\<forall>x\<in>A. in_prev B (lg_prev g) (snd x) \<or> bl_check B (lg_bloom g) (be64 (snd x)))"

lemma local_once_only: "bloom_correct B \<Longrightarrow> once_only (local_attempt B) (local_seen B)"
  by unfold_locales
    (auto simp: local_attempt_def local_check_and_accept_def local_seen_def bloom_correct_def split: if_splits)

lemma local_rotate_seen:
  assumes "local_rotate B g = Some g'" "local_seen B g A" "lg_prev g = None"
  shows "local_seen B g' A"
  using assms by (auto simp: local_rotate_def local_seen_def in_prev_def)

lemma local_attempt_prev: "lg_prev (snd (local_attempt B g x)) = lg_prev g"
  by (simp add: local_attempt_def local_check_and_accept_def)

lemma local_run_prev: "lg_prev (guard_run (local_attempt B) g xs) = lg_prev g"
  by (induction xs arbitrary: g) (simp_all add: local_attempt_prev)

text \<open>
  The local Bloom-filter guard, used sequentially, accepts no nonce twice from its creation to the end of
  the first rotation period after it. It ignores the session key of the request: a nonce accepted for
  one session is refused for every other, although session counters all start at one.
\<close>
lemma local_guard_once:
  assumes "bloom_correct B" and "local_guard_new B items rate = Some g"
    and "local_rotate B (guard_run (local_attempt B) g xs) = Some g'"
  shows "distinct (accepted_by (local_attempt B) g xs @ accepted_by (local_attempt B) g' ys) \<and>
         (fst (local_check_and_accept B g k n) = Inr () \<longrightarrow>
            (\<forall>k'. local_check_and_accept B (snd (local_check_and_accept B g k n)) k' n =
                    (Inl (Replay n), snd (local_check_and_accept B g k n))))"
proof -
  note once = local_once_only [OF assms(1)]
  let ?A = "set (accepted_by (local_attempt B) g xs)" and ?h = "guard_run (local_attempt B) g xs"
  have "lg_prev g = None" using assms(2) by (auto simp: local_guard_new_def)
  then have p: "lg_prev ?h = None" by (simp add: local_run_prev)
  have "local_seen B ?h ?A" using once_only.run_seen [OF once, of g "{}" xs] by (simp add: local_seen_def)
  then have g': "local_seen B g' ?A" using local_rotate_seen [OF assms(3) _ p] by simp
  have "distinct (accepted_by (local_attempt B) g xs)"
    by (rule once_only.accepted_distinct [OF once, of g "{}"]) (simp add: local_seen_def)
  moreover have "distinct (accepted_by (local_attempt B) g' ys)" "set (accepted_by (local_attempt B) g' ys) \<inter> ?A = {}"
    using once_only.accepted_distinct [OF once g'] once_only.accepted_fresh [OF once g'] by simp_all
  ultimately have "distinct (accepted_by (local_attempt B) g xs @ accepted_by (local_attempt B) g' ys)" by auto
  moreover have "local_check_and_accept B (snd (local_check_and_accept B g k n)) k' n =
      (Inl (Replay n), snd (local_check_and_accept B g k n))"
    if "fst (local_check_and_accept B g k n) = Inr ()" for k'
    using that assms(1) by (auto simp: local_check_and_accept_def bloom_correct_def split: if_splits)
  ultimately show ?thesis by blast
qed

definition list_bloom :: "(bytes list, unit) bloom_lib" where
  "list_bloom = \<lparr>bl_new = (\<lambda>n f. Some []), bl_check = (\<lambda>b x. x \<in> set b), bl_set = (\<lambda>b x. x # b), bl_rotate_rate = ()\<rparr>"

lemma list_bloom_correct: "bloom_correct list_bloom"
  by (auto simp: bloom_correct_def list_bloom_def)

abbreviation empty_local_guard :: "bytes list LocalReplayGuard" where
  "empty_local_guard \<equiv> \<lparr>lg_bloom = [], lg_prev = None, lg_capacity = 9, lg_count = 0\<rparr>"

subsection \<open>Rotation races\<close>

text \<open>
  The two filters have a mutex each, and neither operation holds both: \<open>check_and_accept\<close> looks into the previous
  filter, releases it, and then checks and sets the active one; \<open>rotate\<close> swaps the active filter and then
  stores the old one. A thread is at one of these actions.
\<close>

datatype 'b lg_thread =
    ChkPrev u64 | ChkBloom u64 | Accepted u64 | Refused u64 | RotSwap | RotStore 'b | RotDone

inductive lg_step ::
    "('b, 'f) bloom_lib \<Rightarrow> nat \<Rightarrow> 'b \<times> 'b option \<times> 'b lg_thread list \<Rightarrow> 'b \<times> 'b option \<times> 'b lg_thread list \<Rightarrow> bool"
  for B cap where
    check_prev: "i < length ts \<Longrightarrow> ts ! i = ChkPrev n \<Longrightarrow>
      lg_step B cap (b, p, ts) (b, p, ts[i := if in_prev B p n then Refused n else ChkBloom n])"
  | check_bloom: "i < length ts \<Longrightarrow> ts ! i = ChkBloom n \<Longrightarrow>
      lg_step B cap (b, p, ts)
        (if bl_check B b (be64 n) then (b, p, ts[i := Refused n]) else (bl_set B b (be64 n), p, ts[i := Accepted n]))"
  | rot_swap: "i < length ts \<Longrightarrow> ts ! i = RotSwap \<Longrightarrow> bl_new B cap (bl_rotate_rate B) = Some fresh \<Longrightarrow>
      lg_step B cap (b, p, ts) (fresh, p, ts[i := RotStore b])"
  | rot_store: "i < length ts \<Longrightarrow> ts ! i = RotStore old \<Longrightarrow>
      lg_step B cap (b, p, ts) (b, Some old, ts[i := RotDone])"

text \<open>
  C32. The local guard's check is not atomic with respect to rotation: with one rotation running, there is an
  interleaving in which two threads that present the same fresh nonce are both accepted.
\<close>
theorem rotation_race_accepts_replay:
  assumes "bloom_correct B" and "bl_new B cap (bl_rotate_rate B) = Some fresh" and "\<not> bl_check B b (be64 n)"
  shows "\<exists>b' p'. (lg_step B cap)\<^sup>*\<^sup>* (b, None, [ChkPrev n, ChkPrev n, RotSwap]) (b', p', [Accepted n, Accepted n, RotDone])"
proof -
  have fr: "\<not> bl_check B fresh (be64 n)" using assms(1,2) by (auto simp: bloom_correct_def)
  let ?b = "bl_set B b (be64 n)"
  have 1: "lg_step B cap (b, None, [ChkPrev n, ChkPrev n, RotSwap]) (b, None, [ChkBloom n, ChkPrev n, RotSwap])"
    using check_prev [of 0 "[ChkPrev n, ChkPrev n, RotSwap]" n B cap b None] by (simp add: in_prev_def)
  have 2: "lg_step B cap (b, None, [ChkBloom n, ChkPrev n, RotSwap]) (b, None, [ChkBloom n, ChkBloom n, RotSwap])"
    using check_prev [of 1 "[ChkBloom n, ChkPrev n, RotSwap]" n B cap b None] by (simp add: in_prev_def)
  have 3: "lg_step B cap (b, None, [ChkBloom n, ChkBloom n, RotSwap]) (?b, None, [Accepted n, ChkBloom n, RotSwap])"
    using check_bloom [of 0 "[ChkBloom n, ChkBloom n, RotSwap]" n B cap b None] assms(3) by simp
  have 4: "lg_step B cap (?b, None, [Accepted n, ChkBloom n, RotSwap]) (fresh, None, [Accepted n, ChkBloom n, RotStore ?b])"
    using rot_swap [of 2 "[Accepted n, ChkBloom n, RotSwap]" B cap fresh ?b None] assms(2) by simp
  have 5: "lg_step B cap (fresh, None, [Accepted n, ChkBloom n, RotStore ?b])
      (bl_set B fresh (be64 n), None, [Accepted n, Accepted n, RotStore ?b])"
    using check_bloom [of 1 "[Accepted n, ChkBloom n, RotStore ?b]" n B cap fresh None] fr by simp
  have 6: "lg_step B cap (bl_set B fresh (be64 n), None, [Accepted n, Accepted n, RotStore ?b])
      (bl_set B fresh (be64 n), Some ?b, [Accepted n, Accepted n, RotDone])"
    using rot_store [of 2 "[Accepted n, Accepted n, RotStore ?b]" ?b B cap "bl_set B fresh (be64 n)" None] by simp
  from 1 2 3 4 5 6 show ?thesis by (meson converse_rtranclp_into_rtranclp rtranclp.rtrancl_refl)
qed

theorem rotation_race_accepts_replay_witness:
  "\<exists>b' p'. (lg_step list_bloom 9)\<^sup>*\<^sup>* ([], None, [ChkPrev 5, ChkPrev 5, RotSwap]) (b', p', [Accepted 5, Accepted 5, RotDone])"
proof -
  have "bl_new list_bloom 9 (bl_rotate_rate list_bloom) = Some []" "\<not> bl_check list_bloom [] (be64 5)"
    by (simp_all add: list_bloom_def)
  from rotation_race_accepts_replay [OF list_bloom_correct this] show ?thesis .
qed

subsection \<open>The file-backed guard survives restarts\<close>

text \<open>
  A history of the file-backed guard: attempts, each a \<open>check\<close> followed on success by an \<open>accept\<close> whose writing
  may fail, and restarts that load the file. An attempt hands out its nonce when \<open>accept\<close> returned \<open>Ok\<close>.
\<close>

datatype file_guard_op = FgAttempt u64 "string option" | FgRestart

fun file_guard_step :: "ReplayGuard \<times> replay_file \<Rightarrow> file_guard_op \<Rightarrow> (unit + u64) \<times> ReplayGuard \<times> replay_file" where
  "file_guard_step (g, f) (FgAttempt n io) =
     (case file_guard_check g n of
        Inl _ \<Rightarrow> (Inl (), g, f)
      | Inr _ \<Rightarrow>
          (case file_guard_accept (g, f) n io of
             (Inl _, s') \<Rightarrow> (Inl (), s')
           | (Inr _, s') \<Rightarrow> (Inr n, s')))"
| "file_guard_step (g, f) FgRestart = (Inl (), file_guard_new (length (window g)) f, f)"

definition file_guard_used :: "ReplayGuard \<times> replay_file \<Rightarrow> u64 set \<Rightarrow> bool" where
  "file_guard_used s A \<longleftrightarrow>
     (\<exists>M. guard_seen (fst s) M \<and> A \<subseteq> M) \<and>
     (\<exists>F. guard_seen (file_guard_new (length (window (fst s))) (snd s)) F \<and> A \<subseteq> F)"

lemma file_guard_step_used:
  assumes "file_guard_used s A" "file_guard_step s x = (r, s')"
  shows "(\<forall>n. r = Inr n \<longrightarrow> n \<notin> A \<and> file_guard_used s' (insert n A)) \<and> ((\<exists>e. r = Inl e) \<longrightarrow> file_guard_used s' A)"
proof -
  obtain g f where s: "s = (g, f)" by fastforce
  obtain M F where u: "guard_seen g M" "A \<subseteq> M" "guard_seen (file_guard_new (length (window g)) f) F" "A \<subseteq> F"
    using assms(1) s by (auto simp: file_guard_used_def)
  show ?thesis
  proof (cases x)
    case FgRestart
    then have "r = Inl ()" "s' = (file_guard_new (length (window g)) f, f)" using assms(2) s by auto
    moreover have "length (window (file_guard_new (length (window g)) f)) = length (window g)"
      by (auto simp: file_guard_new_def guard_new_def guard_import_state_def split: replay_file.splits)
    ultimately show ?thesis using u(3,4) by (auto simp: file_guard_used_def)
  next
    case (FgAttempt n io)
    show ?thesis
    proof (cases "guard_check g n")
      case (Inl e)
      then show ?thesis using FgAttempt assms s by (auto simp: file_guard_check_def)
    next
      case (Inr z)
      then have ok: "guard_check g n = Inr ()" by simp
      note acc = guard_checked_seen [OF u(1) ok]
      let ?g = "guard_accept g n"
      have restore: "file_guard_new (length (window g)) (Stored (highest ?g) (window ?g)) = ?g"
        by (simp add: file_guard_new_def guard_import_state_def guard_new_def)
      show ?thesis
      proof (cases io)
        case None
        then have "r = Inr n" "s' = (?g, Stored (highest ?g) (window ?g))"
          using FgAttempt assms(2) s ok
          by (auto simp: file_guard_check_def file_guard_accept_def file_guard_persist_def guard_export_state_def Let_def)
        with acc u(2) restore show ?thesis by (auto simp: file_guard_used_def)
      next
        case (Some e)
        then have "r = Inl ()" "s' = (?g, f)"
          using FgAttempt assms(2) s ok
          by (auto simp: file_guard_check_def file_guard_accept_def file_guard_persist_def Let_def)
        with acc(2) u show ?thesis by (auto simp: file_guard_used_def)
      qed
    qed
  qed
qed

interpretation file_guard: fresh_source file_guard_step file_guard_used
  by unfold_locales (use file_guard_step_used in blast)+

text \<open>
  The file-backed guard confirms no nonce twice, across failed writes and any number of restarts that
  load the state file, whatever the order of the nonces.
\<close>
lemma file_guard_once_across_restarts:
  assumes "0 < W" and "f = NoState \<or> f = Unreadable"
  shows "distinct (issued_by file_guard_step (file_guard_new W f, f) xs)"
proof -
  have "file_guard_new W f = guard_new W" "length (window (guard_new W)) = W"
    using assms(2) by (auto simp: file_guard_new_def guard_new_def)
  then have "file_guard_used (file_guard_new W f, f) {}"
    using guard_seen_new [OF assms(1)] by (auto simp: file_guard_used_def)
  then show ?thesis by (rule file_guard.issued_distinct)
qed

subsection \<open>A ticket resumes at most once\<close>

text \<open>
  The contract of the trait \<open>DistributedReplayGuard\<close>: an accepted pair of key and nonce was not accepted
  before, and nothing accepted is forgotten.
\<close>

fun rtt0_run :: "'g replay_service \<Rightarrow> AtbRegistry \<times> 'g \<Rightarrow> (rtt0_env \<times> Parts) list \<Rightarrow> AtbRegistry \<times> 'g" where
  "rtt0_run guard s [] = s"
| "rtt0_run guard s ((E, p) # xs) = rtt0_run guard (snd (rtt0_call E guard s p)) xs"

definition ticket_key :: "rtt0_env \<Rightarrow> DurableSessionState \<Rightarrow> bytes \<times> u64" where
  "ticket_key E d = (wl_uuid_show (r0_wire E) (d_id d), d_client_counter d)"

locale distributed_guard =
  fixes guard :: "'g replay_service" and seen :: "'g \<Rightarrow> (bytes \<times> u64) set \<Rightarrow> bool"
  assumes accept_fresh: "seen g A \<Longrightarrow> guard g k n = (Inr (), g') \<Longrightarrow> (k, n) \<notin> A \<and> seen g' (insert (k, n) A)"
    and refuse_keeps: "seen g A \<Longrightarrow> guard g k n = (Inl e, g') \<Longrightarrow> seen g' A"
    and seen_mono: "seen g A \<Longrightarrow> B \<subseteq> A \<Longrightarrow> seen g B"
begin

lemma call_changed:
  assumes "seen g A" "rtt0_call E guard (rg, g) p = (r, rg', g')" "rg' \<noteq> rg"
  shows "\<exists>d. resumption_ticket E p = Some d \<and> ticket_key E d \<notin> A \<and> seen g' (insert (ticket_key E d) A)"
  using assms accept_fresh [OF assms(1)]
  by (auto simp: rtt0_call_def ticket_key_def split: if_splits option.splits prod.splits sum.splits)

lemma call_keeps:
  assumes "seen g A" "rtt0_call E guard (rg, g) p = (r, rg', g')"
  shows "seen g' A"
proof -
  have "guard g k n = (Inr (), h) \<Longrightarrow> seen h A" for k n h
    using accept_fresh [OF assms(1)] seen_mono by blast
  with assms refuse_keeps [OF assms(1)] show ?thesis
    by (auto simp: rtt0_call_def split: if_splits option.splits prod.splits sum.splits)
qed

lemma run_keeps: "seen (snd s) A \<Longrightarrow> seen (snd (rtt0_run guard s xs)) A"
proof (induction xs arbitrary: s)
  case (Cons x xs)
  obtain E p where x: "x = (E, p)" by fastforce
  obtain r rg' g' where c: "rtt0_call E guard (fst s, snd s) p = (r, rg', g')" by (rule prod_cases3)
  from call_keeps [OF Cons.prems c] Cons.IH [of "(rg', g')"] c x show ?case by simp
qed simp

lemma resumes_once:
  assumes s: "seen (snd s) A" and first: "fst (snd (rtt0_call E guard s p)) \<noteq> fst s"
    and d: "resumption_ticket E p = Some d" "resumption_ticket E' p' = Some d'" "ticket_key E' d' = ticket_key E d"
    and t: "t = rtt0_run guard (snd (rtt0_call E guard s p)) xs"
  shows "fst (snd (rtt0_call E' guard t p')) = fst t"
proof (rule ccontr)
  assume change: "fst (snd (rtt0_call E' guard t p')) \<noteq> fst t"
  obtain r rg' g' where c: "rtt0_call E guard (fst s, snd s) p = (r, rg', g')" by (rule prod_cases3)
  obtain r2 rg2 g2 where c2: "rtt0_call E' guard (fst t, snd t) p' = (r2, rg2, g2)" by (rule prod_cases3)
  from call_changed [OF s c] first c d(1) have "seen g' (insert (ticket_key E d) A)" by simp
  then have "seen (snd t) (insert (ticket_key E d) A)" using run_keeps [of "(rg', g')"] c t by simp
  from call_changed [OF this c2] change c2 d(2,3) show False by simp
qed

end

lemma local_distributed_guard: "bloom_correct B \<Longrightarrow> distributed_guard (local_check_and_accept B) (local_seen B)"
  by unfold_locales
    (auto simp: local_check_and_accept_def local_seen_def bloom_correct_def split: if_splits)

text \<open>
  The Redis guard meets the contract as long as no stored key expires: \<open>has r k\<close> says that the server holds
  the key \<open>k\<close>. Different pairs of guard key and nonce have different Redis keys.
\<close>

definition redis_correct :: "'r redis_lib \<Rightarrow> ('r \<Rightarrow> bytes \<Rightarrow> bool) \<Rightarrow> bool" where
  "redis_correct R has \<longleftrightarrow>
     (\<forall>r k t x r' j. rd_set_nx_px R r k t = (x, r') \<longrightarrow>
        (\<forall>a. x = Inr (Some a) \<longrightarrow> \<not> has r k \<and> has r' k) \<and> (has r j \<longrightarrow> has r' j))"

definition redis_seen :: "('r \<Rightarrow> bytes \<Rightarrow> bool) \<Rightarrow> 'r \<Rightarrow> (bytes \<times> u64) set \<Rightarrow> bool" where
  "redis_seen has r A \<longleftrightarrow> (\<forall>(k, n)\<in>A. has r (redis_key k n))"

lemma redis_key_inj: "redis_key k n = redis_key k' n' \<longleftrightarrow> k = k' \<and> n = n'"
proof -
  have tail: "takeWhile (\<lambda>x. x \<noteq> 58) (rev (redis_key k n)) = rev (str_bytes (show_nat (unat n)))" for k n
  proof -
    have "\<forall>x\<in>set (rev (str_bytes (show_nat (unat n)))). x \<noteq> 58" using colon_not_digit by (metis set_rev)
    moreover have "rev (redis_key k n) = rev (str_bytes (show_nat (unat n))) @ 58 # rev (str_bytes ''replay:'' @ k)"
      by (simp add: redis_key_def str_bytes_def)
    ultimately show ?thesis by (simp add: takeWhile_tail takeWhile_append2)
  qed
  have "n = n'" if "redis_key k n = redis_key k' n'"
    using arg_cong [OF that, of "\<lambda>x. takeWhile (\<lambda>x. x \<noteq> 58) (rev x)"]
    unfolding tail rev_is_rev_conv str_bytes_inj show_nat_inj by (simp only: word_unat_eq_iff)
  then show ?thesis by (auto simp: redis_key_def)
qed

lemma redis_distributed_guard: "redis_correct R has \<Longrightarrow> distributed_guard (redis_check_and_accept R ttl) (redis_seen has)"
proof unfold_locales
  fix g A k n g'
  assume c: "redis_correct R has" and s: "redis_seen has g A" and ok: "redis_check_and_accept R ttl g k n = (Inr (), g')"
  obtain a where "rd_set_nx_px R g (redis_key k n) (redis_ttl_ms ttl) = (Inr (Some a), g')"
    using ok by (auto simp: redis_check_and_accept_def set_nx_def split: prod.splits sum.splits if_splits)
  with c s show "(k, n) \<notin> A \<and> redis_seen has g' (insert (k, n) A)"
    by (fastforce simp: redis_correct_def redis_seen_def)
next
  fix g A k n e g'
  assume c: "redis_correct R has" and s: "redis_seen has g A" and ok: "redis_check_and_accept R ttl g k n = (Inl e, g')"
  obtain x where "rd_set_nx_px R g (redis_key k n) (redis_ttl_ms ttl) = (x, g')"
    using ok by (auto simp: redis_check_and_accept_def set_nx_def split: prod.splits sum.splits if_splits)
  with c s show "redis_seen has g' A" by (fastforce simp: redis_correct_def redis_seen_def)
next
  show "redis_seen has g B" if "redis_seen has g A" "B \<subseteq> A" for g A B using that by (auto simp: redis_seen_def)
qed

definition list_redis :: "bytes list redis_lib" where
  "list_redis = \<lparr>rd_set_nx_px = (\<lambda>r k t. if k \<in> set r then (Inr None, r) else (Inr (Some ''OK''), k # r)),
     rd_exists = (\<lambda>r k. Inr (k \<in> set r))\<rparr>"

lemma list_redis_correct: "redis_correct list_redis (\<lambda>r k. k \<in> set r)"
  by (auto simp: redis_correct_def list_redis_def split: if_splits)

interpretation redis_guard: distributed_guard "redis_check_and_accept list_redis ttl" "redis_seen (\<lambda>r k. k \<in> set r)" for ttl
  by (rule redis_distributed_guard [OF list_redis_correct])

interpretation list_guard: distributed_guard "local_check_and_accept list_bloom" "local_seen list_bloom"
  by (rule local_distributed_guard [OF list_bloom_correct])

text \<open>
  With a Redis server that keeps its keys a ticket resumes at most once, whatever other 0-RTT requests come in between.
\<close>
lemma redis_ticket_resumes_once:
  assumes "redis_correct R has" and "fst (snd (rtt0_call E (redis_check_and_accept R ttl) s p)) \<noteq> fst s"
    and "resumption_ticket E p = Some d" and "resumption_ticket E' p' = Some d'" and "ticket_key E' d' = ticket_key E d"
    and "t = rtt0_run (redis_check_and_accept R ttl) (snd (rtt0_call E (redis_check_and_accept R ttl) s p)) xs"
  shows "fst (snd (rtt0_call E' (redis_check_and_accept R ttl) t p')) = fst t"
proof -
  have "redis_seen has (snd s) {}" by (simp add: redis_seen_def)
  from distributed_guard.resumes_once [OF redis_distributed_guard [OF assms(1)] this assms(2-6)] show ?thesis .
qed

subsection \<open>Rotation and resumption\<close>

text \<open>
  A history of the resumption layer with the local guard: 0-RTT requests and rotations, one after the other. A rotation
  whose fresh filter cannot be built panics before it touches the filters.
\<close>

datatype rtt0_op = Rtt0Request rtt0_env Parts | is_rotation: RotateGuard

fun rtt0_history ::
    "('b, 'f) bloom_lib \<Rightarrow> AtbRegistry \<times> 'b LocalReplayGuard \<Rightarrow> rtt0_op list \<Rightarrow> AtbRegistry \<times> 'b LocalReplayGuard" where
  "rtt0_history B s [] = s"
| "rtt0_history B s (Rtt0Request E p # xs) = rtt0_history B (snd (rtt0_call E (local_check_and_accept B) s p)) xs"
| "rtt0_history B s (RotateGuard # xs) =
     rtt0_history B (fst s, case local_rotate B (snd s) of None \<Rightarrow> snd s | Some g \<Rightarrow> g) xs"

definition remembers :: "('b, 'f) bloom_lib \<Rightarrow> 'b LocalReplayGuard \<Rightarrow> u64 \<Rightarrow> bool" where
  "remembers B g n \<longleftrightarrow> in_prev B (lg_prev g) n \<or> bl_check B (lg_bloom g) (be64 n)"

lemma rtt0_call_guard:
  "snd (snd (rtt0_call E guard s p)) = snd s \<or> (\<exists>k n. snd (snd (rtt0_call E guard s p)) = snd (guard (snd s) k n))"
proof (cases s)
  case (Pair rg g)
  show ?thesis
  proof (cases "resumption_ticket E p")
    case None
    with Pair show ?thesis by (simp add: rtt0_call_def)
  next
    case (Some d)
    let ?k = "wl_uuid_show (r0_wire E) (d_id d)" and ?n = "d_client_counter d"
    have "snd (snd (rtt0_call E guard s p)) \<in> {g, snd (guard g ?k ?n)}"
      using Pair Some by (cases "guard g ?k ?n") (auto simp: rtt0_call_def split: sum.splits)
    with Pair show ?thesis by auto
  qed
qed

lemma rtt0_call_holds:
  assumes "bloom_correct B" "bl_check B (lg_bloom (snd s)) (be64 n)"
  shows "bl_check B (lg_bloom (snd (snd (rtt0_call E (local_check_and_accept B) s p)))) (be64 n)"
proof -
  have "bl_check B (lg_bloom (snd (local_check_and_accept B (snd s) k m))) (be64 n)" for k m
    using assms by (simp add: local_check_and_accept_def bloom_correct_def)
  then show ?thesis using rtt0_call_guard [of E "local_check_and_accept B" s p] assms(2) by auto
qed

lemma rtt0_call_remembers:
  assumes "bloom_correct B" "remembers B (snd s) n"
  shows "remembers B (snd (snd (rtt0_call E (local_check_and_accept B) s p))) n"
proof -
  have "remembers B (snd (local_check_and_accept B (snd s) k m)) n" for k m
    using assms by (auto simp: local_check_and_accept_def bloom_correct_def remembers_def)
  then show ?thesis using rtt0_call_guard [of E "local_check_and_accept B" s p] assms(2) by auto
qed

lemma history_remembers:
  assumes "bloom_correct B" "remembers B (snd s) n" "filter is_rotation xs = []"
  shows "remembers B (snd (rtt0_history B s xs)) n"
  using assms(2,3)
proof (induction xs arbitrary: s)
  case (Cons x xs)
  then show ?case by (cases x) (use rtt0_call_remembers [OF assms(1)] in auto)
qed simp

lemma history_one_rotation:
  assumes "bloom_correct B" "bl_check B (lg_bloom (snd s)) (be64 n)" "length (filter is_rotation xs) \<le> 1"
  shows "remembers B (snd (rtt0_history B s xs)) n"
  using assms(2,3)
proof (induction xs arbitrary: s)
  case Nil
  then show ?case by (simp add: remembers_def)
next
  case (Cons x xs)
  show ?case
  proof (cases x)
    case (Rtt0Request E p)
    with Cons rtt0_call_holds [OF assms(1) Cons.prems(1), of E p] show ?thesis by simp
  next
    case RotateGuard
    let ?s = "(fst s, case local_rotate B (snd s) of None \<Rightarrow> snd s | Some g \<Rightarrow> g)"
    have "remembers B (snd ?s) n"
      using Cons.prems(1) by (auto simp: remembers_def in_prev_def local_rotate_def split: option.splits)
    moreover have "filter is_rotation xs = []" using Cons.prems(2) RotateGuard by simp
    ultimately have "remembers B (snd (rtt0_history B ?s xs)) n" by (rule history_remembers [OF assms(1)])
    with RotateGuard show ?thesis by simp
  qed
qed

lemma rtt0_call_remembered:
  assumes "resumption_ticket E p = Some d" "remembers B g (d_client_counter d)"
  shows "fst (snd (rtt0_call E (local_check_and_accept B) (rg, g) p)) = rg"
  using assms by (auto simp: rtt0_call_def local_check_and_accept_def remembers_def)

lemma rtt0_call_resumed:
  assumes "bloom_correct B" "resumption_ticket E p = Some d"
    and "fst (snd (rtt0_call E (local_check_and_accept B) s p)) \<noteq> fst s"
  shows "bl_check B (lg_bloom (snd (snd (rtt0_call E (local_check_and_accept B) s p)))) (be64 (d_client_counter d))"
  using assms
  by (cases s) (auto simp: rtt0_call_def local_check_and_accept_def bloom_correct_def split: if_splits)

lemma two_rotations_forget:
  assumes "bloom_correct B" "local_rotate B g = Some g1" "local_rotate B g1 = Some g2"
  shows "fst (local_check_and_accept B g2 k n) = Inr ()"
  using assms by (auto simp: local_rotate_def local_check_and_accept_def in_prev_def bloom_correct_def)

lemma rtt0_call_accepted:
  assumes "resumption_ticket E p = Some d" "is_safe (pt_method p)"
    and "\<And>k n. fst (local_check_and_accept B g k n) = Inr ()"
  shows "fst (snd (rtt0_call E (local_check_and_accept B) (rg, g) p)) =
    snd (registry_insert rg (from_durable (rtt0_state E p d) (r0_now E) (r0_now_sys E)))"
proof -
  have "hdr_get (pt_headers p) ''attest-ticket-resumption'' \<noteq> None" using assms(1)
    by (cases "hdr_get (pt_headers p) ''attest-ticket-resumption''") (simp_all add: resumption_ticket_def)
  moreover obtain g' where "local_check_and_accept B g (wl_uuid_show (r0_wire E) (d_id d)) (d_client_counter d) = (Inr (), g')"
    using assms(3) by (metis prod.collapse)
  ultimately show ?thesis using assms(1,2) by (auto simp: rtt0_call_def)
qed

text \<open>
  C30. How long the local replay guard keeps a session ticket from resuming twice, for requests handled one after the
  other. After a request with a ticket changed the registry, no later request whose ticket carries the same counter
  changes it, as long as the guard is rotated at most once in between, whatever 0-RTT requests come in
  between, whatever the clock and the salt are, and whatever session the ticket is for (the guard ignores the session).
  Two further rotations make the guard forget the counter: then an unexpired ticket resumes its session again.
\<close>
theorem rtt0_ticket_resumes_once:
  assumes "bloom_correct B" and "fst (snd (rtt0_call E (local_check_and_accept B) s p)) \<noteq> fst s"
    and "resumption_ticket E p = Some d" and "resumption_ticket E' p' = Some d'" and "d_client_counter d' = d_client_counter d"
    and "t = rtt0_history B (snd (rtt0_call E (local_check_and_accept B) s p)) xs"
  shows "(length (filter is_rotation xs) \<le> 1 \<longrightarrow> fst (snd (rtt0_call E' (local_check_and_accept B) t p')) = fst t) \<and>
         (\<forall>g1 g2. local_rotate B (snd t) = Some g1 \<and> local_rotate B g1 = Some g2 \<and> is_safe (pt_method p') \<longrightarrow>
            fst (snd (rtt0_call E' (local_check_and_accept B) (fst t, g2) p')) =
              snd (registry_insert (fst t) (from_durable (rtt0_state E' p' d') (r0_now E') (r0_now_sys E'))))"
proof (intro conjI allI impI)
  assume "length (filter is_rotation xs) \<le> 1"
  from history_one_rotation [OF assms(1) rtt0_call_resumed [OF assms(1,3,2)] this]
  have "remembers B (snd t) (d_client_counter d')" by (simp add: assms(5,6))
  from rtt0_call_remembered [OF assms(4) this, of "fst t"]
  show "fst (snd (rtt0_call E' (local_check_and_accept B) t p')) = fst t" by simp
next
  fix g1 g2
  assume r: "local_rotate B (snd t) = Some g1 \<and> local_rotate B g1 = Some g2 \<and> is_safe (pt_method p')"
  then show "fst (snd (rtt0_call E' (local_check_and_accept B) (fst t, g2) p')) =
      snd (registry_insert (fst t) (from_durable (rtt0_state E' p' d') (r0_now E') (r0_now_sys E')))"
    using two_rotations_forget [OF assms(1)] by (intro rtt0_call_accepted assms(4)) auto
qed

definition demo_rtt0 :: "time \<Rightarrow> rtt0_env" where
  "demo_rtt0 t = \<lparr>r0_wire = demo_wire_lib, r0_hkdf = const_hkdf, r0_codec = demo_codec, r0_engine = demo_engine 2,
     r0_now = t, r0_now_sys = t\<rparr>"

definition demo_early :: Parts where
  "demo_early = \<lparr>pt_method = ''GET'', pt_uri = demo_uri, pt_original_uri = None,
     pt_headers = hdr_insert ''attest-ticket-resumption'' (demo_encode (ticket (demo_ticket 1))) []\<rparr>"

lemma demo_resumption: "t \<le> 100 \<Longrightarrow> resumption_ticket (demo_rtt0 t) demo_early = Some demo_state"
proof -
  assume t: "t \<le> 100"
  have "unseal_session tagged_aead demo_codec (demo_engine 2) t (ticket (demo_ticket 1)) =
      (if d_expires_at demo_state < t then Inl (IoError ''ticket expired'') else Inr demo_state)"
    by (rule unseal_session_opened [OF _ length_ticket_nonce, where pt = "[1]" and ct = "[1] @ replicate 32 7 @ ticket_nonce 1"])
      (simp_all add: tagged_aead_def demo_codec_def key_len_def)
  moreover have "d_expires_at demo_state = 100" by (simp add: demo_state_def export_durable_def session_new_def)
  ultimately have "unseal_session tagged_aead demo_codec (demo_engine 2) t (ticket (demo_ticket 1)) = Inr demo_state"
    using t by simp
  then show ?thesis
    by (simp add: resumption_ticket_def demo_rtt0_def demo_early_def demo_wire_lib_def demo_http_def demo_text_def
        result_ok_def)
qed

lemma demo_first_call:
  "fst (snd (rtt0_call (demo_rtt0 50) (local_check_and_accept list_bloom) (registry_new, empty_local_guard) demo_early)) \<noteq>
   registry_new"
proof -
  have "hdr_get (pt_headers demo_early) ''attest-ticket-resumption'' \<noteq> None" "is_safe (pt_method demo_early)"
    by (simp_all add: demo_early_def is_safe_def)
  then show ?thesis
    using demo_resumption [of 50]
    by (simp add: rtt0_call_def local_check_and_accept_def in_prev_def list_bloom_def registry_insert_def registry_new_def
        registry_with_capacity_def)
qed

theorem rtt0_ticket_resumes_once_witness:
  "\<exists>t. t = rtt0_history list_bloom
          (snd (rtt0_call (demo_rtt0 50) (local_check_and_accept list_bloom) (registry_new, empty_local_guard) demo_early)) [RotateGuard] \<and>
     fst t \<noteq> registry_new \<and> fst (snd (rtt0_call (demo_rtt0 60) (local_check_and_accept list_bloom) t demo_early)) = fst t"
proof -
  let ?s = "snd (rtt0_call (demo_rtt0 50) (local_check_and_accept list_bloom) (registry_new, empty_local_guard) demo_early)"
  let ?t = "rtt0_history list_bloom ?s [RotateGuard]"
  have "fst ?t \<noteq> registry_new" using demo_first_call by simp
  moreover have "fst (snd (rtt0_call (demo_rtt0 60) (local_check_and_accept list_bloom) ?t demo_early)) = fst ?t"
    using rtt0_ticket_resumes_once [OF list_bloom_correct, of "demo_rtt0 50" "(registry_new, empty_local_guard)" demo_early
        demo_state "demo_rtt0 60" demo_early demo_state ?t "[RotateGuard]"]
      demo_resumption [of 50] demo_resumption [of 60] demo_first_call
    by simp
  ultimately show ?thesis by blast
qed

end
