(* ===== verification/Web_Socket.thy ===== *)
theory Web_Socket
  imports Trusted_Requests "HOL-Library.Sublist"
begin

section \<open>Attested WebSockets\<close>

text \<open>
  \<open>openhttpa-server/src/ws.rs\<close>: the upgrade handler, frames and the session loop. The socket is the list of
  messages it delivers; the outcome of a send is an argument. A Rust \<open>String\<close> is the list of its bytes,
  which \<open>utf8_ok\<close> accepts. The upgrade answers with a status and a text, or panics on a write IV of less
  than twelve bytes.

  The lemmas show that frames arrive in order and at most once, that lost frames do no harm, and
  two ways in which the code departs from that: a forged frame moves the counter before it is
  authenticated, and every upgrade starts a new nonce sequence under the session's keys.
\<close>

subsection \<open>Frames\<close>

definition MSG_TEXT :: byte where "MSG_TEXT = 0"
definition MSG_BINARY :: byte where "MSG_BINARY = 1"
definition MIN_FRAME :: nat where "MIN_FRAME = 12 + 1 + 16"

datatype WsError =
    FrameTooShort nat nat
  | WsNonceReplay
  | WsAeadOpen AeadError
  | WsAeadSeal BoundAeadError
  | UnknownType byte
  | InvalidUtf8
  | WsTransport string

datatype WsPayload = WsText bytes | WsBinary bytes | WsClose

definition continuation :: "byte \<Rightarrow> bool" where
  "continuation b \<longleftrightarrow> 0x80 \<le> b \<and> b \<le> 0xBF"

fun utf8_ok :: "bytes \<Rightarrow> bool" where
  "utf8_ok [] = True"
| "utf8_ok [a] = (a < 0x80)"
| "utf8_ok [a, b] = (if a < 0x80 then utf8_ok [b] else 0xC2 \<le> a \<and> a \<le> 0xDF \<and> continuation b)"
| "utf8_ok [a, b, c] =
     (if a < 0x80 then utf8_ok [b, c]
      else if a \<le> 0xDF then 0xC2 \<le> a \<and> continuation b \<and> utf8_ok [c]
      else a \<le> 0xEF \<and> continuation b \<and> continuation c \<and> (a = 0xE0 \<longrightarrow> 0xA0 \<le> b) \<and> (a = 0xED \<longrightarrow> b \<le> 0x9F))"
| "utf8_ok (a # b # c # d # r) =
     (if a < 0x80 then utf8_ok (b # c # d # r)
      else if a \<le> 0xDF then 0xC2 \<le> a \<and> continuation b \<and> utf8_ok (c # d # r)
      else if a \<le> 0xEF then
        continuation b \<and> continuation c \<and> (a = 0xE0 \<longrightarrow> 0xA0 \<le> b) \<and> (a = 0xED \<longrightarrow> b \<le> 0x9F) \<and> utf8_ok (d # r)
      else a \<le> 0xF4 \<and> continuation b \<and> continuation c \<and> continuation d \<and>
        (a = 0xF0 \<longrightarrow> 0x90 \<le> b) \<and> (a = 0xF4 \<longrightarrow> b \<le> 0x8F) \<and> utf8_ok r)"

record AttestWsSession =
  ws_outbound :: BoundAeadKey
  ws_inbound :: BoundAeadKey
  ws_inbound_iv :: bytes
  ws_algorithm :: AeadAlgorithm
  ws_atb_id :: AtbId
  ws_aad :: bytes
  last_inbound_counter :: u64

definition ws_session_new ::
    "wire_lib \<Rightarrow> BoundAeadKey \<Rightarrow> BoundAeadKey \<Rightarrow> bytes \<Rightarrow> AeadAlgorithm \<Rightarrow> AtbId \<Rightarrow> AttestWsSession" where
  "ws_session_new W outbound inbound inbound_iv alg base_id =
     \<lparr>ws_outbound = outbound, ws_inbound = inbound, ws_inbound_iv = inbound_iv, ws_algorithm = alg,
      ws_atb_id = base_id, ws_aad = AAD_PREFIX @ wl_uuid_show W base_id, last_inbound_counter = 0\<rparr>"

definition encode_frame ::
    "aead_lib \<Rightarrow> AttestWsSession \<Rightarrow> byte \<Rightarrow> bytes \<Rightarrow> (WsError + bytes) \<times> AttestWsSession" where
  "encode_frame L s type_byte payload =
     (case bound_seal L (ws_outbound s) (ws_aad s) (type_byte # payload) of
        (Inl e, k) \<Rightarrow> (Inl (WsAeadSeal e), s\<lparr>ws_outbound := k\<rparr>)
      | (Inr (nonce, ct), k) \<Rightarrow> (Inr (nonce @ ct), s\<lparr>ws_outbound := k\<rparr>))"

definition extract_counter_from_nonce :: "bytes \<Rightarrow> bytes \<Rightarrow> u64" where
  "extract_counter_from_nonce nonce iv = u64_of_be (map2 (XOR) (take 8 (drop 4 nonce)) (take 8 (drop 4 iv)))"

definition frame_payload :: "bytes \<Rightarrow> WsError + WsPayload" where
  "frame_payload plaintext =
     (case plaintext of
        [] \<Rightarrow> Inl (FrameTooShort 0 1)
      | b # r \<Rightarrow>
          if b = MSG_TEXT then (if utf8_ok r then Inr (WsText r) else Inl InvalidUtf8)
          else if b = MSG_BINARY then Inr (WsBinary r) else Inl (UnknownType b))"

definition decode_frame :: "aead_lib \<Rightarrow> AttestWsSession \<Rightarrow> bytes \<Rightarrow> (WsError + WsPayload) \<times> AttestWsSession" where
  "decode_frame L s frame =
     (if length frame < MIN_FRAME then (Inl (FrameTooShort (length frame) MIN_FRAME), s)
      else case nonce_from_slice (take 12 frame) of
          Inl e \<Rightarrow> (Inl (WsAeadOpen e), s)
        | Inr nonce \<Rightarrow>
            (let counter = extract_counter_from_nonce (take 12 frame) (ws_inbound_iv s) in
             if counter \<le> last_inbound_counter s then (Inl WsNonceReplay, s)
             else
               (bind_result (map_err WsAeadOpen (bound_open L (ws_inbound s) nonce (ws_aad s) (drop 12 frame))) frame_payload,
                s\<lparr>last_inbound_counter := counter\<rparr>)))"

subsection \<open>The session\<close>

datatype WsMessage = MBinary bytes | MText bytes | MPing bytes | MPong bytes | MClose

definition ws_send :: "string option \<Rightarrow> WsMessage \<Rightarrow> (WsError + unit) \<times> WsMessage list" where
  "ws_send io m = (case io of Some e \<Rightarrow> (Inl (WsTransport e), []) | None \<Rightarrow> (Inr (), [m]))"

definition send_tagged ::
    "aead_lib \<Rightarrow> AttestWsSession \<Rightarrow> byte \<Rightarrow> bytes \<Rightarrow> string option \<Rightarrow> ((WsError + unit) \<times> WsMessage list) \<times> AttestWsSession" where
  "send_tagged L s type_byte payload io =
     (case encode_frame L s type_byte payload of
        (Inl e, s') \<Rightarrow> ((Inl e, []), s')
      | (Inr frame, s') \<Rightarrow> (ws_send io (MBinary frame), s'))"

definition send_text where "send_text L s txt io = send_tagged L s MSG_TEXT txt io"
definition send_binary where "send_binary L s data io = send_tagged L s MSG_BINARY data io"
definition send_ping where "send_ping payload io = ws_send io (MPing payload)"
definition ws_close where "ws_close io = ws_send io MClose"

fun ws_recv ::
    "aead_lib \<Rightarrow> AttestWsSession \<Rightarrow> (string + WsMessage) list \<Rightarrow>
     (WsError + WsPayload) option \<times> AttestWsSession \<times> (string + WsMessage) list" where
  "ws_recv L s [] = (None, s, [])"
| "ws_recv L s (Inr (MBinary frame) # rest) = (case decode_frame L s frame of (r, s') \<Rightarrow> (Some r, s', rest))"
| "ws_recv L s (Inr (MText frame) # rest) = (case decode_frame L s frame of (r, s') \<Rightarrow> (Some r, s', rest))"
| "ws_recv L s (Inr (MPing p) # rest) = ws_recv L s rest"
| "ws_recv L s (Inr (MPong p) # rest) = ws_recv L s rest"
| "ws_recv L s (Inr MClose # rest) = (Some (Inr WsClose), s, rest)"
| "ws_recv L s (Inl e # rest) = (Some (Inl (WsTransport e)), s, rest)"

fun cipher_suite_to_aead :: "CipherSuite \<Rightarrow> AeadAlgorithm" where
  "cipher_suite_to_aead X25519ChaCha20Poly1305Sha256 = ChaCha20Poly1305"
| "cipher_suite_to_aead _ = Aes256Gcm"

definition ws_keys ::
    "aead_lib \<Rightarrow> AeadAlgorithm \<Rightarrow> bytes \<times> bytes \<times> bytes \<times> bytes \<Rightarrow> rejection + BoundAeadKey \<times> BoundAeadKey \<times> bytes" where
  "ws_keys L alg ks =
     (case ks of (swk, cwk, swiv, cwiv) \<Rightarrow>
        if length swiv < 12 \<or> length cwiv < 12 then Inl RejectPanic
        else
          bind_result (map_err (\<lambda>_. Reject 500 ''failed to construct outbound WS key'')
            (bound_aead_key_new L alg swk (take 12 swiv))) (\<lambda>out_key.
          bind_result (map_err (\<lambda>_. Reject 500 ''failed to construct inbound WS key'')
            (bound_aead_key_new L alg cwk (take 12 cwiv))) (\<lambda>in_key.
            Inr (out_key, in_key, take 12 cwiv))))"

definition upgrade_id :: "wire_lib \<Rightarrow> header_map \<Rightarrow> AtbId option" where
  "upgrade_id W headers =
     Option.bind (Option.bind (hdr_get headers ''attest-base-id'') (result_ok \<circ> hl_to_str (wl_http W))) (wl_uuid_parse W)"

definition attested_ws_upgrade ::
    "wire_lib \<Rightarrow> AtbRegistry \<Rightarrow> time \<Rightarrow> header_map \<Rightarrow> (rejection + AttestWsSession) \<times> AtbRegistry" where
  "attested_ws_upgrade W rg now headers =
     (case upgrade_id W headers of
        None \<Rightarrow> (Inl (Reject 401 ''Attest-Base-ID header missing or invalid''), rg)
      | Some base_id \<Rightarrow>
          (case registry_get rg base_id now of
             (None, rg') \<Rightarrow> (Inl (Reject 401 ''AtB session not found or expired''), rg')
           | (Some session, rg') \<Rightarrow>
               (let alg = cipher_suite_to_aead (cipher_suite session) in
                (case peek_keys session now
                        (\<lambda>ks. (server_write_key ks, client_write_key ks, server_write_iv ks, client_write_iv ks)) of
                   Inl e \<Rightarrow> Inl (Reject 401 ''session not in attested state'')
                 | Inr ks \<Rightarrow>
                     bind_result (ws_keys (wl_aead W) alg ks) (\<lambda>(out_key, in_key, in_iv).
                       Inr (ws_session_new W out_key in_key in_iv alg base_id)), rg'))))"

subsection \<open>Frames arrive\<close>

text \<open>
  \<open>ws_linked\<close> relates a sender to its receiver: the receiver's inbound key, IV and associated data are the
  sender's outbound ones. \<open>ws_frames\<close> are the frames of the messages that could be sealed, each with
  its message; \<open>ws_receive\<close> is what the receiver makes of a list of frames. \<open>aead_tagged\<close> is the documented length of
  the tag.
\<close>

definition aead_tagged :: "aead_lib \<Rightarrow> bool" where
  "aead_tagged L \<longleftrightarrow> (\<forall>a k n d pt ct. lib_seal L a k n d pt = Some ct \<longrightarrow> length pt + 16 \<le> length ct)"

definition ws_linked :: "AttestWsSession \<Rightarrow> AttestWsSession \<Rightarrow> bool" where
  "ws_linked s r \<longleftrightarrow>
     bound_key (ws_inbound r) = bound_key (ws_outbound s) \<and> ws_inbound_iv r = write_iv (ws_outbound s) \<and>
     length (write_iv (ws_outbound s)) = 12 \<and> ws_aad r = ws_aad s \<and> last_inbound_counter r < seq_counter (ws_outbound s)"

fun ws_frames :: "aead_lib \<Rightarrow> AttestWsSession \<Rightarrow> (byte \<times> bytes) list \<Rightarrow> ((byte \<times> bytes) \<times> bytes) list" where
  "ws_frames L s [] = []"
| "ws_frames L s (m # ms) =
     (case encode_frame L s (fst m) (snd m) of
        (Inl e, s') \<Rightarrow> ws_frames L s' ms
      | (Inr frame, s') \<Rightarrow> (m, frame) # ws_frames L s' ms)"

fun ws_receive :: "aead_lib \<Rightarrow> AttestWsSession \<Rightarrow> bytes list \<Rightarrow> (WsError + WsPayload) list" where
  "ws_receive L s [] = []"
| "ws_receive L s (f # fs) = (case decode_frame L s f of (r, s') \<Rightarrow> r # ws_receive L s' fs)"

lemma extract_counter_built [simp]:
  assumes "length iv = 12"
  shows "extract_counter_from_nonce (build_aead_nonce c iv) iv = c"
proof -
  have swap: "map2 (XOR) xs ys = map2 (XOR) ys xs" for xs ys :: bytes
    by (induction xs ys rule: list_induct2') (simp_all add: xor.commute)
  show ?thesis
    using assms build_aead_nonce_counter [OF assms, of c] swap [of "drop 4 iv"]
    by (simp add: extract_counter_from_nonce_def)
qed

lemma encode_frame_cases:
  assumes "encode_frame L s ty p = (r, s')"
  obtains e where "r = Inl e" "s' = s"
  | e where "r = Inl e" "seq_counter (ws_outbound s) \<noteq> - 1"
      "s' = s\<lparr>ws_outbound := (ws_outbound s)\<lparr>seq_counter := seq_counter (ws_outbound s) + 1\<rparr>\<rparr>"
  | ct where "seal_in_place L (bound_key (ws_outbound s))
        (build_aead_nonce (seq_counter (ws_outbound s)) (write_iv (ws_outbound s))) (ws_aad s) (ty # p) = Inr ct"
      "r = Inr (build_aead_nonce (seq_counter (ws_outbound s)) (write_iv (ws_outbound s)) @ ct)"
      "seq_counter (ws_outbound s) \<noteq> - 1"
      "s' = s\<lparr>ws_outbound := (ws_outbound s)\<lparr>seq_counter := seq_counter (ws_outbound s) + 1\<rparr>\<rparr>"
proof (cases "seq_counter (ws_outbound s) = - 1")
  case True
  then show thesis using assms that(1) by (auto simp: encode_frame_def bound_seal_def atomic_next_nonce_def)
next
  case False
  then show thesis
    using assms that(2,3)
    by (cases "seal_in_place L (bound_key (ws_outbound s))
        (build_aead_nonce (seq_counter (ws_outbound s)) (write_iv (ws_outbound s))) (ws_aad s) (ty # p)")
      (auto simp: encode_frame_def bound_seal_def atomic_next_nonce_def)
qed

lemma ws_linked_later:
  "ws_linked s r \<Longrightarrow> seq_counter (ws_outbound s) \<noteq> - 1 \<Longrightarrow>
     ws_linked (s\<lparr>ws_outbound := (ws_outbound s)\<lparr>seq_counter := seq_counter (ws_outbound s) + 1\<rparr>\<rparr>) r"
  by (auto simp: ws_linked_def word_less_plus_one)

lemma ws_linked_received:
  "ws_linked s r \<Longrightarrow> seq_counter (ws_outbound s) \<noteq> - 1 \<Longrightarrow>
     ws_linked (s\<lparr>ws_outbound := (ws_outbound s)\<lparr>seq_counter := seq_counter (ws_outbound s) + 1\<rparr>\<rparr>)
       (r\<lparr>last_inbound_counter := seq_counter (ws_outbound s)\<rparr>)"
  by (auto simp: ws_linked_def word_less_plus_one)

lemma decode_sealed_frame:
  assumes L: "aead_correct L" "aead_tagged L" and l: "ws_linked s r"
    and ct: "seal_in_place L (bound_key (ws_outbound s))
        (build_aead_nonce (seq_counter (ws_outbound s)) (write_iv (ws_outbound s))) (ws_aad s) pt = Inr ct"
    and pt: "pt \<noteq> []"
  shows "decode_frame L r (build_aead_nonce (seq_counter (ws_outbound s)) (write_iv (ws_outbound s)) @ ct) =
           (frame_payload pt, r\<lparr>last_inbound_counter := seq_counter (ws_outbound s)\<rparr>)"
proof -
  let ?n = "build_aead_nonce (seq_counter (ws_outbound s)) (write_iv (ws_outbound s))"
  have n: "length ?n = 12" "ws_inbound_iv r = write_iv (ws_outbound s)" "length (write_iv (ws_outbound s)) = 12"
    "\<not> seq_counter (ws_outbound s) \<le> last_inbound_counter r"
    using l by (auto simp: ws_linked_def)
  have "length pt + 16 \<le> length ct"
    using L(2) ct by (auto simp: aead_tagged_def seal_in_place_def split: if_splits)
  moreover obtain b q where "pt = b # q" using pt by (cases pt) auto
  ultimately have len: "\<not> length (?n @ ct) < MIN_FRAME" using n(1) by (simp add: MIN_FRAME_def)
  have "bound_open L (ws_inbound r) ?n (ws_aad r) ct = Inr pt"
    using aead_seal_open [OF L(1) ct] l by (simp add: bound_open_def ws_linked_def)
  with n len show ?thesis by (simp add: decode_frame_def nonce_from_slice_def Let_def)
qed

lemma ws_received_subseq:
  assumes "aead_correct L" "aead_tagged L" "ws_linked s r" "subseq sub (ws_frames L s ms)"
  shows "ws_receive L r (map snd sub) = map (\<lambda>((ty, p), f). frame_payload (ty # p)) sub"
  using assms(3,4)
proof (induction ms arbitrary: s r sub)
  case (Cons m ms)
  obtain res s' where e: "encode_frame L s (fst m) (snd m) = (res, s')" by (rule prod.exhaust)
  from e show ?case
  proof (cases rule: encode_frame_cases)
    case (1 x)
    with Cons e show ?thesis by simp
  next
    case (2 x)
    with Cons.IH [OF ws_linked_later [OF Cons.prems(1)]] Cons.prems(2) e show ?thesis by simp
  next
    case (3 ct)
    let ?f = "build_aead_nonce (seq_counter (ws_outbound s)) (write_iv (ws_outbound s)) @ ct"
    consider "subseq sub (ws_frames L s' ms)" | sub' where "sub = (m, ?f) # sub'" "subseq sub' (ws_frames L s' ms)"
      using Cons.prems(2) e 3(2) by (cases sub) (auto simp: subseq_Cons' split: if_splits)
    then show ?thesis
    proof cases
      case 1
      with Cons.IH [OF ws_linked_later [OF Cons.prems(1) 3(3)]] 3(4) show ?thesis by simp
    next
      case (2 sub')
      have "decode_frame L r ?f = (frame_payload (fst m # snd m), r\<lparr>last_inbound_counter := seq_counter (ws_outbound s)\<rparr>)"
        using decode_sealed_frame [OF assms(1,2) Cons.prems(1) 3(1)] by simp
      with Cons.IH [OF ws_linked_received [OF Cons.prems(1) 3(3)], of sub'] 2 3(4) show ?thesis
        by (cases m) simp
    qed
  qed
qed (auto dest: list_emb_Nil2)

lemma frame_payload_text [simp]: "utf8_ok t \<Longrightarrow> frame_payload (MSG_TEXT # t) = Inr (WsText t)"
  by (simp add: frame_payload_def)

lemma frame_payload_binary [simp]: "frame_payload (MSG_BINARY # b) = Inr (WsBinary b)"
  by (simp add: frame_payload_def MSG_BINARY_def MSG_TEXT_def)

lemma ws_frames_messages: "(m, f) \<in> set (ws_frames L s ms) \<Longrightarrow> m \<in> set ms"
proof (induction ms arbitrary: s)
  case (Cons a ms)
  obtain r s' where e: "encode_frame L s (fst a) (snd a) = (r, s')" by (rule prod.exhaust)
  with Cons show ?case by (cases r) auto
qed simp

text \<open>
  C24. Frames that arrive in order are decoded to the messages they were sealed from, even when others
  were lost on the way: whatever subsequence of the sender's frames is delivered, the receiver returns
  exactly the payloads of that subsequence.
\<close>
theorem ws_frames_recovered:
  assumes "aead_correct L" and "aead_tagged L" and "ws_linked s r"
    and "subseq sub (ws_frames L s (map (\<lambda>p. case p of Inl t \<Rightarrow> (MSG_TEXT, t) | Inr b \<Rightarrow> (MSG_BINARY, b)) ps))"
    and "\<forall>t. Inl t \<in> set ps \<longrightarrow> utf8_ok t"
  shows "ws_receive L r (map snd sub) =
           map (\<lambda>((ty, p), f). Inr (if ty = MSG_TEXT then WsText p else WsBinary p)) sub"
proof -
  let ?ms = "map (\<lambda>p. case p of Inl t \<Rightarrow> (MSG_TEXT, t) | Inr b \<Rightarrow> (MSG_BINARY, b)) ps"
  have "set sub \<subseteq> set (ws_frames L s ?ms)" using assms(4) by (auto elim: list_emb_set)
  then have "frame_payload (ty # p) = Inr (if ty = MSG_TEXT then WsText p else WsBinary p)" if "((ty, p), f) \<in> set sub" for ty p f
  proof -
    have "(ty, p) \<in> set ?ms" using that \<open>set sub \<subseteq> _\<close> ws_frames_messages by fastforce
    then obtain x where "x \<in> set ps" "(ty, p) = (case x of Inl t \<Rightarrow> (MSG_TEXT, t) | Inr b \<Rightarrow> (MSG_BINARY, b))" by auto
    with assms(5) show ?thesis by (cases x) (auto simp: MSG_TEXT_def MSG_BINARY_def frame_payload_def)
  qed
  then show ?thesis using ws_received_subseq [OF assms(1-4)] by auto
qed

subsection \<open>Order and forgeries\<close>

fun ws_accepted :: "aead_lib \<Rightarrow> AttestWsSession \<Rightarrow> bytes list \<Rightarrow> bytes list" where
  "ws_accepted L s [] = []"
| "ws_accepted L s (f # fs) =
     (case decode_frame L s f of
        (Inr _, s') \<Rightarrow> f # ws_accepted L s' fs
      | (Inl _, s') \<Rightarrow> ws_accepted L s' fs)"

abbreviation frame_counter :: "bytes \<Rightarrow> bytes \<Rightarrow> u64" where
  "frame_counter iv f \<equiv> extract_counter_from_nonce (take 12 f) iv"

lemma decode_frame_moves:
  assumes "decode_frame L s f = (r, s')"
  shows "last_inbound_counter s \<le> last_inbound_counter s' \<and>
         s' = s\<lparr>last_inbound_counter := last_inbound_counter s'\<rparr> \<and>
         (\<forall>p. r = Inr p \<longrightarrow> last_inbound_counter s < frame_counter (ws_inbound_iv s) f \<and>
            last_inbound_counter s' = frame_counter (ws_inbound_iv s) f \<and>
            (\<exists>pt. bound_open L (ws_inbound s) (take 12 f) (ws_aad s) (drop 12 f) = Inr pt \<and> frame_payload pt = Inr p))"
  using assms
  by (auto simp: decode_frame_def nonce_from_slice_def Let_def bind_result_Inr_iff not_le split: if_splits)

lemma ws_accepted_sorted:
  "sorted_wrt (<) (last_inbound_counter s # map (frame_counter (ws_inbound_iv s)) (ws_accepted L s fs))"
proof (induction fs arbitrary: s)
  case (Cons f fs)
  obtain r s' where d: "decode_frame L s f = (r, s')" by (rule prod.exhaust)
  note m = decode_frame_moves [OF d]
  have iv: "ws_inbound_iv s' = ws_inbound_iv s" using m by (metis AttestWsSession.select_convs(3) AttestWsSession.surjective AttestWsSession.update_convs(7))
  show ?case
  proof (cases r)
    case (Inl e)
    with Cons.IH [of s'] m d iv show ?thesis by auto
  next
    case (Inr p)
    with Cons.IH [of s'] m d iv show ?thesis by auto
  qed
qed simp

lemma ws_accepted_opened:
  "f \<in> set (ws_accepted L s fs) \<Longrightarrow>
     \<exists>pt. bound_open L (ws_inbound s) (take 12 f) (ws_aad s) (drop 12 f) = Inr pt \<and> (\<exists>p. frame_payload pt = Inr p)"
proof (induction fs arbitrary: s)
  case (Cons g fs)
  obtain r s' where d: "decode_frame L s g = (r, s')" by (rule prod.exhaust)
  note m = decode_frame_moves [OF d]
  have same: "ws_inbound s' = ws_inbound s" "ws_aad s' = ws_aad s" using m by (metis AttestWsSession.select_convs(2,6) AttestWsSession.surjective AttestWsSession.update_convs(7))+
  show ?case
  proof (cases "r")
    case (Inl e)
    then show ?thesis using Cons.prems Cons.IH [of s'] d same by auto
  next
    case (Inr p)
    then show ?thesis using Cons.prems Cons.IH [of s'] d same m by auto
  qed
qed simp

lemma ws_accepted_subset: "set (ws_accepted L s fs) \<subseteq> set fs"
proof (induction fs arbitrary: s)
  case (Cons f fs)
  obtain r s' where "decode_frame L s f = (r, s')" by (rule prod.exhaust)
  with Cons.IH [of s'] show ?case by (cases r) auto
qed simp

text \<open>
  C25. Whatever frames arrive, those the session accepts carry strictly increasing counters, so no frame is
  accepted twice or out of order, and each of them opens under the session's inbound key with the
  associated data that names the session.
\<close>
theorem ws_accepts_in_order_and_authenticated:
  "sorted_wrt (<) (map (frame_counter (ws_inbound_iv s)) (ws_accepted L s fs)) \<and>
   distinct (ws_accepted L s fs) \<and>
   (\<forall>f\<in>set (ws_accepted L s fs).
      \<exists>pt p. bound_open L (ws_inbound s) (take 12 f) (ws_aad s) (drop 12 f) = Inr pt \<and> frame_payload pt = Inr p)"
proof -
  have s: "sorted_wrt (<) (map (frame_counter (ws_inbound_iv s)) (ws_accepted L s fs))"
    using ws_accepted_sorted [of s L fs] by simp
  then have "distinct (map (frame_counter (ws_inbound_iv s)) (ws_accepted L s fs))" by (simp add: strict_sorted_iff)
  then have "distinct (ws_accepted L s fs)" by (simp add: distinct_map)
  with s ws_accepted_opened show ?thesis by blast
qed

text \<open>
  The counter moves before the frame is authenticated. A frame that fails to open but whose counter is
  higher than the last one makes the session refuse, as replays, all genuine frames up to that
  counter, which was never sent.
\<close>
lemma ws_forged_frame_blocks:
  assumes "MIN_FRAME \<le> length g" and "last_inbound_counter s < frame_counter (ws_inbound_iv s) g"
    and "bound_open L (ws_inbound s) (take 12 g) (ws_aad s) (drop 12 g) = Inl e"
  shows "\<exists>s'. decode_frame L s g = (Inl (WsAeadOpen e), s') \<and>
           (\<forall>f. MIN_FRAME \<le> length f \<and> frame_counter (ws_inbound_iv s) f \<le> frame_counter (ws_inbound_iv s) g \<longrightarrow>
              decode_frame L s' f = (Inl WsNonceReplay, s'))"
proof -
  let ?s = "s\<lparr>last_inbound_counter := frame_counter (ws_inbound_iv s) g\<rparr>"
  have len: "12 \<le> length f" if "MIN_FRAME \<le> length f" for f :: bytes using that by (simp add: MIN_FRAME_def)
  have "decode_frame L s g = (Inl (WsAeadOpen e), ?s)"
    using assms len [OF assms(1)] by (auto simp: decode_frame_def nonce_from_slice_def Let_def)
  moreover have "decode_frame L ?s f = (Inl WsNonceReplay, ?s)"
    if "MIN_FRAME \<le> length f" "frame_counter (ws_inbound_iv s) f \<le> frame_counter (ws_inbound_iv s) g" for f
    using that len [OF that(1)] by (auto simp: decode_frame_def nonce_from_slice_def Let_def)
  ultimately show ?thesis by blast
qed

subsection \<open>Upgrades\<close>

lemma upgrade_Inr:
  assumes "attested_ws_upgrade W rg now h = (Inr ws, rg')"
  obtains s i where "upgrade_id W h = Some i" "map_of (sessions rg) i = Some s" "is_alive s now"
    "12 \<le> length (server_write_iv (keys s))" "12 \<le> length (client_write_iv (keys s))"
    "ws_aad ws = AAD_PREFIX @ wl_uuid_show W i" "ws_atb_id ws = i" "last_inbound_counter ws = 0"
    "ws_outbound ws = \<lparr>bound_key = \<lparr>raw = server_write_key (keys s), algorithm = cipher_suite_to_aead (cipher_suite s)\<rparr>,
       write_iv = take 12 (server_write_iv (keys s)), seq_counter = 1\<rparr>"
    "ws_inbound ws = \<lparr>bound_key = \<lparr>raw = client_write_key (keys s), algorithm = cipher_suite_to_aead (cipher_suite s)\<rparr>,
       write_iv = take 12 (client_write_iv (keys s)), seq_counter = 1\<rparr>"
    "ws_inbound_iv ws = take 12 (client_write_iv (keys s))" "rg' = rg"
proof -
  obtain i where i: "upgrade_id W h = Some i"
    using assms by (auto simp: attested_ws_upgrade_def split: option.splits)
  obtain s where s: "map_of (sessions rg) i = Some s" "is_alive s now" "rg' = rg"
    using assms i by (auto simp: attested_ws_upgrade_def registry_get_def Let_def split: option.splits if_splits)
  from s have g: "registry_get rg i now = (Some s, rg)" by (simp add: registry_get_def)
  from assms i g show thesis
    by (intro that [of i s])
      (auto simp: attested_ws_upgrade_def Let_def peek_keys_def ws_keys_def ws_session_new_def bound_aead_key_new_def
        aead_key_new_def bind_result_Inr_iff s split: if_splits sum.splits)
qed

text \<open>
  C34. Every upgrade of a session starts its nonce sequence at one under the same key and IV. The first frames
  of two WebSockets of one session are therefore sealed with the same key and nonce, which are also the
  server's write key and the nonce of a trusted response with counter one.
\<close>
theorem ws_upgrades_reuse_nonce:
  assumes "attested_ws_upgrade W rg now h = (Inr ws, rg1)" and "attested_ws_upgrade W rg1 now2 h = (Inr ws2, rg2)"
    and "encode_frame (wl_aead W) ws ty p = (Inr f, ws')" and "encode_frame (wl_aead W) ws2 ty2 p2 = (Inr f2, ws2')"
  shows "\<exists>s i key nonce aad ct ct2.
           upgrade_id W h = Some i \<and> map_of (sessions rg) i = Some s \<and>
           f = nonce @ ct \<and> seal_in_place (wl_aead W) key nonce aad (ty # p) = Inr ct \<and>
           f2 = nonce @ ct2 \<and> seal_in_place (wl_aead W) key nonce aad (ty2 # p2) = Inr ct2 \<and>
           raw key = server_write_key (keys s) \<and> nonce = build_aead_nonce 1 (take 12 (server_write_iv (keys s)))"
proof -
  obtain s i where u: "upgrade_id W h = Some i" "map_of (sessions rg) i = Some s" "rg1 = rg"
    "ws_aad ws = AAD_PREFIX @ wl_uuid_show W i"
    "ws_outbound ws = \<lparr>bound_key = \<lparr>raw = server_write_key (keys s), algorithm = cipher_suite_to_aead (cipher_suite s)\<rparr>,
       write_iv = take 12 (server_write_iv (keys s)), seq_counter = 1\<rparr>"
    using assms(1) by (rule upgrade_Inr) blast
  have u2: "ws_aad ws2 = ws_aad ws" "ws_outbound ws2 = ws_outbound ws"
    using assms(2) by (rule upgrade_Inr, use u in simp)+
  let ?k = "bound_key (ws_outbound ws)" and ?n = "build_aead_nonce 1 (take 12 (server_write_iv (keys s)))"
  obtain ct where "seal_in_place (wl_aead W) ?k ?n (ws_aad ws) (ty # p) = Inr ct" "f = ?n @ ct"
    using assms(3) by (cases rule: encode_frame_cases) (auto simp: u(5))
  moreover obtain ct2 where "seal_in_place (wl_aead W) ?k ?n (ws_aad ws) (ty2 # p2) = Inr ct2" "f2 = ?n @ ct2"
    using assms(4) by (cases rule: encode_frame_cases) (auto simp: u2 u(5))
  moreover have "raw ?k = server_write_key (keys s)" by (simp add: u(5))
  ultimately show ?thesis using u(1,2) by blast
qed

subsection \<open>A concrete session\<close>

definition padded_aead :: aead_lib where
  "padded_aead = tagged_aead\<lparr>
     lib_seal := (\<lambda>a k n d pt. Some (pt @ k @ n @ d @ replicate 16 0)),
     lib_open := (\<lambda>a k n d ct.
       let t = k @ n @ d @ replicate 16 0; l = length ct - length t
       in if drop l ct = t then Some (take l ct) else None)\<rparr>"

lemma padded_aead_correct: "aead_correct padded_aead" "aead_tagged padded_aead"
  by (auto simp: aead_correct_def aead_tagged_def padded_aead_def tagged_aead_def Let_def)

lemma padded_key_ok: "unbound_key_ok padded_aead a k \<longleftrightarrow> length k = 32"
  by (simp add: padded_aead_def tagged_aead_def key_len_def)

lemma short_not_opened: "length ct < length k \<Longrightarrow> lib_open padded_aead a k n d ct = None"
  by (auto simp: padded_aead_def Let_def dest: arg_cong [of _ _ length])

definition demo_ws :: AttestWsSession where
  "demo_ws =
     \<lparr>ws_outbound = \<lparr>bound_key = \<lparr>raw = replicate 32 3, algorithm = Aes256Gcm\<rparr>, write_iv = replicate 12 5, seq_counter = 1\<rparr>,
      ws_inbound = \<lparr>bound_key = \<lparr>raw = replicate 32 2, algorithm = Aes256Gcm\<rparr>, write_iv = replicate 12 4, seq_counter = 1\<rparr>,
      ws_inbound_iv = replicate 12 4, ws_algorithm = Aes256Gcm, ws_atb_id = 7,
      ws_aad = AAD_PREFIX @ wl_uuid_show demo_wire_lib 7, last_inbound_counter = 0\<rparr>"

definition demo_ws_peer :: AttestWsSession where
  "demo_ws_peer = demo_ws\<lparr>ws_outbound := ws_inbound demo_ws, ws_inbound := ws_outbound demo_ws, ws_inbound_iv := replicate 12 5\<rparr>"

lemma demo_ws_linked: "ws_linked demo_ws demo_ws_peer" "ws_linked demo_ws_peer demo_ws"
  by (simp_all add: ws_linked_def demo_ws_def demo_ws_peer_def)

lemma demo_encode:
  "length (raw (bound_key (ws_outbound s))) = 32 \<Longrightarrow> seq_counter (ws_outbound s) \<noteq> - 1 \<Longrightarrow>
     \<exists>f. encode_frame padded_aead s ty p =
       (Inr f, s\<lparr>ws_outbound := (ws_outbound s)\<lparr>seq_counter := seq_counter (ws_outbound s) + 1\<rparr>\<rparr>)"
  by (simp add: encode_frame_def bound_seal_def atomic_next_nonce_def seal_in_place_def padded_aead_def tagged_aead_def key_len_def)

theorem ws_frames_recovered_witness:
  "\<exists>f1 f2. ws_frames padded_aead demo_ws [(MSG_TEXT, [104, 105]), (MSG_BINARY, [255])] =
       [((MSG_TEXT, [104, 105]), f1), ((MSG_BINARY, [255]), f2)] \<and>
     ws_receive padded_aead demo_ws_peer [f2] = [Inr (WsBinary [255])]"
proof -
  let ?ms = "[(MSG_TEXT, [104, 105]), (MSG_BINARY, [255])]" and ?ps = "[Inl [104, 105], Inr [255]] :: (bytes + bytes) list"
  obtain f1 f2 where f: "ws_frames padded_aead demo_ws ?ms = [((MSG_TEXT, [104, 105]), f1), ((MSG_BINARY, [255]), f2)]"
    using demo_encode [of demo_ws MSG_TEXT "[104, 105]"]
      demo_encode [of "demo_ws\<lparr>ws_outbound := (ws_outbound demo_ws)\<lparr>seq_counter := 2\<rparr>\<rparr>" MSG_BINARY "[255]"]
    by (auto simp: demo_ws_def)
  have m: "map (\<lambda>p. case p of Inl t \<Rightarrow> (MSG_TEXT, t) | Inr b \<Rightarrow> (MSG_BINARY, b)) ?ps = ?ms" by simp
  have "subseq [((MSG_BINARY, [255]), f2)] (ws_frames padded_aead demo_ws ?ms)" unfolding f by simp
  from ws_frames_recovered [OF padded_aead_correct demo_ws_linked(1), of _ ?ps, unfolded m, OF this] f
  show ?thesis by (simp add: MSG_TEXT_def MSG_BINARY_def)
qed

theorem ws_accepts_in_order_and_authenticated_witness:
  "\<exists>f. encode_frame padded_aead demo_ws MSG_BINARY [9] = (Inr f, demo_ws\<lparr>ws_outbound := (ws_outbound demo_ws)\<lparr>seq_counter := 2\<rparr>\<rparr>) \<and>
     ws_accepted padded_aead demo_ws_peer [f, f] = [f] \<and>
     (\<exists>pt p. bound_open padded_aead (ws_inbound demo_ws_peer) (take 12 f) (ws_aad demo_ws_peer) (drop 12 f) = Inr pt \<and>
        frame_payload pt = Inr p)"
proof -
  obtain f where f: "encode_frame padded_aead demo_ws MSG_BINARY [9] =
      (Inr f, demo_ws\<lparr>ws_outbound := (ws_outbound demo_ws)\<lparr>seq_counter := 2\<rparr>\<rparr>)"
    using demo_encode [of demo_ws MSG_BINARY "[9]"] by (auto simp: demo_ws_def)
  obtain ct where ct: "seal_in_place padded_aead (bound_key (ws_outbound demo_ws))
      (build_aead_nonce (seq_counter (ws_outbound demo_ws)) (write_iv (ws_outbound demo_ws))) (ws_aad demo_ws) [MSG_BINARY, 9] = Inr ct"
    "f = build_aead_nonce (seq_counter (ws_outbound demo_ws)) (write_iv (ws_outbound demo_ws)) @ ct"
    using f by (cases rule: encode_frame_cases) auto
  have "decode_frame padded_aead demo_ws_peer f = (Inr (WsBinary [9]), demo_ws_peer\<lparr>last_inbound_counter := 1\<rparr>)"
    using decode_sealed_frame [OF padded_aead_correct demo_ws_linked(1) ct(1)] ct(2) by (simp add: demo_ws_def)
  then have "f \<in> set (ws_accepted padded_aead demo_ws_peer [f, f])" "set (ws_accepted padded_aead demo_ws_peer [f, f]) \<subseteq> {f}"
    using ws_accepted_subset [of padded_aead demo_ws_peer "[f, f]"] by simp_all
  moreover have "xs = [f]" if "f \<in> set xs" "set xs \<subseteq> {f}" "distinct xs" for xs
    using that by (cases xs; cases "tl xs") auto
  ultimately have "ws_accepted padded_aead demo_ws_peer [f, f] = [f]"
    using ws_accepts_in_order_and_authenticated [of demo_ws_peer padded_aead "[f, f]"] by blast
  moreover from this have "\<exists>pt p. bound_open padded_aead (ws_inbound demo_ws_peer) (take 12 f) (ws_aad demo_ws_peer) (drop 12 f) = Inr pt \<and>
      frame_payload pt = Inr p"
    using ws_accepts_in_order_and_authenticated [of demo_ws_peer padded_aead "[f, f]"] by (metis list.set_intros(1))
  ultimately show ?thesis using f by blast
qed

definition demo_ws_registry :: AtbRegistry where
  "demo_ws_registry = snd (registry_insert registry_new (demo_peer StrictMonotonic))"

lemma demo_ws_upgrade:
  "attested_ws_upgrade demo_wire_lib demo_ws_registry 5 (hdr_insert ''attest-base-id'' (wl_uuid_show demo_wire_lib 7) []) =
     (Inr demo_ws, demo_ws_registry)"
proof -
  let ?h = "hdr_insert ''attest-base-id'' (wl_uuid_show demo_wire_lib 7) []"
  have "wl_uuid_parse demo_wire_lib (wl_uuid_show demo_wire_lib 7) = Some 7" "list_all visible (wl_uuid_show demo_wire_lib 7)"
    "http_lib_correct (wl_http demo_wire_lib)"
    using demo_wire_lib_correct by (simp_all add: wire_lib_correct_def)
  then have i: "upgrade_id demo_wire_lib ?h = Some 7" by (simp add: upgrade_id_def http_lib_correct_def)
  have "map_of (sessions demo_ws_registry) 7 = Some (demo_peer StrictMonotonic)"
    by (simp add: demo_ws_registry_def registry_insert_def registry_new_def registry_with_capacity_def demo_peer_def session_new_def)
  then have g: "registry_get demo_ws_registry 7 5 = (Some (demo_peer StrictMonotonic), demo_ws_registry)"
    by (simp add: registry_get_def demo_peer_def session_new_def is_alive_def)
  have k: "wl_aead demo_wire_lib = tagged_aead" by (simp add: demo_wire_lib_def)
  show ?thesis
    by (simp add: attested_ws_upgrade_def i g k Let_def peek_keys_def ws_keys_def bound_aead_key_new_def aead_key_new_def
        demo_peer_def session_new_def demo_keys_def ws_session_new_def demo_ws_def tagged_aead_def key_len_def)
qed

theorem ws_upgrades_reuse_nonce_witness:
  "\<exists>f f2 ws' ws2' key nonce aad ct ct2.
     encode_frame tagged_aead demo_ws MSG_BINARY [1] = (Inr f, ws') \<and> encode_frame tagged_aead demo_ws MSG_BINARY [2] = (Inr f2, ws2') \<and>
     f = nonce @ ct \<and> seal_in_place tagged_aead key nonce aad [MSG_BINARY, 1] = Inr ct \<and>
     f2 = nonce @ ct2 \<and> seal_in_place tagged_aead key nonce aad [MSG_BINARY, 2] = Inr ct2"
proof -
  have k: "wl_aead demo_wire_lib = tagged_aead" by (simp add: demo_wire_lib_def)
  obtain f ws' where 1: "encode_frame tagged_aead demo_ws MSG_BINARY [1] = (Inr f, ws')"
    by (simp add: encode_frame_def bound_seal_def atomic_next_nonce_def seal_in_place_def tagged_aead_def key_len_def demo_ws_def)
  obtain f2 ws2' where 2: "encode_frame tagged_aead demo_ws MSG_BINARY [2] = (Inr f2, ws2')"
    by (simp add: encode_frame_def bound_seal_def atomic_next_nonce_def seal_in_place_def tagged_aead_def key_len_def demo_ws_def)
  from ws_upgrades_reuse_nonce [OF demo_ws_upgrade demo_ws_upgrade, unfolded k, OF 1 2] 1 2 show ?thesis by blast
qed

end
