(* ===== verification/Attestation.thy ===== *)
theory Attestation
  imports Headers Handshake
begin

section \<open>Verifying attestation evidence\<close>

text \<open>
  \<open>openhttpa-attestation\<close>: the \<open>QuoteVerifier\<close> trait with its default bundle and batch methods
  (\<open>verifier.rs\<close>), \<open>SimplePolicy\<close> (\<open>policy.rs\<close>), \<open>CompositeVerifier\<close> (\<open>composite.rs\<close>) and
  \<open>FederatedVerifier\<close> with its manifest (\<open>federation.rs\<close>). A verifier is a function from a quote and
  the expected report data to an error or a result. The clock and the build profile are arguments;
  a panic is \<open>None\<close>.

  The locale \<open>binding_verifier\<close> is the contract a vendor verifier gives its clients: what an accepted
  quote guarantees. Bundles, batches, the composite and the federated verifier and the handshake
  pass the guarantee on; the vendor verifiers themselves are in the theory \<open>Quote_Verifiers\<close>.
\<close>

type_synonym quote_verifier = "AttestQuote \<Rightarrow> bytes \<Rightarrow> AttestError + VerificationResult"

fun show_attest_error :: "AttestError \<Rightarrow> string" where
  "show_attest_error (MalformedQuote s) = ''malformed quote: '' @ s"
| "show_attest_error SignatureInvalid = ''quote signature invalid''"
| "show_attest_error (TcbOutOfDate s) = ''TCB out of date: '' @ s"
| "show_attest_error (ServiceError s) = ''verifier service error: '' @ s"
| "show_attest_error (NetworkError s) = ''verifier network error: '' @ s"
| "show_attest_error (PolicyViolation s) = ''policy violation: '' @ s"
| "show_attest_error (RevokedError s) = ''attestation revoked: '' @ s"
| "show_attest_error (Malformed s) = ''malformed: '' @ s"

definition quoted :: "string \<Rightarrow> string" where
  "quoted s = [CHR 0x27] @ s @ [CHR 0x27]"

definition eat_default :: EatClaims where
  "eat_default = \<lparr>ueid = None, hwmodel = None, hwversion = None, oemid = None, dbgstat = None, boot_progress = None,
     security_version = None, iat = None, exp = None, tee_class = None\<rparr>"

subsection \<open>Bundles and batches\<close>

definition with_secondary :: "VerificationResult \<Rightarrow> VerificationResult list \<Rightarrow> VerificationResult" where
  "with_secondary p rs = VerificationResult (eat_token p) (claims p) (tcb_status p) (measurement p) (signer_id p) rs"

fun verify_rest ::
    "quote_verifier \<Rightarrow> bytes \<Rightarrow> VerificationResult \<Rightarrow> AttestQuote list \<Rightarrow> AttestError + VerificationResult" where
  "verify_rest v rd p [] = Inr p"
| "verify_rest v rd p (q # qs) =
     bind_result (v q rd) (\<lambda>r. verify_rest v rd (with_secondary p (secondary p @ [r])) qs)"

definition verify_bundle :: "quote_verifier \<Rightarrow> AttestQuote list \<Rightarrow> bytes \<Rightarrow> AttestError + VerificationResult" where
  "verify_bundle v quotes rd =
     (case quotes of
        [] \<Rightarrow> Inl (MalformedQuote ''empty quote bundle'')
      | q # qs \<Rightarrow> bind_result (v q rd) (\<lambda>p. verify_rest v rd p qs))"

text \<open>
  A batch is verified concurrently; \<open>order\<close> is the order in which the futures complete, and the first
  failure in that order is returned.
\<close>

definition verify_batch ::
    "quote_verifier \<Rightarrow> nat list \<Rightarrow> AttestQuote list \<Rightarrow> bytes list \<Rightarrow> AttestError + VerificationResult list" where
  "verify_batch v order quotes rds =
     (if length quotes \<noteq> length rds then
        Inl (MalformedQuote ''quotes and report_data slices must have the same length for batch verification'')
      else
        (let rs = map2 v quotes rds in
         case find (\<lambda>i. isl (rs ! i)) order of
           Some i \<Rightarrow> Inl (projl (rs ! i))
         | None \<Rightarrow> Inr (map projr rs)))"

subsection \<open>Revocation\<close>

definition check_revocation :: "string set \<Rightarrow> VerificationResult \<Rightarrow> AttestError + unit" where
  "check_revocation revoked res =
     (case find (\<lambda>i. i \<in> revoked)
             (List.map_filter id [boot_progress (claims res), measurement res, signer_id res]) of
        Some i \<Rightarrow> Inl (RevokedError (''identity '' @ quoted i @ '' is on the revocation list''))
      | None \<Rightarrow> Inr ())"

subsection \<open>The simple policy\<close>

record SimplePolicy =
  allowed_hwmodels :: "string list"
  min_hwversion :: "string option"
  sp_allow_debug :: bool
  min_security_version :: "u16 option"

fun split_on :: "char \<Rightarrow> string \<Rightarrow> string list" where
  "split_on c [] = [[]]"
| "split_on c (x # xs) =
     (if x = c then [] # split_on c xs
      else (case split_on c xs of [] \<Rightarrow> [[x]] | p # ps \<Rightarrow> (x # p) # ps))"

definition is_digit :: "char \<Rightarrow> bool" where
  "is_digit c \<longleftrightarrow> (let n = of_char c :: nat in 48 \<le> n \<and> n \<le> 57)"

definition parse_u32 :: "string \<Rightarrow> u32 option" where
  "parse_u32 s =
     (let ds = (case s of [] \<Rightarrow> [] | c # cs \<Rightarrow> if c = CHR ''+'' then cs else s) in
      if ds = [] \<or> \<not> list_all is_digit ds then None
      else if digits_val ds < 2 ^ 32 then Some (word_of_nat (digits_val ds)) else None)"

definition version_parts :: "string \<Rightarrow> u32 list" where
  "version_parts v = List.map_filter parse_u32 (split_on CHR ''.'' v)"

fun compare_parts :: "(u32 \<times> u32) list \<Rightarrow> bool option" where
  "compare_parts [] = None"
| "compare_parts ((a, b) # ps) =
     (if a > b then Some True else if a < b then Some False else compare_parts ps)"

definition is_version_at_least :: "string \<Rightarrow> string \<Rightarrow> bool" where
  "is_version_at_least v min_v =
     (let v_parts = version_parts v; min_parts = version_parts min_v in
      case compare_parts (zip v_parts min_parts) of
        Some b \<Rightarrow> b
      | None \<Rightarrow> length v_parts \<ge> length min_parts)"

definition check_hwmodel :: "SimplePolicy \<Rightarrow> VerificationResult \<Rightarrow> AttestError + unit" where
  "check_hwmodel p res =
     (if allowed_hwmodels p = [] then Inr ()
      else case hwmodel (claims res) of
          Some model \<Rightarrow>
            if model \<notin> set (allowed_hwmodels p)
            then Inl (PolicyViolation (''unauthorized hardware model: '' @ model)) else Inr ()
        | None \<Rightarrow> Inl (PolicyViolation ''hardware model claim missing''))"

definition check_hwversion :: "SimplePolicy \<Rightarrow> VerificationResult \<Rightarrow> AttestError + unit" where
  "check_hwversion p res =
     (case (min_hwversion p, hwversion (claims res)) of
        (Some min_v, Some v) \<Rightarrow>
          if is_version_at_least v min_v then Inr ()
          else Inl (PolicyViolation (''hardware version '' @ v @ '' is below minimum '' @ min_v))
      | _ \<Rightarrow> Inr ())"

definition check_security_version :: "SimplePolicy \<Rightarrow> VerificationResult \<Rightarrow> AttestError + unit" where
  "check_security_version p res =
     (case min_security_version p of
        None \<Rightarrow> Inr ()
      | Some min_sv \<Rightarrow>
          (case security_version (claims res) of
             Some sv \<Rightarrow>
               if sv < min_sv
               then Inl (PolicyViolation (''security version '' @ show_nat (unat sv) @ '' is below minimum '' @
                      show_nat (unat min_sv)))
               else Inr ()
           | None \<Rightarrow> Inl (PolicyViolation ''security version claim missing'')))"

definition simple_policy_evaluate :: "bool \<Rightarrow> SimplePolicy \<Rightarrow> VerificationResult \<Rightarrow> (AttestError + unit) option" where
  "simple_policy_evaluate release p res =
     (if release \<and> sp_allow_debug p then None
      else Some (
        bind_result (reject_debug_builds res (sp_allow_debug p)) (\<lambda>_.
        bind_result (check_hwmodel p res) (\<lambda>_.
        bind_result (check_hwversion p res) (\<lambda>_.
          check_security_version p res)))))"

subsection \<open>The composite verifier\<close>

record CompositeVerifier =
  cv_verifiers :: "(string \<times> quote_verifier) list"
  strict_mode :: bool

definition composite_new :: CompositeVerifier where
  "composite_new = \<lparr>cv_verifiers = [], strict_mode = True\<rparr>"

definition add_verifier :: "QuoteType \<Rightarrow> quote_verifier \<Rightarrow> CompositeVerifier \<Rightarrow> CompositeVerifier" where
  "add_verifier t v c = c\<lparr>cv_verifiers := hm_insert (show_quote_type t) v (cv_verifiers c)\<rparr>"

definition composite_verify :: "CompositeVerifier \<Rightarrow> quote_verifier" where
  "composite_verify c q rd =
     (let type_key = show_quote_type (quote_type q) in
      bind_result (ok_or (PolicyViolation (''no verifier registered for quote type: '' @ type_key))
        (map_of (cv_verifiers c) type_key)) (\<lambda>v. v q rd))"

fun verify_each ::
    "('q \<Rightarrow> bytes \<Rightarrow> AttestError + VerificationResult) \<Rightarrow> bytes \<Rightarrow> 'q list \<Rightarrow> AttestError + VerificationResult list" where
  "verify_each v rd [] = Inr []"
| "verify_each v rd (q # qs) = bind_result (v q rd) (\<lambda>r. bind_result (verify_each v rd qs) (\<lambda>rs. Inr (r # rs)))"

definition composite_verify_bundle ::
    "CompositeVerifier \<Rightarrow> AttestQuote list \<Rightarrow> bytes \<Rightarrow> AttestError + VerificationResult" where
  "composite_verify_bundle c quotes rd =
     (if quotes = [] then Inl (Malformed ''empty quote bundle'')
      else bind_result (verify_each (composite_verify c) rd quotes) (\<lambda>results.
        Inr (with_secondary (hd results) (tl results))))"

subsection \<open>The federated verifier\<close>

datatype ManifestTrustRoot =
    OperatorRoot bytes
  | QuorumRoot u32 "bytes list"
  | InsecureSkipSignatureCheck

record FederatedVerifier =
  fv_verifiers :: "(string \<times> quote_verifier) list"
  fv_manifest :: "FederationManifest option"
  require_manifest :: bool
  trust_root :: ManifestTrustRoot

definition federated_new :: FederatedVerifier where
  "federated_new = \<lparr>fv_verifiers = [], fv_manifest = None, require_manifest = True, trust_root = InsecureSkipSignatureCheck\<rparr>"

definition new_permissive :: "bool \<Rightarrow> FederatedVerifier option" where
  "new_permissive release =
     (if release then None
      else Some \<lparr>fv_verifiers = [], fv_manifest = None, require_manifest = False, trust_root = InsecureSkipSignatureCheck\<rparr>)"

definition with_trust_root :: "FederatedVerifier \<Rightarrow> ManifestTrustRoot \<Rightarrow> FederatedVerifier" where
  "with_trust_root f r = f\<lparr>trust_root := r\<rparr>"

definition add_vendor_verifier :: "TeeClass \<Rightarrow> quote_verifier \<Rightarrow> FederatedVerifier \<Rightarrow> FederatedVerifier" where
  "add_vendor_verifier c v f = f\<lparr>fv_verifiers := hm_insert (show_tee_class c) v (fv_verifiers f)\<rparr>"

definition quorum_count :: "bytes list \<Rightarrow> (bytes \<times> bytes) list \<Rightarrow> u32" where
  "quorum_count validators sigs = word_of_nat (length (filter (\<lambda>(pk, _). pk \<in> set validators) sigs))"

definition verify_manifest_signature :: "FederatedVerifier \<Rightarrow> FederationManifest \<Rightarrow> AttestError + unit" where
  "verify_manifest_signature f m =
     (case trust_root f of
        InsecureSkipSignatureCheck \<Rightarrow> Inr ()
      | OperatorRoot expected_key \<Rightarrow>
          (case manifest_signature m of
             Operator pk _ \<Rightarrow>
               if pk \<noteq> expected_key
               then Inl (PolicyViolation ''FederationManifest signed by unknown operator key'') else Inr ()
           | _ \<Rightarrow> Inl (PolicyViolation ''Expected Operator signature on FederationManifest, found different type''))
      | QuorumRoot threshold validators \<Rightarrow>
          (case manifest_signature m of
             Quorum manifest_threshold signatures \<Rightarrow>
               if manifest_threshold < threshold
               then Inl (PolicyViolation (''Manifest threshold '' @ show_nat (unat manifest_threshold) @
                      '' is lower than required '' @ show_nat (unat threshold)))
               else if quorum_count validators signatures < threshold
               then Inl (PolicyViolation (''Manifest lacks sufficient quorum: got '' @
                      show_nat (unat (quorum_count validators signatures)) @ '' valid signatures, need '' @
                      show_nat (unat threshold)))
               else Inr ()
           | _ \<Rightarrow> Inl (PolicyViolation ''Expected Quorum signature on FederationManifest, found different type'')))"

definition set_manifest ::
    "FederatedVerifier \<Rightarrow> FederationManifest \<Rightarrow> (AttestError + unit) \<times> FederatedVerifier" where
  "set_manifest f m =
     (case verify_manifest_signature f m of
        Inl e \<Rightarrow> (Inl e, f)
      | Inr _ \<Rightarrow> (Inr (), f\<lparr>fv_manifest := Some m\<rparr>))"

definition fill_tee_class :: "TeeClass \<Rightarrow> VerificationResult \<Rightarrow> VerificationResult" where
  "fill_tee_class c r =
     (if tee_class (claims r) = None
      then VerificationResult (eat_token r) (claims r\<lparr>tee_class := Some c\<rparr>) (tcb_status r) (measurement r)
             (signer_id r) (secondary r)
      else r)"

definition route_and_verify :: "FederatedVerifier \<Rightarrow> quote_verifier" where
  "route_and_verify f q rd =
     (let cls = tee_class_of (quote_type q) in
      bind_result (ok_or (PolicyViolation (''FederatedVerifier: no vendor verifier registered for TEE class '' @
          quoted (show_tee_class cls))) (map_of (fv_verifiers f) (show_tee_class cls))) (\<lambda>v.
      bind_result (v q rd) (\<lambda>r. Inr (fill_tee_class cls r))))"

definition manifest_measurement :: "VerificationResult \<Rightarrow> string" where
  "manifest_measurement res =
     (case measurement res of
        Some m \<Rightarrow> m
      | None \<Rightarrow> (case boot_progress (claims res) of Some m \<Rightarrow> m | None \<Rightarrow> []))"

definition reports_debug :: "VerificationResult \<Rightarrow> bool" where
  "reports_debug res \<longleftrightarrow> (case dbgstat (claims res) of None \<Rightarrow> 0 | Some d \<Rightarrow> d) \<noteq> 0"

definition check_manifest :: "FederatedVerifier \<Rightarrow> u64 \<Rightarrow> VerificationResult \<Rightarrow> AttestError + unit" where
  "check_manifest f now res =
     (case fv_manifest f of
        None \<Rightarrow>
          if require_manifest f then Inl (PolicyViolation (''FederatedVerifier: no FederationManifest loaded; '' @
                ''refusing to accept quotes in strict mode. '' @
                ''Load a manifest via FederatedVerifier::set_manifest().'')) else Inr ()
      | Some m \<Rightarrow>
          if \<not> manifest_is_valid m now then Inl (PolicyViolation ''FederationManifest has expired'')
          else bind_result (ok_or (PolicyViolation ''FederatedVerifier: verification result is missing tee_class claim'')
                 (tee_class (claims res))) (\<lambda>cls.
            if \<not> manifest_allows m cls (manifest_measurement res) (security_version (claims res)) (reports_debug res)
            then Inl (PolicyViolation (''FederationManifest does not permit TEE class '' @ quoted (show_tee_class cls) @
                   '' with measurement '' @ quoted (manifest_measurement res) @ '' (SVN='' @
                   (case security_version (claims res) of None \<Rightarrow> ''None'' | Some v \<Rightarrow> ''Some('' @ show_nat (unat v) @ '')'') @
                   '', debug='' @ (if reports_debug res then ''true'' else ''false'') @ '')''))
            else Inr ()))"

definition federated_verify :: "FederatedVerifier \<Rightarrow> u64 \<Rightarrow> quote_verifier" where
  "federated_verify f now q rd =
     bind_result (route_and_verify f q rd) (\<lambda>r. bind_result (check_manifest f now r) (\<lambda>_. Inr r))"

text \<open>
  The manifest is behind a lock and may be replaced while a bundle is verified: \<open>reads i\<close> is the manifest and the time
  that the check of the quote at position \<open>i\<close> reads.
\<close>

definition federated_verify_at :: "FederatedVerifier \<Rightarrow> (nat \<Rightarrow> FederationManifest option \<times> u64) \<Rightarrow> nat \<Rightarrow> quote_verifier" where
  "federated_verify_at f reads i = federated_verify (f\<lparr>fv_manifest := fst (reads i)\<rparr>) (snd (reads i))"

definition federated_verify_bundle ::
    "FederatedVerifier \<Rightarrow> (nat \<Rightarrow> FederationManifest option \<times> u64) \<Rightarrow> AttestQuote list \<Rightarrow> bytes \<Rightarrow> AttestError + VerificationResult" where
  "federated_verify_bundle f reads quotes rd =
     (if quotes = [] then Inl (MalformedQuote ''FederatedVerifier: empty quote bundle'')
      else bind_result (verify_each (\<lambda>(i, q). federated_verify_at f reads i q) rd (enumerate 0 quotes)) (\<lambda>results.
        Inr (with_secondary (hd results) (tl results))))"


subsection \<open>Bundles are verified quote by quote\<close>

lemma with_secondary_simps [simp]:
  "eat_token (with_secondary p rs) = eat_token p" "claims (with_secondary p rs) = claims p"
  "tcb_status (with_secondary p rs) = tcb_status p" "measurement (with_secondary p rs) = measurement p"
  "signer_id (with_secondary p rs) = signer_id p" "secondary (with_secondary p rs) = rs"
  "with_secondary (with_secondary p rs) rs' = with_secondary p rs'"
  "with_secondary p (secondary p) = p"
  by (simp_all add: with_secondary_def)

lemma verify_each_Inr_iff: "verify_each v rd qs = Inr rs \<longleftrightarrow> list_all2 (\<lambda>q r. v q rd = Inr r) qs rs"
proof (induction qs arbitrary: rs)
  case (Cons q qs)
  then show ?case by (cases rs) (auto simp: bind_result_Inr_iff)
qed auto

lemma verify_rest_Inr_iff:
  "verify_rest v rd p qs = Inr r \<longleftrightarrow>
     (\<exists>rs. list_all2 (\<lambda>q r. v q rd = Inr r) qs rs \<and> r = with_secondary p (secondary p @ rs))"
proof (induction qs arbitrary: p)
  case (Cons q qs)
  show ?case
  proof
    assume "verify_rest v rd p (q # qs) = Inr r"
    then obtain r1 rs where "v q rd = Inr r1" "list_all2 (\<lambda>q r. v q rd = Inr r) qs rs"
      "r = with_secondary p (secondary p @ r1 # rs)"
      using Cons.IH by (auto simp: bind_result_Inr_iff)
    then show "\<exists>rs. list_all2 (\<lambda>q r. v q rd = Inr r) (q # qs) rs \<and> r = with_secondary p (secondary p @ rs)"
      by (intro exI [of _ "r1 # rs"]) simp
  next
    assume "\<exists>rs. list_all2 (\<lambda>q r. v q rd = Inr r) (q # qs) rs \<and> r = with_secondary p (secondary p @ rs)"
    then show "verify_rest v rd p (q # qs) = Inr r"
      using Cons.IH by (auto simp: list_all2_Cons1)
  qed
qed auto

lemma verify_bundle_Inr_iff:
  "verify_bundle v qs rd = Inr r \<longleftrightarrow>
     (\<exists>p rs. list_all2 (\<lambda>q r. v q rd = Inr r) qs (p # rs) \<and> r = with_secondary p (secondary p @ rs))"
  by (cases qs) (auto simp: verify_bundle_def bind_result_Inr_iff verify_rest_Inr_iff)

lemma collected_bundle_Inr_iff:
  assumes "qs \<noteq> []"
  shows "bind_result (verify_each v rd qs) (\<lambda>rs. Inr (with_secondary (hd rs) (tl rs))) = Inr r \<longleftrightarrow>
     (\<exists>p rs. list_all2 (\<lambda>q r. v q rd = Inr r) qs (p # rs) \<and> r = with_secondary p rs)" (is "?L \<longleftrightarrow> ?R")
proof
  assume ?L
  then obtain rs where rs: "list_all2 (\<lambda>q r. v q rd = Inr r) qs rs" "r = with_secondary (hd rs) (tl rs)"
    by (auto simp: bind_result_Inr_iff verify_each_Inr_iff)
  with assms show ?R by (cases rs) auto
next
  assume ?R
  then obtain p rs where "verify_each v rd qs = Inr (p # rs)" "r = with_secondary p rs"
    by (auto simp: verify_each_Inr_iff)
  then show ?L by simp
qed

text \<open>
  The collecting bundle method of the composite verifier agrees with the default method of the trait
  unless the first quote's own verifier already reports nested results, which collecting replaces.
\<close>
lemma composite_bundle_agrees:
  assumes "\<And>q r. composite_verify c q rd = Inr r \<Longrightarrow> secondary r = []"
  shows "composite_verify_bundle c qs rd = Inr r \<longleftrightarrow> verify_bundle (composite_verify c) qs rd = Inr r"
proof (cases "qs = []")
  case False
  have none: "secondary p = []" if "list_all2 (\<lambda>q r. composite_verify c q rd = Inr r) qs (p # rs)" for p rs
    using that assms by (auto simp: list_all2_Cons2)
  have "list_all2 (\<lambda>q r. composite_verify c q rd = Inr r) qs (p # rs) \<and> r = with_secondary p rs \<longleftrightarrow>
        list_all2 (\<lambda>q r. composite_verify c q rd = Inr r) qs (p # rs) \<and> r = with_secondary p (secondary p @ rs)" for p rs
    using none [of p rs] by auto
  then show ?thesis
    unfolding composite_verify_bundle_def if_not_P [OF False] collected_bundle_Inr_iff [OF False] verify_bundle_Inr_iff
    by simp
qed (simp add: composite_verify_bundle_def verify_bundle_def)

lemma verify_batch_Inr_iff:
  assumes "length quotes = length rds" and "set order = {..<length quotes}"
  shows "verify_batch v order quotes rds = Inr rs \<longleftrightarrow>
           length rs = length quotes \<and> (\<forall>i<length quotes. v (quotes ! i) (rds ! i) = Inr (rs ! i))"
proof -
  let ?rs = "map2 v quotes rds"
  have nth: "?rs ! i = v (quotes ! i) (rds ! i)" if "i < length quotes" for i using that assms(1) by simp
  show ?thesis
  proof (cases "find (\<lambda>i. isl (?rs ! i)) order")
    case None
    then have ok: "\<not> isl (v (quotes ! i) (rds ! i))" if "i < length quotes" for i
      using that assms(2) nth by (auto simp: find_None_iff)
    have "rs = map projr ?rs \<longleftrightarrow> length rs = length quotes \<and> (\<forall>i<length quotes. rs ! i = projr (v (quotes ! i) (rds ! i)))"
      using assms(1) by (auto simp: list_eq_iff_nth_eq)
    also have "\<dots> \<longleftrightarrow> length rs = length quotes \<and> (\<forall>i<length quotes. v (quotes ! i) (rds ! i) = Inr (rs ! i))"
      using ok by (metis sum.collapse(2) sum.sel(2))
    finally show ?thesis using None assms(1) by (auto simp: verify_batch_def)
  next
    case (Some i)
    then have "i \<in> set order" "isl (?rs ! i)" by (metis find_first)+
    with assms(2) nth have "i < length quotes" "isl (v (quotes ! i) (rds ! i))" by auto
    with Some assms(1) show ?thesis by (auto simp: verify_batch_def)
  qed
qed

subsection \<open>Versions and the simple policy\<close>

lemma compare_parts_lexicographic:
  "(case compare_parts (zip as bs) of Some b \<Rightarrow> b | None \<Rightarrow> length as \<ge> length bs) \<longleftrightarrow> bs \<le> as"
proof (induction as bs rule: list_induct2')
  case (4 a as b bs)
  then show ?case by (cases a b rule: linorder_cases) (auto split: option.splits)
qed auto

lemma is_version_at_least_lexicographic: "is_version_at_least v m \<longleftrightarrow> version_parts m \<le> version_parts v"
  unfolding is_version_at_least_def Let_def by (rule compare_parts_lexicographic)


lemma policy_checks_Inr_iff:
  "reject_debug_builds res dbg = Inr () \<longleftrightarrow> (reports_debug res \<longrightarrow> dbg)"
  "check_hwmodel p res = Inr () \<longleftrightarrow>
     allowed_hwmodels p = [] \<or> (\<exists>m. hwmodel (claims res) = Some m \<and> m \<in> set (allowed_hwmodels p))"
  "check_hwversion p res = Inr () \<longleftrightarrow>
     (\<forall>mn v. min_hwversion p = Some mn \<and> hwversion (claims res) = Some v \<longrightarrow> version_parts mn \<le> version_parts v)"
  "check_security_version p res = Inr () \<longleftrightarrow>
     (\<forall>mn. min_security_version p = Some mn \<longrightarrow> (\<exists>sv. security_version (claims res) = Some sv \<and> mn \<le> sv))"
  by (auto simp: reject_debug_builds_def reports_debug_def check_hwmodel_def check_hwversion_def check_security_version_def
      is_version_at_least_lexicographic not_less split: option.splits)

text \<open>
  C38. The simple policy accepts a result exactly when debug mode is off or allowed, the hardware model is
  listed (if models are listed), a reported hardware version is at least the minimum in the
  lexicographic order of its numeric parts, and the security version is reported and high enough (if a
  minimum is set). A result that reports no hardware version passes the version check. With debug
  allowed, a release build panics instead of deciding.
\<close>
theorem simple_policy_accepts_iff:
  "simple_policy_evaluate release p res = Some (Inr ()) \<longleftrightarrow>
     \<not> (release \<and> sp_allow_debug p) \<and> (reports_debug res \<longrightarrow> sp_allow_debug p) \<and>
     (allowed_hwmodels p = [] \<or> (\<exists>m. hwmodel (claims res) = Some m \<and> m \<in> set (allowed_hwmodels p))) \<and>
     (\<forall>mn v. min_hwversion p = Some mn \<and> hwversion (claims res) = Some v \<longrightarrow> version_parts mn \<le> version_parts v) \<and>
     (\<forall>mn. min_security_version p = Some mn \<longrightarrow> (\<exists>sv. security_version (claims res) = Some sv \<and> mn \<le> sv))"
  unfolding policy_checks_Inr_iff [symmetric] by (auto simp: simple_policy_evaluate_def bind_result_Inr_iff)

subsection \<open>What a vendor verifier guarantees its clients\<close>

locale binding_verifier =
  fixes verify :: quote_verifier
    and binds :: "AttestQuote \<Rightarrow> bytes \<Rightarrow> bool"
  assumes verified_binds: "verify q rd = Inr r \<Longrightarrow> binds q rd"
begin

lemma bundle_binds: "verify_bundle verify qs rd = Inr r \<Longrightarrow> q \<in> set qs \<Longrightarrow> binds q rd"
  by (auto simp: verify_bundle_Inr_iff list_all2_conv_all_nth in_set_conv_nth intro: verified_binds)

lemma batch_binds:
  assumes "verify_batch verify order quotes rds = Inr rs" "set order = {..<length quotes}" "i < length quotes"
  shows "binds (quotes ! i) (rds ! i)"
proof -
  have "length quotes = length rds" using assms(1) by (auto simp: verify_batch_def split: if_splits)
  with assms show ?thesis using verify_batch_Inr_iff verified_binds by metis
qed

lemma handshake_binds:
  assumes "verify_client_quotes D x req (Some (\<lambda>q rd. map_err show_attest_error (verify q rd))) now = Inr res"
    and "q \<in> set (client_quotes req)"
  shows "binds q (client_report_data D req)"
proof -
  let ?v = "\<lambda>q rd. map_err show_attest_error (verify q rd)"
  from assms have "verify_quotes x ?v (client_report_data D req) now None (client_quotes req) = Inr res"
    by (auto simp: verify_client_quotes_def bind_result_Inr_iff split: if_splits)
  from verify_quotes_all [OF this] assms(2) obtain r where "?v q (client_report_data D req) = Inr r"
    by (force simp: list_all2_conv_all_nth in_set_conv_nth quote_accepted_def)
  then show ?thesis using verified_binds by simp
qed

end

text \<open>
  Most vendor verifiers also compare the quote's own copy of the report data. Such a verifier refuses a
  quote whose copy was lost on the way.
\<close>

locale qudd_verifier = binding_verifier +
  assumes binds_qudd: "binds q rd \<Longrightarrow> qudd q = rd"
begin

lemma stripped_quotes_rejected:
  assumes "q \<in> set (client_quotes req)" "qudd q \<noteq> client_report_data D req"
  shows "\<exists>e. verify_client_quotes D x req (Some (\<lambda>q rd. map_err show_attest_error (verify q rd))) now = Inl e"
proof (cases "verify_client_quotes D x req (Some (\<lambda>q rd. map_err show_attest_error (verify q rd))) now")
  case (Inr res)
  from binds_qudd [OF handshake_binds [OF this assms(1)]] assms(2) show ?thesis by contradiction
qed simp

end

text \<open>
  Registering vendor verifiers under their names keeps what they have in common, in the composite and in
  the federated verifier.
\<close>

locale vendor_verifiers =
  fixes vendors :: "(string \<times> quote_verifier) list"
    and binds :: "AttestQuote \<Rightarrow> bytes \<Rightarrow> bool"
  assumes vendor_binds: "(k, v) \<in> set vendors \<Longrightarrow> v q rd = Inr r \<Longrightarrow> binds q rd"

sublocale vendor_verifiers \<subseteq> composite: binding_verifier "composite_verify \<lparr>cv_verifiers = vendors, strict_mode = True\<rparr>" binds
  by unfold_locales (auto simp: composite_verify_def bind_result_Inr_iff Let_def dest!: map_of_SomeD intro: vendor_binds)

context vendor_verifiers
begin

lemma routed_binds: "fv_verifiers f = vendors \<Longrightarrow> route_and_verify f q rd = Inr r \<Longrightarrow> binds q rd"
  by (auto simp: route_and_verify_def bind_result_Inr_iff Let_def dest!: map_of_SomeD intro: vendor_binds)

lemma federated_binds: "fv_verifiers f = vendors \<Longrightarrow> federated_verify f now q rd = Inr r \<Longrightarrow> binds q rd"
  by (auto simp: federated_verify_def bind_result_Inr_iff intro: routed_binds)

lemma federated_bundle_binds:
  assumes "fv_verifiers f = vendors" "federated_verify_bundle f reads qs rd = Inr r" "q \<in> set qs"
  shows "binds q rd"
proof -
  from assms(2,3) obtain rs where
    "list_all2 (\<lambda>x r. (case x of (i, q) \<Rightarrow> federated_verify_at f reads i q) rd = Inr r) (enumerate 0 qs) rs"
    by (auto simp: federated_verify_bundle_def bind_result_Inr_iff verify_each_Inr_iff split: if_splits)
  moreover obtain i where "i < length qs" "q = qs ! i" using assms(3) by (auto simp: in_set_conv_nth)
  ultimately obtain r' where r': "federated_verify (f\<lparr>fv_manifest := fst (reads i)\<rparr>) (snd (reads i)) q rd = Inr r'"
    by (auto simp: list_all2_conv_all_nth nth_enumerate_eq federated_verify_at_def)
  have "fv_verifiers (f\<lparr>fv_manifest := fst (reads i)\<rparr>) = vendors" using assms(1) by simp
  from this r' show ?thesis by (rule federated_binds)
qed

end


subsection \<open>Federation\<close>

lemma tee_class_fill [simp]:
  "tee_class (claims (fill_tee_class c r)) = (case tee_class (claims r) of None \<Rightarrow> Some c | Some d \<Rightarrow> Some d)"
  by (auto simp: fill_tee_class_def split: option.splits)

definition manifest_accepts :: "FederatedVerifier \<Rightarrow> u64 \<Rightarrow> VerificationResult \<Rightarrow> bool" where
  "manifest_accepts f now r \<longleftrightarrow>
     (case fv_manifest f of
        None \<Rightarrow> \<not> require_manifest f
      | Some m \<Rightarrow>
          now < manifest_expires_at m \<and>
          (\<exists>e\<in>set (entries m). tee_class (claims r) = Some (entry_tee_class e) \<and>
             (measurement_hex e = [] \<or> map ascii_lower (measurement_hex e) = map ascii_lower (manifest_measurement r)) \<and>
             (\<forall>mn. min_svn e = Some mn \<longrightarrow> (\<exists>v. security_version (claims r) = Some v \<and> mn \<le> v)) \<and>
             (reports_debug r \<longrightarrow> allow_debug e)))"

lemma check_manifest_Inr_iff: "check_manifest f now r = Inr () \<longleftrightarrow> manifest_accepts f now r"
proof (cases "fv_manifest f")
  case (Some m)
  then show ?thesis
    by (cases "tee_class (claims r)")
      (auto simp: check_manifest_def manifest_accepts_def manifest_is_valid_def manifest_allows_iff)
qed (simp add: check_manifest_def manifest_accepts_def)

lemma federated_verify_Inr_iff:
  "federated_verify f now q rd = Inr r \<longleftrightarrow>
     (\<exists>v r0. map_of (fv_verifiers f) (show_tee_class (tee_class_of (quote_type q))) = Some v \<and> v q rd = Inr r0 \<and>
        r = fill_tee_class (tee_class_of (quote_type q)) r0 \<and> manifest_accepts f now r)"
  by (auto simp: federated_verify_def route_and_verify_def bind_result_Inr_iff check_manifest_Inr_iff Let_def)

text \<open>
  C10. A bundle is accepted by the federated verifier exactly when it is not empty and for each of its quotes
  the verifier registered for the quote's class accepted it against the expected report data, and the
  result, with the class filled in where it was missing, satisfies an unexpired manifest (the manifest and time that this
  quote's check reads): some entry
  for the reported class has its measurement (or a wildcard), a minimum security version that is
  reached, and allows debug mode if it is reported. Without a manifest nothing is accepted in strict mode. The first
  result becomes the primary one with the others nested in it.
\<close>
theorem federated_bundle_accepted_iff:
  "federated_verify_bundle f reads qs rd = Inr r \<longleftrightarrow>
     (\<exists>p rs. r = with_secondary p rs \<and>
        list_all2 (\<lambda>(i, q) r. \<exists>v r0. map_of (fv_verifiers f) (show_tee_class (tee_class_of (quote_type q))) = Some v \<and>
           v q rd = Inr r0 \<and> r = fill_tee_class (tee_class_of (quote_type q)) r0 \<and>
           manifest_accepts (f\<lparr>fv_manifest := fst (reads i)\<rparr>) (snd (reads i)) r)
          (enumerate 0 qs) (p # rs))"
proof (cases "qs = []")
  case False
  then have "enumerate 0 qs \<noteq> []" by (cases qs) auto
  then show ?thesis
    unfolding federated_verify_bundle_def if_not_P [OF False] collected_bundle_Inr_iff [OF \<open>enumerate 0 qs \<noteq> []\<close>]
    by (simp add: federated_verify_at_def federated_verify_Inr_iff case_prod_beta' conj_commute)
qed (simp add: federated_verify_bundle_def)

text \<open>
  C40. Loading a manifest checks who is named as its signer, not the signature. Any content passes under an
  operator root if it names the operator's public key, whatever the signature bytes; under a quorum
  root it passes if one validator's key is listed often enough. The verifier then accepts whatever the
  forged entries allow.
\<close>
theorem forged_manifest_accepted:
  assumes "trust_root f = OperatorRoot pk \<and> manifest_signature m = Operator pk sig \<or>
           trust_root f = QuorumRoot t vals \<and> pk \<in> set vals \<and> manifest_signature m = Quorum t (replicate (unat t) (pk, sig))"
  shows "set_manifest f m = (Inr (), f\<lparr>fv_manifest := Some m\<rparr>)"
proof -
  have "quorum_count vals (replicate (unat t) (pk, sig)) = t" if "pk \<in> set vals"
    using that by (simp add: quorum_count_def filter_replicate)
  with assms show ?thesis by (auto simp: set_manifest_def verify_manifest_signature_def)
qed


subsection \<open>Concrete instances\<close>

abbreviation demo_policy :: SimplePolicy where
  "demo_policy \<equiv> \<lparr>allowed_hwmodels = [''Intel TDX''], min_hwversion = Some ''1.9'', sp_allow_debug = False,
     min_security_version = Some 3\<rparr>"

abbreviation demo_versioned :: VerificationResult where
  "demo_versioned \<equiv> VerificationResult None
     (eat_default\<lparr>hwmodel := Some ''Intel TDX'', hwversion := Some ''1.10.1'', security_version := Some 4, dbgstat := Some 0\<rparr>)
     ''UpToDate'' None None []"

theorem simple_policy_accepts_iff_witness:
  "simple_policy_evaluate True demo_policy demo_versioned = Some (Inr ())"
proof -
  have "version_parts ''1.9'' = [1, 9]" "version_parts ''1.10.1'' = [1, 10, 1]"
    by (simp_all add: version_parts_def parse_u32_def is_digit_def digits_val_def List.map_filter_simps)
  moreover have "\<not> reports_debug demo_versioned" by (simp add: reports_debug_def)
  ultimately show ?thesis
    using simple_policy_accepts_iff [of True demo_policy demo_versioned] by (simp add: eat_default_def)
qed

abbreviation demo_entry :: FederationEntry where
  "demo_entry \<equiv> \<lparr>entry_tee_class = IntelTdx, measurement_hex = [], label = ''any'', min_svn = None, allow_debug = True\<rparr>"

abbreviation demo_manifest :: "ManifestSignature \<Rightarrow> FederationManifest" where
  "demo_manifest sig \<equiv> \<lparr>manifest_version = 1, issued_at = 0, manifest_expires_at = 1000, entries = [demo_entry],
     manifest_signature = sig\<rparr>"

theorem forged_manifest_accepted_witness:
  "set_manifest (federated_new\<lparr>trust_root := QuorumRoot 2 [[1], [2], [3]]\<rparr>) (demo_manifest (Quorum 2 [([1], []), ([1], [])])) =
     (Inr (), federated_new\<lparr>trust_root := QuorumRoot 2 [[1], [2], [3]], fv_manifest := Some (demo_manifest (Quorum 2 [([1], []), ([1], [])]))\<rparr>)"
proof -
  have two: "replicate (unat (2 :: u32)) ([1 :: byte], [] :: bytes) = [([1], []), ([1], [])]"
  proof -
    have "unat (2 :: u32) = Suc (Suc 0)" by simp
    then show ?thesis by (simp only: replicate.simps)
  qed
  show ?thesis
    using forged_manifest_accepted [of "federated_new\<lparr>trust_root := QuorumRoot 2 [[1], [2], [3]]\<rparr>" "[1]"
        "demo_manifest (Quorum 2 [([1], []), ([1], [])])" "[]" 2 "[[1], [2], [3]]"] two by simp
qed

end
