(* ===== verification/Quote_Verifiers.thy ===== *)
theory Quote_Verifiers
  imports Attestation
begin

section \<open>Vendor verifiers\<close>

text \<open>
  The verifiers of \<open>openhttpa-attestation\<close> for single quote types: AMD SEV-SNP (\<open>snp_verifier.rs\<close>), Intel TDX
  over DCAP (\<open>tdx_dcap_verifier.rs\<close>), the Azure paravisor binding both share (\<open>azure_hcl.rs\<close>), NVIDIA
  fixtures and the NVIDIA remote service, Intel Trust Authority and Azure MAA with their cached key sets,
  TPM quotes, mock quotes, the collateral fetcher and cache, and signed EAT tokens (\<open>eat.rs\<close>).

  Vendor libraries (\<open>sev\<close>, \<open>dcap-qvl\<close>, JSON, JWT, COSE, base64, hex and URL parsing), the network and the
  file system are records of functions; the clock, the build profile and the compile-time features are
  arguments. A remote verifier's key-set cache is threaded through.

  The lemmas show what acceptance by each verifier implies, interpreted as instances of
  \<open>binding_verifier\<close>, that fetching collateral reaches only listed hosts, is bounded and ends, and that
  a TPM quote is accepted whatever its signature.
\<close>

subsection \<open>The Azure paravisor binding\<close>

record hcl_lib =
  hcl_sha256 :: "bytes \<Rightarrow> bytes"
  hcl_hex :: "bytes \<Rightarrow> string"
  hcl_user_data :: "bytes \<Rightarrow> string + string option"

definition verify_azure_hcl_binding :: "hcl_lib \<Rightarrow> bytes \<Rightarrow> bytes \<Rightarrow> bytes \<Rightarrow> AttestError + unit" where
  "verify_azure_hcl_binding A embedded runtime_data expected =
     (if hcl_sha256 A runtime_data \<noteq> take 32 embedded
      then Inl (PolicyViolation ''Azure HCL runtime data does not match hardware report_data'')
      else
        bind_result (map_err (\<lambda>e. MalformedQuote (''invalid HCL runtime data: '' @ e)) (hcl_user_data A runtime_data)) (\<lambda>u.
        bind_result (ok_or (PolicyViolation ''Azure HCL runtime data is missing user-data'') u) (\<lambda>user_data.
        if \<not> eq_ignore_ascii_case user_data (hcl_hex A expected)
        then Inl (PolicyViolation ''Azure HCL user-data does not match the expected report_data'')
        else Inr ())))"

subsection \<open>AMD SEV-SNP\<close>

datatype SevSnpCertificateType = Ark | Ask | Vcek | Vlek | Crl | OtherCertificate string

record SevSnpCertificate =
  certificate_type :: SevSnpCertificateType
  der :: bytes

record SevSnpQuoteBundleV1 =
  snp_report :: bytes
  certificate_table :: "SevSnpCertificate list"
  snp_hcl_runtime_data :: "bytes option"

datatype AmdCaSource = Builtin | Static bytes | CaFile string | FetchFromKDS

record SevSnpVerifier =
  snp_min_svn :: "u16 option"
  expected_measurement :: "bytes option"
  snp_allow_debug :: bool
  ca_source :: AmdCaSource

datatype CertType = CertArk | CertAsk | CertVcek | CertVlek

record ('rep, 'chain, 'cert) sev_lib =
  sev_bundle :: "bytes \<Rightarrow> string + SevSnpQuoteBundleV1"
  sev_expected_len :: "nat option"
  sev_report :: "bytes \<Rightarrow> string + 'rep"
  sev_report_data :: "'rep \<Rightarrow> bytes"
  sev_measurement :: "'rep \<Rightarrow> bytes"
  sev_debug_allowed :: "'rep \<Rightarrow> bool"
  sev_microcode :: "'rep \<Rightarrow> byte"
  sev_chain :: "(CertType \<times> bytes) list \<Rightarrow> string + 'chain"
  sev_chain_ark :: "'chain \<Rightarrow> string + bytes"
  sev_verify :: "'chain \<Rightarrow> 'rep \<Rightarrow> string + unit"
  sev_builtin_arks :: "(string + 'cert) list"
  sev_from_pem :: "bytes \<Rightarrow> string + 'cert"
  sev_from_der :: "bytes \<Rightarrow> string + 'cert"
  sev_to_der :: "'cert \<Rightarrow> string + bytes"
  sev_read_file :: "string \<Rightarrow> string + bytes"

definition snp_verifier_new :: SevSnpVerifier where
  "snp_verifier_new = \<lparr>snp_min_svn = None, expected_measurement = None, snp_allow_debug = False, ca_source = Builtin\<rparr>"

definition with_ca_source :: "SevSnpVerifier \<Rightarrow> AmdCaSource \<Rightarrow> SevSnpVerifier" where
  "with_ca_source v src = v\<lparr>ca_source := src\<rparr>"

definition with_min_svn :: "SevSnpVerifier \<Rightarrow> u16 \<Rightarrow> SevSnpVerifier" where
  "with_min_svn v svn = v\<lparr>snp_min_svn := Some svn\<rparr>"

definition with_expected_measurement :: "SevSnpVerifier \<Rightarrow> bytes \<Rightarrow> SevSnpVerifier" where
  "with_expected_measurement v m = v\<lparr>expected_measurement := Some m\<rparr>"

definition allow_debug_reports :: "bool \<Rightarrow> SevSnpVerifier \<Rightarrow> SevSnpVerifier option" where
  "allow_debug_reports release v = (if release then None else Some (v\<lparr>snp_allow_debug := True\<rparr>))"

definition check_expected_measurement ::
    "('rep, 'chain, 'cert) sev_lib \<Rightarrow> SevSnpVerifier \<Rightarrow> 'rep \<Rightarrow> AttestError + unit" where
  "check_expected_measurement S v report =
     bind_result (ok_or (PolicyViolation ''expected SNP launch measurement must be configured'') (expected_measurement v))
       (\<lambda>m. if sev_measurement S report \<noteq> m
             then Inl (PolicyViolation ''SNP launch measurement does not match the pinned value'') else Inr ())"

definition parse_amd_certificate :: "('rep, 'chain, 'cert) sev_lib \<Rightarrow> bytes \<Rightarrow> AttestError + 'cert" where
  "parse_amd_certificate S bs =
     map_err (\<lambda>e. PolicyViolation (''invalid pinned AMD ARK: '' @ e))
       (if prefix (str_bytes ''-----BEGIN CERTIFICATE-----'') bs then sev_from_pem S bs else sev_from_der S bs)"

fun collect_results :: "('e + 'a) list \<Rightarrow> 'e + 'a list" where
  "collect_results [] = Inr []"
| "collect_results (r # rs) = bind_result r (\<lambda>x. bind_result (collect_results rs) (\<lambda>xs. Inr (x # xs)))"

definition pinned_ark :: "('rep, 'chain, 'cert) sev_lib \<Rightarrow> bytes \<Rightarrow> AttestError + bytes list" where
  "pinned_ark S bs =
     bind_result (parse_amd_certificate S bs) (\<lambda>c.
     bind_result (map_err PolicyViolation (sev_to_der S c)) (\<lambda>d. Inr [d]))"

definition trusted_ark_der :: "('rep, 'chain, 'cert) sev_lib \<Rightarrow> AmdCaSource \<Rightarrow> AttestError + bytes list" where
  "trusted_ark_der S src =
     (case src of
        Builtin \<Rightarrow>
          collect_results (map (\<lambda>c. map_err (\<lambda>e. PolicyViolation (''invalid bundled AMD ARK: '' @ e))
            (bind_result c (sev_to_der S))) (sev_builtin_arks S))
      | Static bs \<Rightarrow> pinned_ark S bs
      | CaFile path \<Rightarrow>
          bind_result (map_err (\<lambda>e. PolicyViolation (''cannot read pinned AMD ARK: '' @ e)) (sev_read_file S path)) (pinned_ark S)
      | FetchFromKDS \<Rightarrow>
          Inl (PolicyViolation (''fetching an AMD root certificate at verification time is not a trust anchor; '' @
            ''configure a pinned ARK'')))"

definition certificate_entry :: "SevSnpCertificate \<Rightarrow> (CertType \<times> bytes) option" where
  "certificate_entry c =
     (case certificate_type c of
        Ark \<Rightarrow> Some (CertArk, der c)
      | Ask \<Rightarrow> Some (CertAsk, der c)
      | Vcek \<Rightarrow> Some (CertVcek, der c)
      | Vlek \<Rightarrow> Some (CertVlek, der c)
      | Crl \<Rightarrow> None
      | OtherCertificate _ \<Rightarrow> None)"

definition snp_report_data_check ::
    "hcl_lib \<Rightarrow> ('rep, 'chain, 'cert) sev_lib \<Rightarrow> SevSnpQuoteBundleV1 \<Rightarrow> 'rep \<Rightarrow> bytes \<Rightarrow> AttestError + unit" where
  "snp_report_data_check A S bundle report rd =
     (case snp_hcl_runtime_data bundle of
        Some runtime \<Rightarrow> verify_azure_hcl_binding A (sev_report_data S report) runtime rd
      | None \<Rightarrow>
          if sev_report_data S report \<noteq> rd
          then Inl (PolicyViolation (''SNP report_data mismatch: the embedded nonce does not match the '' @ ''expected value''))
          else Inr ())"

definition snp_chain_check ::
    "('rep, 'chain, 'cert) sev_lib \<Rightarrow> SevSnpVerifier \<Rightarrow> SevSnpQuoteBundleV1 \<Rightarrow> 'rep \<Rightarrow> AttestError + unit" where
  "snp_chain_check S v bundle report =
     bind_result (map_err (\<lambda>e. MalformedQuote (''invalid AMD certificate table: '' @ e))
       (sev_chain S (List.map_filter certificate_entry (certificate_table bundle)))) (\<lambda>chain.
     bind_result (map_err MalformedQuote (sev_chain_ark S chain)) (\<lambda>ark.
     bind_result (trusted_ark_der S (ca_source v)) (\<lambda>trusted.
     if ark \<notin> set trusted
     then Inl (PolicyViolation ''SEV-SNP certificate chain does not terminate at a trusted AMD ARK'')
     else map_err (\<lambda>_. SignatureInvalid) (sev_verify S chain report))))"

definition snp_result :: "hcl_lib \<Rightarrow> bytes \<Rightarrow> u16 \<Rightarrow> bool \<Rightarrow> VerificationResult" where
  "snp_result A meas svn is_debug =
     (let measurement_hex = hcl_hex A (take 48 meas) in
      VerificationResult None
        (eat_default\<lparr>tee_class := Some AmdSevSnp, hwmodel := Some ''AMD SEV-SNP'', oemid := Some ''AMD'',
           boot_progress := Some measurement_hex, security_version := Some svn,
           dbgstat := Some (if is_debug then 1 else 0)\<rparr>)
        (''SVN='' @ show_nat (unat svn)) (Some measurement_hex) None [])"

definition verify_snp_report ::
    "hcl_lib \<Rightarrow> ('rep, 'chain, 'cert) sev_lib \<Rightarrow> SevSnpVerifier \<Rightarrow> quote_verifier" where
  "verify_snp_report A S v q rd =
     (if qudd q \<noteq> rd then Inl (PolicyViolation ''SEV-SNP quote QUDD mismatch'')
      else if format q \<noteq> SevSnpBundleV1 \<or> collateral_uris q \<noteq> []
      then Inl (MalformedQuote (''SEV-SNP quotes must use the certificate-bearing sev_snp_bundle_v1 format''))
      else
        bind_result (map_err (\<lambda>e. MalformedQuote (''invalid SNP bundle: '' @ e)) (sev_bundle S (quote_raw q))) (\<lambda>bundle.
        if certificate_table bundle = [] then Inl (MalformedQuote ''SEV-SNP bundle is missing its certificate table'')
        else
          let expected_len = (case sev_expected_len S of Some n \<Rightarrow> n | None \<Rightarrow> 1184) in
          if length (snp_report bundle) \<noteq> expected_len
          then Inl (MalformedQuote (''SNP report has invalid length: '' @ show_nat (length (snp_report bundle)) @
                 '' bytes (expected '' @ show_nat expected_len @ '')''))
          else
            bind_result (map_err (\<lambda>e. MalformedQuote (''invalid SNP report: '' @ e)) (sev_report S (snp_report bundle)))
              (\<lambda>report.
            bind_result (snp_report_data_check A S bundle report rd) (\<lambda>_.
            bind_result (check_expected_measurement S v report) (\<lambda>_.
            if sev_debug_allowed S report \<and> \<not> snp_allow_debug v
            then Inl (PolicyViolation ''SNP report: debug-mode reports are not accepted in production'')
            else
              bind_result (snp_chain_check S v bundle report) (\<lambda>_.
              let svn = ucast (sev_microcode S report) :: u16 in
              bind_result (ok_or (PolicyViolation ''minimum SNP microcode SVN must be configured'') (snp_min_svn v)) (\<lambda>mn.
              if svn < mn
              then Inl (PolicyViolation (''SNP reported_tcb.microcode SVN '' @ show_nat (unat svn) @
                     '' is below minimum '' @ show_nat (unat mn)))
              else Inr (snp_result A (sev_measurement S report) svn (sev_debug_allowed S report)))))))))"

definition snp_verify ::
    "bool \<Rightarrow> (QuoteType \<Rightarrow> string) \<Rightarrow> hcl_lib \<Rightarrow> ('rep, 'chain, 'cert) sev_lib \<Rightarrow> SevSnpVerifier \<Rightarrow> quote_verifier" where
  "snp_verify amd_snp dbg A S v q rd =
     (if quote_type q \<noteq> SevSnp
      then Inl (PolicyViolation (''SevSnpVerifier: unexpected quote type '' @ quoted (dbg (quote_type q)) @ ''; expected SevSnp''))
      else if amd_snp then verify_snp_report A S v q rd
      else Inl (PolicyViolation (''SevSnpVerifier: the '' @ quoted ''amd_snp'' @ '' feature is not enabled in this build. '' @
             ''Recompile with --features amd_snp to enable AMD SEV-SNP verification.'')))"


subsection \<open>Intel TDX over DCAP\<close>

record TdxQuoteBundleV1 =
  tdx_quote :: bytes
  tdx_hcl_runtime_data :: "bytes option"

record TDReport10 =
  td_attributes_raw :: bytes
  td_report_data :: bytes
  td_mr_td :: bytes
  td_rt_mr0 :: bytes
  td_rt_mr1 :: bytes
  td_rt_mr2 :: bytes
  td_rt_mr3 :: bytes
  td_mr_seam :: bytes
  td_mr_signer_seam :: bytes
  td_mr_config_id :: bytes
  td_mr_owner :: bytes
  td_mr_owner_config :: bytes
  td_xfam :: bytes
  td_tee_tcb_svn :: bytes

datatype PckCertFlag = FlagTrue | FlagFalse | FlagUndefined

record 'status dcap_claims =
  dc_tee_type :: u32
  dc_td10 :: "TDReport10 option"
  dc_version :: u16
  dc_status :: 'status
  dc_advisory_ids :: "string list"
  dc_eval_data_number :: u32
  dc_fmspc :: bytes
  dc_pck_crl_num :: u32
  dc_root_ca_crl_num :: u32
  dc_earliest_expiration :: u64
  dc_latest_issue :: u64
  dc_dynamic_platform :: PckCertFlag
  dc_cached_keys :: PckCertFlag
  dc_smt_enabled :: PckCertFlag

record 'status QuotePolicy =
  qp_now :: u64
  qp_dynamic_platform :: bool
  qp_cached_keys :: bool
  qp_smt :: bool
  qp_statuses :: "'status list"

record TdxPolicy =
  allowed_tcb_statuses :: "string list"
  expected_mrtds :: "bytes list"
  expected_rtmrs :: "bytes option list"
  tdx_allow_debug :: bool
  allow_dynamic_platform :: bool
  allow_cached_keys :: bool
  allow_smt :: bool

definition cloud_host :: "bytes list \<Rightarrow> TdxPolicy" where
  "cloud_host mrtds =
     \<lparr>allowed_tcb_statuses = [], expected_mrtds = mrtds, expected_rtmrs = [None, None, None, None],
      tdx_allow_debug = False, allow_dynamic_platform = True, allow_cached_keys = True, allow_smt = True\<rparr>"

record TdxPckFlags =
  dynamic_platform :: string
  cached_keys :: string
  smt_enabled :: string

datatype TdxReportDataBinding = AzureHclSha256UserData | Direct

record TdxVerificationReport =
  quote_sha256 :: string
  quote_version :: u16
  tr_tcb_status :: string
  advisory_ids :: "string list"
  tcb_eval_data_number :: u32
  fmspc :: string
  root_ca_sha256 :: string
  pck_crl_number :: u32
  root_ca_crl_number :: u32
  collateral_earliest_expiration :: u64
  collateral_latest_issue :: u64
  verified_at :: u64
  mr_td :: string
  rtmr :: "string list"
  mr_seam :: string
  mr_signer_seam :: string
  mr_config_id :: string
  mr_owner :: string
  mr_owner_config :: string
  td_attributes :: string
  xfam :: string
  tee_tcb_svn :: string
  tr_report_data :: string
  tr_debug :: bool
  report_data_binding :: TdxReportDataBinding
  pck_flags :: TdxPckFlags

record ('status, 'coll) dcap_lib =
  dcap_root_der :: bytes
  dcap_bundle :: "bytes \<Rightarrow> string + TdxQuoteBundleV1"
  dcap_parse_status :: "string \<Rightarrow> 'status option"
  dcap_show_status :: "'status \<Rightarrow> string"
  dcap_verify :: "bytes \<Rightarrow> bool \<Rightarrow> bytes \<Rightarrow> 'coll \<Rightarrow> u64 \<Rightarrow> 'status QuotePolicy \<Rightarrow> string + 'status dcap_claims"
  dcap_client :: "string \<Rightarrow> string option"
  dcap_fetch :: "string \<Rightarrow> bytes \<Rightarrow> string + 'coll"
  dcap_report_json :: "TdxVerificationReport \<Rightarrow> bytes option"

definition INTEL_SGX_ROOT_CA_SHA256 :: string where
  "INTEL_SGX_ROOT_CA_SHA256 = ''44a0196b2b99f889b8e149e95b807a350e7424964399e885a7cbb8ccfab674d3''"

definition INTEL_PCS_URL :: string where
  "INTEL_PCS_URL = ''https://api.trustedservices.intel.com''"

fun flag :: "PckCertFlag \<Rightarrow> string" where
  "flag FlagTrue = ''true''"
| "flag FlagFalse = ''false''"
| "flag FlagUndefined = ''undefined''"

definition parse_status :: "('status, 'coll) dcap_lib \<Rightarrow> string \<Rightarrow> AttestError + 'status" where
  "parse_status Q name = ok_or (PolicyViolation (''unknown TDX TCB status in policy: '' @ name)) (dcap_parse_status Q name)"

definition decode_tdx_bundle ::
    "(QuoteType \<Rightarrow> string) \<Rightarrow> ('status, 'coll) dcap_lib \<Rightarrow> AttestQuote \<Rightarrow> AttestError + TdxQuoteBundleV1" where
  "decode_tdx_bundle dbg Q q =
     (if quote_type q \<noteq> Tdx
      then Inl (PolicyViolation (''TdxDcapVerifier: unexpected quote type '' @ quoted (dbg (quote_type q)) @ ''; expected Tdx''))
      else case format q of
          TdxBundleV1 \<Rightarrow> map_err (\<lambda>e. MalformedQuote (''invalid tdx_bundle_v1: '' @ e)) (dcap_bundle Q (quote_raw q))
        | Raw \<Rightarrow> Inr \<lparr>tdx_quote = quote_raw q, tdx_hcl_runtime_data = None\<rparr>
        | other \<Rightarrow> Inl (MalformedQuote (''unsupported TDX quote format '' @ quoted (show_quote_format other))))"

definition tdx_quote_policy ::
    "('status, 'coll) dcap_lib \<Rightarrow> TdxPolicy \<Rightarrow> u64 \<Rightarrow> AttestError + 'status QuotePolicy" where
  "tdx_quote_policy Q p now =
     bind_result (collect_results (map (parse_status Q) (allowed_tcb_statuses p))) (\<lambda>sts.
       Inr \<lparr>qp_now = now, qp_dynamic_platform = allow_dynamic_platform p, qp_cached_keys = allow_cached_keys p,
            qp_smt = allow_smt p, qp_statuses = sts\<rparr>)"

definition tdx_binding ::
    "hcl_lib \<Rightarrow> TdxQuoteBundleV1 \<Rightarrow> TDReport10 \<Rightarrow> bytes \<Rightarrow> AttestError + TdxReportDataBinding" where
  "tdx_binding A bundle td expected =
     (case tdx_hcl_runtime_data bundle of
        Some runtime \<Rightarrow>
          bind_result (verify_azure_hcl_binding A (td_report_data td) runtime expected) (\<lambda>_. Inr AzureHclSha256UserData)
      | None \<Rightarrow>
          if td_report_data td = expected then Inr Direct
          else Inl (PolicyViolation ''TDX REPORTDATA does not match the expected report data''))"

fun check_rtmrs :: "hcl_lib \<Rightarrow> nat \<Rightarrow> (bytes option \<times> bytes) list \<Rightarrow> AttestError + unit" where
  "check_rtmrs A i [] = Inr ()"
| "check_rtmrs A i ((pin, actual) # rest) =
     (if pin \<noteq> None \<and> pin \<noteq> Some actual
      then Inl (PolicyViolation (''TDX RTMR'' @ show_nat i @ '' '' @ hcl_hex A actual @ '' does not match the pinned value''))
      else check_rtmrs A (Suc i) rest)"

definition td_rtmrs :: "TDReport10 \<Rightarrow> bytes list" where
  "td_rtmrs td = [td_rt_mr0 td, td_rt_mr1 td, td_rt_mr2 td, td_rt_mr3 td]"

definition td_debug :: "TDReport10 \<Rightarrow> bool" where
  "td_debug td \<longleftrightarrow> hd (td_attributes_raw td) AND 1 \<noteq> 0"

definition tdx_report ::
    "hcl_lib \<Rightarrow> ('status, 'coll) dcap_lib \<Rightarrow> TdxQuoteBundleV1 \<Rightarrow> 'status dcap_claims \<Rightarrow> TDReport10 \<Rightarrow> u64 \<Rightarrow>
     TdxReportDataBinding \<Rightarrow> TdxVerificationReport" where
  "tdx_report A Q bundle c td now b =
     \<lparr>quote_sha256 = hcl_hex A (hcl_sha256 A (tdx_quote bundle)), quote_version = dc_version c,
      tr_tcb_status = dcap_show_status Q (dc_status c), advisory_ids = dc_advisory_ids c,
      tcb_eval_data_number = dc_eval_data_number c, fmspc = hcl_hex A (dc_fmspc c),
      root_ca_sha256 = hcl_hex A (hcl_sha256 A (dcap_root_der Q)), pck_crl_number = dc_pck_crl_num c,
      root_ca_crl_number = dc_root_ca_crl_num c, collateral_earliest_expiration = dc_earliest_expiration c,
      collateral_latest_issue = dc_latest_issue c, verified_at = now, mr_td = hcl_hex A (td_mr_td td),
      rtmr = map (hcl_hex A) (td_rtmrs td), mr_seam = hcl_hex A (td_mr_seam td),
      mr_signer_seam = hcl_hex A (td_mr_signer_seam td), mr_config_id = hcl_hex A (td_mr_config_id td),
      mr_owner = hcl_hex A (td_mr_owner td), mr_owner_config = hcl_hex A (td_mr_owner_config td),
      td_attributes = hcl_hex A (td_attributes_raw td), xfam = hcl_hex A (td_xfam td),
      tee_tcb_svn = hcl_hex A (td_tee_tcb_svn td), tr_report_data = hcl_hex A (td_report_data td),
      tr_debug = td_debug td, report_data_binding = b,
      pck_flags = \<lparr>dynamic_platform = flag (dc_dynamic_platform c), cached_keys = flag (dc_cached_keys c),
        smt_enabled = flag (dc_smt_enabled c)\<rparr>\<rparr>"

definition verify_tdx_bundle_with_collateral ::
    "hcl_lib \<Rightarrow> ('status, 'coll) dcap_lib \<Rightarrow> TdxQuoteBundleV1 \<Rightarrow> 'coll \<Rightarrow> bytes \<Rightarrow> u64 \<Rightarrow> TdxPolicy \<Rightarrow>
     AttestError + TdxVerificationReport" where
  "verify_tdx_bundle_with_collateral A Q bundle collateral expected now p =
     (if hcl_hex A (hcl_sha256 A (dcap_root_der Q)) \<noteq> INTEL_SGX_ROOT_CA_SHA256
      then Inl (PolicyViolation ''bundled Intel SGX Root CA does not match its pinned SHA-256'')
      else if expected_mrtds p = [] then Inl (PolicyViolation ''at least one expected TDX MRTD must be configured'')
      else
        bind_result (tdx_quote_policy Q p now) (\<lambda>qp.
        bind_result (map_err (\<lambda>e. PolicyViolation (''Intel DCAP verification failed: '' @ e))
          (dcap_verify Q (dcap_root_der Q) (tdx_allow_debug p) (tdx_quote bundle) collateral now qp)) (\<lambda>c.
        if dc_tee_type c \<noteq> 0x81 then Inl (PolicyViolation ''DCAP quote is not a TDX quote'')
        else
          bind_result (ok_or (PolicyViolation ''DCAP quote does not carry a TD report'') (dc_td10 c)) (\<lambda>td.
          if td_debug td \<and> \<not> tdx_allow_debug p then Inl (PolicyViolation ''TDX quote comes from a debug TD'')
          else
            bind_result (tdx_binding A bundle td expected) (\<lambda>b.
            if td_mr_td td \<notin> set (expected_mrtds p)
            then Inl (PolicyViolation (''TDX MRTD '' @ hcl_hex A (td_mr_td td) @ '' is not in the approved allow-list''))
            else
              bind_result (check_rtmrs A 0 (zip (expected_rtmrs p) (td_rtmrs td))) (\<lambda>_.
                Inr (tdx_report A Q bundle c td now b)))))))"

definition fetch_intel_collateral :: "('status, 'coll) dcap_lib \<Rightarrow> string \<Rightarrow> bytes \<Rightarrow> AttestError + 'coll" where
  "fetch_intel_collateral Q url raw_quote =
     (case dcap_client Q url of
        Some e \<Rightarrow> Inl (PolicyViolation (''cannot build Intel PCS client: '' @ e))
      | None \<Rightarrow>
          map_err (\<lambda>e. PolicyViolation (''Intel PCS collateral fetch failed: '' @ e)) (dcap_fetch Q url raw_quote))"

record TdxDcapVerifier =
  tdx_policy :: TdxPolicy
  pccs_url :: string

definition tdx_verifier_new :: "TdxPolicy \<Rightarrow> TdxDcapVerifier" where
  "tdx_verifier_new p = \<lparr>tdx_policy = p, pccs_url = INTEL_PCS_URL\<rparr>"

definition with_pccs_url :: "TdxDcapVerifier \<Rightarrow> string \<Rightarrow> TdxDcapVerifier" where
  "with_pccs_url v url = v\<lparr>pccs_url := url\<rparr>"

definition verify_detailed ::
    "(QuoteType \<Rightarrow> string) \<Rightarrow> hcl_lib \<Rightarrow> ('status, 'coll) dcap_lib \<Rightarrow> u64 option \<Rightarrow> TdxDcapVerifier \<Rightarrow> AttestQuote \<Rightarrow> bytes \<Rightarrow>
     AttestError + TdxVerificationReport \<times> 'coll" where
  "verify_detailed dbg A Q clock v q rd =
     (if qudd q \<noteq> rd then Inl (PolicyViolation ''TDX quote QUDD mismatch'')
      else
        bind_result (decode_tdx_bundle dbg Q q) (\<lambda>bundle.
        bind_result (fetch_intel_collateral Q (pccs_url v) (tdx_quote bundle)) (\<lambda>collateral.
        bind_result (ok_or (PolicyViolation ''system clock is before the Unix epoch'') clock) (\<lambda>now.
        bind_result (verify_tdx_bundle_with_collateral A Q bundle collateral rd now (tdx_policy v)) (\<lambda>report.
          Inr (report, collateral))))))"

definition tdx_verify ::
    "(QuoteType \<Rightarrow> string) \<Rightarrow> hcl_lib \<Rightarrow> ('status, 'coll) dcap_lib \<Rightarrow> u64 option \<Rightarrow> TdxDcapVerifier \<Rightarrow> quote_verifier" where
  "tdx_verify dbg A Q clock v q rd =
     bind_result (verify_detailed dbg A Q clock v q rd) (\<lambda>(report, _).
       Inr (VerificationResult (dcap_report_json Q report)
         (eat_default\<lparr>tee_class := Some IntelTdx, hwmodel := Some ''Intel TDX'', oemid := Some ''Intel'',
            boot_progress := Some (mr_td report), dbgstat := Some (if tr_debug report then 1 else 0),
            iat := Some (verified_at report), exp := Some (collateral_earliest_expiration report)\<rparr>)
         (tr_tcb_status report) (Some (mr_td report)) (Some (mr_signer_seam report)) []))"


subsection \<open>Fetching collateral\<close>

definition MAX_COLLATERAL_SIZE :: nat where "MAX_COLLATERAL_SIZE = 1024 * 1024"

record Url =
  u_scheme :: string
  u_host :: "string option"
  u_username :: string
  u_password :: "string option"
  u_path :: string
  u_query :: "string option"
  u_fragment :: "string option"

datatype FetchError =
    FetchNetwork string
  | UnauthorizedUri string
  | TooLarge nat
  | FetchStatus nat

record CollateralFetcher =
  allowed_domains :: "string list"

definition fetcher_new :: "bool \<Rightarrow> CollateralFetcher" where
  "fetcher_new mock =
     \<lparr>allowed_domains = [''.trustauthority.intel.com'', ''.kdsintpk.amd.com'', ''.nras.nvidia.com''] @
        (if mock then [''127.0.0.1''] else [])\<rparr>"

text \<open>
  A response is its status, its declared length and the sequence of events its body reader delivers: an
  error, the end, or a chunk. The reader's timeout is an error event.
\<close>

record get_reply =
  gr_status :: nat
  gr_content_length :: "u64 option"
  gr_chunk :: "nat \<Rightarrow> string + bytes option"

definition host_allowed :: "CollateralFetcher \<Rightarrow> string \<Rightarrow> bool" where
  "host_allowed F host = list_ex (\<lambda>d. host = dropWhile (\<lambda>c. c = CHR ''.'') d \<or> suffix d host) (allowed_domains F)"

definition check_uri :: "(string \<Rightarrow> Url option) \<Rightarrow> CollateralFetcher \<Rightarrow> string \<Rightarrow> FetchError + Url" where
  "check_uri parse F uri =
     bind_result (ok_or (UnauthorizedUri uri) (parse uri)) (\<lambda>url.
     if u_scheme url \<noteq> ''https'' \<and> u_host url \<noteq> Some ''127.0.0.1''
     then Inl (UnauthorizedUri ''only HTTPS URIs are allowed'')
     else case u_host url of
         Some host \<Rightarrow>
           if \<not> host_allowed F host then Inl (UnauthorizedUri (''domain '' @ host @ '' is not in allowlist'')) else Inr url
       | None \<Rightarrow> Inr url)"

partial_function (option) read_body :: "(nat \<Rightarrow> string + bytes option) \<Rightarrow> nat \<Rightarrow> bytes \<Rightarrow> (FetchError + bytes) option" where
  "read_body chunk i body =
     (case chunk i of
        Inl e \<Rightarrow> Some (Inl (FetchNetwork e))
      | Inr None \<Rightarrow> Some (Inr body)
      | Inr (Some c) \<Rightarrow>
          if length body + length c > MAX_COLLATERAL_SIZE then Some (Inl (TooLarge (length body + length c)))
          else read_body chunk (Suc i) (body @ c))"

definition fetch ::
    "(string \<Rightarrow> Url option) \<Rightarrow> (Url \<Rightarrow> string + get_reply) \<Rightarrow> CollateralFetcher \<Rightarrow> string \<Rightarrow> (FetchError + bytes) option" where
  "fetch parse get F uri =
     (case check_uri parse F uri of
        Inl e \<Rightarrow> Some (Inl e)
      | Inr url \<Rightarrow>
          (case get url of
             Inl e \<Rightarrow> Some (Inl (FetchNetwork e))
           | Inr resp \<Rightarrow>
               if gr_status resp \<noteq> 200 then Some (Inl (FetchStatus (gr_status resp)))
               else case gr_content_length resp of
                   Some len \<Rightarrow>
                     if len > word_of_nat MAX_COLLATERAL_SIZE then Some (Inl (TooLarge (unat len)))
                     else read_body (gr_chunk resp) 0 []
                 | None \<Rightarrow> read_body (gr_chunk resp) 0 []))"

record CollateralCache =
  cc_entries :: "(string \<times> time \<times> bytes) list"
  cc_ttl :: nat

definition cache_new :: "nat \<Rightarrow> CollateralCache" where
  "cache_new ttl = \<lparr>cc_entries = [], cc_ttl = ttl\<rparr>"

definition cache_get :: "CollateralCache \<Rightarrow> time \<Rightarrow> string \<Rightarrow> bytes option \<times> CollateralCache" where
  "cache_get c now uri =
     (case map_of (cc_entries c) uri of
        None \<Rightarrow> (None, c)
      | Some (expiry, data) \<Rightarrow>
          if expiry > now then (Some data, c) else (None, c\<lparr>cc_entries := hm_remove uri (cc_entries c)\<rparr>))"

definition cache_insert :: "CollateralCache \<Rightarrow> time \<Rightarrow> string \<Rightarrow> bytes \<Rightarrow> CollateralCache" where
  "cache_insert c now uri data = c\<lparr>cc_entries := hm_insert uri (now + cc_ttl c, data) (cc_entries c)\<rparr>"

subsection \<open>TPM, mock and fixture quotes\<close>

fun show_fetch_error :: "FetchError \<Rightarrow> string" where
  "show_fetch_error (FetchNetwork e) = ''network error: '' @ e"
| "show_fetch_error (UnauthorizedUri u) = ''SSRF protection: unauthorized URI: '' @ u"
| "show_fetch_error (TooLarge n) = ''artifact too large: '' @ show_nat n @ '' bytes''"
| "show_fetch_error (FetchStatus n) = ''unexpected status code: '' @ show_nat n"

definition tpm_result :: VerificationResult where
  "tpm_result = VerificationResult None (eat_default\<lparr>tee_class := Some TeeClass.Tpm\<rparr>) ''UpToDate'' None None []"

text \<open>The signature check only decides whether a warning is logged.\<close>

definition tpm_verify ::
    "(string \<Rightarrow> (FetchError + bytes) option) \<Rightarrow> (bytes \<Rightarrow> bytes \<Rightarrow> bytes \<Rightarrow> bool) \<Rightarrow> AttestQuote \<Rightarrow> bytes \<Rightarrow>
     (AttestError + VerificationResult) option" where
  "tpm_verify fetcher p256_verify q rd =
     (if quote_type q \<noteq> QuoteType.Tpm then Some (Inl (PolicyViolation ''TpmVerifier only accepts Tpm quotes''))
      else case collateral_uris q of
          [] \<Rightarrow> Some (Inl (MalformedQuote ''missing AIK certificate URI''))
        | uri # _ \<Rightarrow>
            (case fetcher uri of
               None \<Rightarrow> None
             | Some (Inl e) \<Rightarrow> Some (Inl (NetworkError (''failed to fetch AIK collateral: '' @ show_fetch_error e)))
             | Some (Inr aik_cert) \<Rightarrow>
                 if \<not> p256_verify aik_cert rd (quote_raw q) then Some (Inr tpm_result) else Some (Inr tpm_result)))"

definition verify_mock_quote :: "hash_lib \<Rightarrow> AttestQuote \<Rightarrow> bytes \<Rightarrow> string + unit" where
  "verify_mock_quote D q rd =
     (if quote_raw q \<noteq> sha384 D rd then Inl ''mock quote hash mismatch'' else Inr ())"

definition mock_model :: "QuoteType \<Rightarrow> string \<times> string \<times> TeeClass" where
  "mock_model t =
     (case t of
        Tdx \<Rightarrow> (''Intel TDX'', ''v1.0'', IntelTdx)
      | SevSnp \<Rightarrow> (''AMD SEV-SNP'', ''v2.0'', AmdSevSnp)
      | QuoteType.Tpm \<Rightarrow> (''TPM 2.0'', ''v1.0'', TeeClass.Tpm)
      | QuoteType.NvidiaGpu \<Rightarrow> (''NVIDIA H100'', ''v1.0'', TeeClass.NvidiaGpu)
      | _ \<Rightarrow> (''Mock TEE'', ''v0.0'', TeeClass.Mock))"

definition mock_verify :: "bool \<Rightarrow> hash_lib \<Rightarrow> u64 \<Rightarrow> VerificationResult option \<Rightarrow> quote_verifier" where
  "mock_verify release D now configured q rd =
     (if release then Inl (PolicyViolation ''MockVerifier is forbidden in release builds'')
      else
        bind_result (map_err (\<lambda>_. SignatureInvalid) (verify_mock_quote D q rd)) (\<lambda>_.
        case configured of
          Some res \<Rightarrow> Inr res
        | None \<Rightarrow>
            (case mock_model (quote_type q) of (model, version, cls) \<Rightarrow>
               Inr (VerificationResult None
                 (eat_default\<lparr>hwmodel := Some model, hwversion := Some version, dbgstat := Some 1,
                    boot_progress := Some ''mock-measurement'', security_version := Some 1, tee_class := Some cls,
                    iat := Some now\<rparr>)
                 ''UpToDate'' (Some ''mock-measurement'') (Some ''mock-signer'') []))))"

definition nvidia_gpu_verify :: "bool \<Rightarrow> quote_verifier" where
  "nvidia_gpu_verify mock_debug q rd =
     (if quote_type q \<noteq> QuoteType.NvidiaGpu then Inl (MalformedQuote ''not an nvidia_gpu quote'')
      else if qudd q \<noteq> rd then Inl (PolicyViolation ''QUDD mismatch'')
      else if prefix (str_bytes ''NVIDIA-HOPPER-ATTESTATION-REPORT-SIM'') (quote_raw q) then
        (if mock_debug then
           Inr (VerificationResult None
             (eat_default\<lparr>hwmodel := Some ''NVIDIA H100'', hwversion := Some ''hopper_v1'', oemid := Some ''NVIDIA'',
                dbgstat := Some 0, boot_progress := Some ''simulated_gpu_measurement''\<rparr>)
             ''UpToDate'' (Some ''simulated_gpu_measurement'') (Some ''nvidia_mock_signer'') [])
         else Inl SignatureInvalid)
      else Inl SignatureInvalid)"

subsection \<open>Remote attestation services\<close>

record JwkKey =
  key_id :: string
  x5c :: "string list"
  jwk_n :: string
  jwk_e :: string

type_synonym jwks_cache = "(time \<times> JwkKey list) option"

datatype decoding_key = RsaDer bytes | RsaComponents string string

record post_reply =
  pr_success :: bool
  pr_status_text :: string
  pr_body_text :: string
  pr_token :: "string + string"

record 'claims remote_lib =
  rm_post :: "string \<Rightarrow> (string \<times> string) list \<Rightarrow> string + post_reply"
  rm_jwks :: "string \<Rightarrow> AttestError + JwkKey list"
  rm_header :: "string \<Rightarrow> string + string option"
  rm_components_ok :: "string \<Rightarrow> string \<Rightarrow> string + unit"
  rm_decode :: "decoding_key \<Rightarrow> string \<Rightarrow> string \<Rightarrow> 'claims option"
  rm_b64 :: "bytes \<Rightarrow> string"
  rm_b64_decode :: "string \<Rightarrow> bytes option"
  rm_b64url :: "bytes \<Rightarrow> string"
  rm_parse_url :: "string \<Rightarrow> string + Url"

definition jwks_get ::
    "'claims remote_lib \<Rightarrow> string \<Rightarrow> time \<Rightarrow> jwks_cache \<Rightarrow> (AttestError + JwkKey list) \<times> jwks_cache" where
  "jwks_get R base_url now cache =
     (case cache of
        Some (expiry, keys) \<Rightarrow>
          if expiry > now then (Inr keys, cache)
          else (case rm_jwks R (base_url @ ''/certs'') of
                  Inl e \<Rightarrow> (Inl e, cache) | Inr ks \<Rightarrow> (Inr ks, Some (now + 86400, ks)))
      | None \<Rightarrow>
          (case rm_jwks R (base_url @ ''/certs'') of
             Inl e \<Rightarrow> (Inl e, cache) | Inr ks \<Rightarrow> (Inr ks, Some (now + 86400, ks))))"

definition x5c_key :: "'claims remote_lib \<Rightarrow> string \<Rightarrow> AttestError + decoding_key" where
  "x5c_key R cert =
     bind_result (ok_or (Malformed ''x5c base64 decode failed'') (rm_b64_decode R cert)) (\<lambda>d. Inr (RsaDer d))"

definition header_kid :: "'claims remote_lib \<Rightarrow> string \<Rightarrow> string \<Rightarrow> AttestError + string" where
  "header_kid R kind token =
     bind_result (map_err (\<lambda>e. Malformed (kind @ '' header decode failed: '' @ e)) (rm_header R token)) (\<lambda>k.
       ok_or (Malformed (''missing kid in '' @ kind @ '' header'')) k)"

definition signed_claims ::
    "'claims remote_lib \<Rightarrow> string \<Rightarrow> string \<Rightarrow> string \<Rightarrow> JwkKey list \<Rightarrow> AttestError + 'claims" where
  "signed_claims R base_url token kid keys =
     bind_result (ok_or SignatureInvalid (find (\<lambda>k. key_id k = kid) keys)) (\<lambda>jwk.
     bind_result (case x5c jwk of [] \<Rightarrow> Inl (Malformed ''JWK missing x5c certificate'') | c # _ \<Rightarrow> x5c_key R c) (\<lambda>key.
       ok_or SignatureInvalid (rm_decode R key base_url token)))"

definition fetched_claims ::
    "'claims remote_lib \<Rightarrow> (string \<Rightarrow> JwkKey list \<Rightarrow> AttestError + 'claims) \<Rightarrow> string \<Rightarrow> AttestError + string \<Rightarrow> time \<Rightarrow> jwks_cache \<Rightarrow>
     (AttestError + 'claims) \<times> jwks_cache" where
  "fetched_claims R pick base_url kid now cache =
     (case kid of
        Inl e \<Rightarrow> (Inl e, cache)
      | Inr k \<Rightarrow>
          (case jwks_get R base_url now cache of
             (Inl e, cache') \<Rightarrow> (Inl e, cache')
           | (Inr keys, cache') \<Rightarrow> (pick k keys, cache')))"

text \<open>NVIDIA's service: the signed nonce and the RIM result are claims of the returned token.\<close>

record nras_claims =
  nc_nonce :: "string option"
  nc_rim_result :: "bool option"

definition validate_signed_claims :: "nras_claims remote_lib \<Rightarrow> nras_claims \<Rightarrow> bytes \<Rightarrow> AttestError + unit" where
  "validate_signed_claims R c rd =
     bind_result (ok_or (PolicyViolation ''NVIDIA NRAS response is missing its signed nonce'') (nc_nonce c)) (\<lambda>nonce.
     if nonce \<noteq> rm_b64 R rd then Inl (PolicyViolation ''NVIDIA NRAS nonce mismatch'')
     else
       bind_result (ok_or (PolicyViolation ''NVIDIA NRAS response is missing its signed RIM result'') (nc_rim_result c)) (\<lambda>ok.
       if \<not> ok then Inl (PolicyViolation ''NVIDIA GPU RIM check failed'') else Inr ()))"

definition verify_jws_signature ::
    "nras_claims remote_lib \<Rightarrow> string \<Rightarrow> string \<Rightarrow> bytes \<Rightarrow> time \<Rightarrow> jwks_cache \<Rightarrow> (AttestError + unit) \<times> jwks_cache" where
  "verify_jws_signature R base_url jws rd now cache =
     (case fetched_claims R (signed_claims R base_url jws) base_url (header_kid R ''JWS'' jws) now cache of
        (r, cache') \<Rightarrow> (bind_result r (\<lambda>c. validate_signed_claims R c rd), cache'))"

definition validate_endpoint :: "'claims remote_lib \<Rightarrow> string \<Rightarrow> AttestError + unit" where
  "validate_endpoint R base_url =
     bind_result (map_err (\<lambda>e. Malformed (''invalid NRAS endpoint: '' @ e)) (rm_parse_url R base_url)) (\<lambda>u.
     if u_scheme u \<noteq> ''https'' \<or> u_host u \<noteq> Some ''nras.nvidia.com'' \<or> u_username u \<noteq> [] \<or> u_password u \<noteq> None \<or>
        u_query u \<noteq> None \<or> u_fragment u \<noteq> None \<or> \<not> (u_path u = ''/v1'' \<or> u_path u = ''/v1/'')
     then Inl (PolicyViolation ''NVIDIA NRAS endpoint must be https://nras.nvidia.com/v1'') else Inr ())"

definition posted_token ::
    "'claims remote_lib \<Rightarrow> string \<Rightarrow> string \<Rightarrow> (string \<times> string) list \<Rightarrow> AttestError + string" where
  "posted_token R service url body =
     bind_result (map_err NetworkError (rm_post R url body)) (\<lambda>resp.
     if \<not> pr_success resp
     then Inl (ServiceError (service @ '' returned '' @ pr_status_text resp @ '': '' @ pr_body_text resp))
     else map_err ServiceError (pr_token resp))"

definition nras_verify ::
    "nras_claims remote_lib \<Rightarrow> string \<Rightarrow> time \<Rightarrow> jwks_cache \<Rightarrow> AttestQuote \<Rightarrow> bytes \<Rightarrow>
     (AttestError + VerificationResult) \<times> jwks_cache" where
  "nras_verify R base_url now cache q rd =
     (case validate_endpoint R base_url of
        Inl e \<Rightarrow> (Inl e, cache)
      | Inr _ \<Rightarrow>
          if quote_type q \<noteq> QuoteType.NvidiaGpu
          then (Inl (PolicyViolation ''NvidiaRemoteVerifier only supports NvidiaGpu quotes''), cache)
          else if qudd q \<noteq> rd then (Inl (PolicyViolation ''NVIDIA GPU quote QUDD mismatch''), cache)
          else
            (case posted_token R ''NVIDIA NRAS'' (base_url @ ''/attest'')
                    [(''quote'', rm_b64 R (quote_raw q)), (''nonce'', rm_b64 R rd)] of
               Inl e \<Rightarrow> (Inl e, cache)
             | Inr jws \<Rightarrow>
                 (case verify_jws_signature R base_url jws rd now cache of
                    (Inl e, cache') \<Rightarrow> (Inl e, cache')
                  | (Inr _, cache') \<Rightarrow>
                      (Inr (VerificationResult None
                         (eat_default\<lparr>hwmodel := Some ''NVIDIA Hopper GPU'', hwversion := Some ''nras-verified'',
                            oemid := Some ''NVIDIA'', dbgstat := Some 0\<rparr>) ''UpToDate'' None None []), cache'))))"

text \<open>Intel Trust Authority: the report data returns as the claim \<open>runtime_data\<close>.\<close>

definition ita_verify_jwt ::
    "string option remote_lib \<Rightarrow> string \<Rightarrow> string \<Rightarrow> bytes \<Rightarrow> time \<Rightarrow> jwks_cache \<Rightarrow> (AttestError + unit) \<times> jwks_cache" where
  "ita_verify_jwt R base_url token rd now cache =
     (case fetched_claims R (signed_claims R base_url token) base_url (header_kid R ''JWT'' token) now cache of
        (r, cache') \<Rightarrow>
          (bind_result r (\<lambda>c.
             case c of
               Some claim \<Rightarrow>
                 if claim \<noteq> rm_b64 R rd then Inl (PolicyViolation ''ITA JWT runtime_data mismatch'') else Inr ()
             | None \<Rightarrow> Inl (PolicyViolation ''ITA JWT missing runtime_data claim'')), cache'))"

definition ita_verify ::
    "(QuoteType \<Rightarrow> string) \<Rightarrow> string option remote_lib \<Rightarrow> string \<Rightarrow> time \<Rightarrow> jwks_cache \<Rightarrow> AttestQuote \<Rightarrow> bytes \<Rightarrow>
     (AttestError + VerificationResult) \<times> jwks_cache" where
  "ita_verify dbg R base_url now cache q rd =
     (case posted_token R ''ITA'' (base_url @ ''/attest'')
             [(''quote'', rm_b64 R (quote_raw q)), (''verifierArgs'', ''{}''), (''runtimeData'', rm_b64 R rd)] of
        Inl e \<Rightarrow> (Inl e, cache)
      | Inr token \<Rightarrow>
          (case ita_verify_jwt R base_url token rd now cache of
             (Inl e, cache') \<Rightarrow> (Inl e, cache')
           | (Inr _, cache') \<Rightarrow>
               (Inr (VerificationResult None
                  (eat_default\<lparr>hwmodel := Some (dbg (quote_type q)), hwversion := Some ''ita-verified'',
                     oemid := Some ''Intel'', dbgstat := Some 0\<rparr>) ''UpToDate'' None None []), cache')))"

text \<open>Azure MAA: pinned policy hash, signed nonce and the debug claim of the quote's own technology.\<close>

record MaaClaims =
  sgx_is_debuggable :: "bool option"
  tdx_is_debuggable :: "bool option"
  policy_hash :: "string option"
  maa_nonce :: "string option"

record MaaVerifier =
  maa_endpoint :: string
  expected_policy_hash :: "string option"

definition trim_end_slash :: "string \<Rightarrow> string" where
  "trim_end_slash s = rev (dropWhile (\<lambda>c. c = CHR ''/'') (rev s))"

definition maa_try_new :: "'claims remote_lib \<Rightarrow> string \<Rightarrow> AttestError + MaaVerifier" where
  "maa_try_new R url =
     (let base_url = trim_end_slash url in
      bind_result (map_err (\<lambda>e. Malformed (''invalid MAA endpoint: '' @ e)) (rm_parse_url R base_url)) (\<lambda>u.
      let host = (case u_host u of None \<Rightarrow> [] | Some h \<Rightarrow> h) in
      if u_scheme u \<noteq> ''https'' \<or> \<not> (host = ''attest.azure.net'' \<or> suffix ''.attest.azure.net'' host) \<or> u_username u \<noteq> [] \<or>
         u_password u \<noteq> None \<or> u_query u \<noteq> None \<or> u_fragment u \<noteq> None
      then Inl (PolicyViolation ''MAA endpoint must be an HTTPS Azure Attestation endpoint'')
      else Inr \<lparr>maa_endpoint = base_url, expected_policy_hash = None\<rparr>))"

definition with_expected_policy_hash :: "MaaVerifier \<Rightarrow> string \<Rightarrow> MaaVerifier" where
  "with_expected_policy_hash v h = v\<lparr>expected_policy_hash := Some h\<rparr>"

definition maa_debuggable :: "QuoteType \<Rightarrow> MaaClaims \<Rightarrow> bool option" where
  "maa_debuggable t c = (case t of Tdx \<Rightarrow> tdx_is_debuggable c | Sgx \<Rightarrow> sgx_is_debuggable c | _ \<Rightarrow> None)"

definition validate_claims ::
    "(string + MaaClaims) remote_lib \<Rightarrow> MaaVerifier \<Rightarrow> MaaClaims \<Rightarrow> bytes \<Rightarrow> QuoteType \<Rightarrow> AttestError + unit" where
  "validate_claims R v c rd t =
     bind_result (ok_or (PolicyViolation ''expected Azure MAA policy hash is not configured'') (expected_policy_hash v)) (\<lambda>h.
     if policy_hash c \<noteq> Some h then Inl (PolicyViolation ''Azure MAA policy hash does not match the pinned policy'')
     else
       bind_result (ok_or (PolicyViolation ''MAA JWT is missing its signed nonce'') (maa_nonce c)) (\<lambda>nonce.
       if nonce \<noteq> rm_b64url R rd then Inl (PolicyViolation ''MAA JWT nonce mismatch'')
       else if maa_debuggable t c = Some True then Inl (PolicyViolation ''MAA reports a debug-enabled TEE'')
       else Inr ()))"

definition maa_signed_claims ::
    "(string + MaaClaims) remote_lib \<Rightarrow> string \<Rightarrow> string \<Rightarrow> string \<Rightarrow> JwkKey list \<Rightarrow> AttestError + (string + MaaClaims)" where
  "maa_signed_claims R base_url token kid keys =
     bind_result (ok_or SignatureInvalid (find (\<lambda>k. key_id k = kid) keys)) (\<lambda>jwk.
     bind_result
       (case x5c jwk of
          c # _ \<Rightarrow> x5c_key R c
        | [] \<Rightarrow>
            if jwk_n jwk \<noteq> [] then
              bind_result (map_err (\<lambda>e. Malformed (''JWK RSA parse: '' @ e)) (rm_components_ok R (jwk_n jwk) (jwk_e jwk)))
                (\<lambda>_. Inr (RsaComponents (jwk_n jwk) (jwk_e jwk)))
            else Inl (Malformed ''no key material in JWK'')) (\<lambda>key.
       ok_or SignatureInvalid (rm_decode R key base_url token)))"

definition maa_kid :: "'claims remote_lib \<Rightarrow> string \<Rightarrow> AttestError + string" where
  "maa_kid R token =
     bind_result (header_kid R ''JWT'' token) (\<lambda>kid. if kid = [] then Inl (Malformed ''empty kid in JWT header'') else Inr kid)"

definition maa_verify_jwt ::
    "(string + MaaClaims) remote_lib \<Rightarrow> MaaVerifier \<Rightarrow> string \<Rightarrow> bytes \<Rightarrow> QuoteType \<Rightarrow> time \<Rightarrow> jwks_cache \<Rightarrow>
     (AttestError + bool option) \<times> jwks_cache" where
  "maa_verify_jwt R v token rd t now cache =
     (case fetched_claims R (maa_signed_claims R (maa_endpoint v) token) (maa_endpoint v) (maa_kid R token) now cache of
        (r, cache') \<Rightarrow>
          (bind_result r (\<lambda>decoded.
           bind_result (map_err (\<lambda>e. Malformed (''invalid MAA claims: '' @ e)) decoded) (\<lambda>c.
           bind_result (validate_claims R v c rd t) (\<lambda>_. Inr (maa_debuggable t c)))), cache'))"

definition maa_path :: "QuoteType \<Rightarrow> (string \<times> string) option" where
  "maa_path t = (case t of Sgx \<Rightarrow> Some (''SgxEnclave'', ''2022-08-01'') | Tdx \<Rightarrow> Some (''TdxVm'', ''2025-06-01'') | _ \<Rightarrow> None)"

definition maa_verify ::
    "(QuoteType \<Rightarrow> string) \<Rightarrow> (string + MaaClaims) remote_lib \<Rightarrow> MaaVerifier \<Rightarrow> time \<Rightarrow> jwks_cache \<Rightarrow> AttestQuote \<Rightarrow> bytes \<Rightarrow>
     (AttestError + VerificationResult) \<times> jwks_cache" where
  "maa_verify dbg R v now cache q rd =
     (case maa_path (quote_type q) of
        None \<Rightarrow> (Inl (PolicyViolation (''MAA verifier does not support quote type: '' @ dbg (quote_type q))), cache)
      | Some (path, api_version) \<Rightarrow>
          if qudd q \<noteq> rd then (Inl (PolicyViolation ''OpenHTTPA QUDD does not match expected report data''), cache)
          else
            (case posted_token R ''MAA'' (maa_endpoint v @ ''/attest/'' @ path @ ''?api-version='' @ api_version)
                    [(''quote'', rm_b64url R (quote_raw q)), (''nonce'', rm_b64url R rd),
                     (''runtimeData.data'', rm_b64url R rd), (''runtimeData.dataType'', ''Binary'')] of
               Inl e \<Rightarrow> (Inl e, cache)
             | Inr token \<Rightarrow>
                 (case maa_verify_jwt R v token rd (quote_type q) now cache of
                    (Inl e, cache') \<Rightarrow> (Inl e, cache')
                  | (Inr debug_build, cache') \<Rightarrow>
                      (Inr (VerificationResult None
                         (eat_default\<lparr>hwmodel := Some (dbg (quote_type q)), hwversion := Some ''maa-verified'',
                            oemid := Some ''Microsoft'',
                            dbgstat := map_option (\<lambda>b. if b then 1 else 0) debug_build\<rparr>) ''UpToDate'' None None []), cache'))))"

subsection \<open>Signed EAT tokens\<close>

datatype EatSignAlgorithm = EatMlDsa65

datatype cose_algorithm = HssLms | PrivateUse int | OtherAlgorithm string

fun to_cose_algorithm :: "EatSignAlgorithm \<Rightarrow> cose_algorithm" where
  "to_cose_algorithm EatMlDsa65 = HssLms"

fun from_cose_algorithm :: "cose_algorithm \<Rightarrow> AttestError + EatSignAlgorithm" where
  "from_cose_algorithm HssLms = Inr EatMlDsa65"
| "from_cose_algorithm (PrivateUse n) =
     (if n = - 46 then Inr EatMlDsa65 else Inl (Malformed ''unsupported COSE algorithm''))"
| "from_cose_algorithm (OtherAlgorithm _) = Inl (Malformed ''unsupported COSE algorithm'')"

record CoseSign1 =
  cose_alg :: "cose_algorithm option"
  cose_payload :: "bytes option"
  cose_signature :: bytes

record ('sk, 'pk, 'sig) eat_lib =
  el_cbor :: "EatClaims \<Rightarrow> string + bytes"
  el_of_cbor :: "bytes \<Rightarrow> string + EatClaims"
  el_tbs :: "cose_algorithm option \<Rightarrow> bytes option \<Rightarrow> bytes"
  el_to_vec :: "CoseSign1 \<Rightarrow> string + bytes"
  el_from_slice :: "bytes \<Rightarrow> string + CoseSign1"
  el_sig_new :: "string + unit"
  el_secret_key :: "bytes \<Rightarrow> 'sk option"
  el_public_key :: "bytes \<Rightarrow> 'pk option"
  el_signature :: "bytes \<Rightarrow> 'sig option"
  el_sign :: "bytes \<Rightarrow> 'sk \<Rightarrow> bytes option"
  el_verify :: "bytes \<Rightarrow> 'sig \<Rightarrow> 'pk \<Rightarrow> bool"

definition serialize_claims :: "('sk, 'pk, 'sig) eat_lib \<Rightarrow> EatClaims \<Rightarrow> AttestError + bytes" where
  "serialize_claims L c = map_err (\<lambda>e. Malformed (''failed to serialize claims to CBOR: '' @ e)) (el_cbor L c)"

definition deserialize_claims :: "('sk, 'pk, 'sig) eat_lib \<Rightarrow> bytes \<Rightarrow> AttestError + EatClaims" where
  "deserialize_claims L bs = map_err (\<lambda>e. Malformed (''failed to deserialize claims from CBOR: '' @ e)) (el_of_cbor L bs)"

definition create_signed_eat ::
    "('sk, 'pk, 'sig) eat_lib \<Rightarrow> EatClaims \<Rightarrow> bytes \<Rightarrow> EatSignAlgorithm \<Rightarrow> AttestError + bytes" where
  "create_signed_eat L c signing_key_der alg =
     bind_result (serialize_claims L c) (\<lambda>payload.
     let a = Some (to_cose_algorithm alg); tbs = el_tbs L a (Some payload) in
     bind_result (map_err Malformed (el_sig_new L)) (\<lambda>_.
     bind_result (ok_or (Malformed ''invalid ML-DSA-65 secret key'') (el_secret_key L signing_key_der)) (\<lambda>sk.
     bind_result (ok_or SignatureInvalid (el_sign L tbs sk)) (\<lambda>sig.
       map_err (\<lambda>e. Malformed (''failed to serialize COSE Sign1: '' @ e))
         (el_to_vec L \<lparr>cose_alg = a, cose_payload = Some payload, cose_signature = sig\<rparr>)))))"

definition verify_signed_eat :: "('sk, 'pk, 'sig) eat_lib \<Rightarrow> bytes \<Rightarrow> bytes \<Rightarrow> AttestError + EatClaims" where
  "verify_signed_eat L cose_bytes verification_key_der =
     bind_result (map_err (\<lambda>e. Malformed (''invalid COSE Sign1 envelope: '' @ e)) (el_from_slice L cose_bytes)) (\<lambda>cose.
     bind_result (ok_or (Malformed ''missing algorithm in protected header'') (cose_alg cose)) (\<lambda>a.
     bind_result (from_cose_algorithm a) (\<lambda>_.
     bind_result (map_err Malformed (el_sig_new L)) (\<lambda>_.
     bind_result (ok_or SignatureInvalid (el_public_key L verification_key_der)) (\<lambda>pk.
     bind_result (ok_or SignatureInvalid (el_signature L (cose_signature cose))) (\<lambda>s.
     if \<not> el_verify L (el_tbs L (cose_alg cose) (cose_payload cose)) s pk then Inl SignatureInvalid
     else
       bind_result (ok_or (Malformed ''missing payload in COSE Sign1 envelope'') (cose_payload cose)) (\<lambda>payload.
         deserialize_claims L payload)))))))"


subsection \<open>What the hardware verifiers guarantee\<close>

definition hcl_bound :: "hcl_lib \<Rightarrow> bytes \<Rightarrow> bytes \<Rightarrow> bytes \<Rightarrow> bool" where
  "hcl_bound A embedded runtime_data expected \<longleftrightarrow>
     take 32 embedded = hcl_sha256 A runtime_data \<and>
     (\<exists>u. hcl_user_data A runtime_data = Inr (Some u) \<and> map ascii_lower u = map ascii_lower (hcl_hex A expected))"

lemma azure_binding_iff [simp]: "verify_azure_hcl_binding A embedded rt expected = Inr () \<longleftrightarrow> hcl_bound A embedded rt expected"
  by (auto simp: verify_azure_hcl_binding_def hcl_bound_def bind_result_Inr_iff eq_ignore_ascii_case_def split: if_splits)

definition report_bound :: "hcl_lib \<Rightarrow> bytes \<Rightarrow> bytes option \<Rightarrow> bytes \<Rightarrow> bool" where
  "report_bound A embedded runtime rd \<longleftrightarrow>
     (case runtime of None \<Rightarrow> embedded = rd | Some rt \<Rightarrow> hcl_bound A embedded rt rd)"

lemma snp_report_data_iff [simp]:
  "snp_report_data_check A S b rep rd = Inr () \<longleftrightarrow> report_bound A (sev_report_data S rep) (snp_hcl_runtime_data b) rd"
  by (auto simp: snp_report_data_check_def report_bound_def split: option.splits)

lemma tdx_binding_Inr:
  "tdx_binding A b td rd = Inr x \<Longrightarrow> report_bound A (td_report_data td) (tdx_hcl_runtime_data b) rd"
  by (auto simp: tdx_binding_def report_bound_def bind_result_Inr_iff split: option.splits if_splits)

lemma check_measurement_iff [simp]:
  "check_expected_measurement S v rep = Inr () \<longleftrightarrow> expected_measurement v = Some (sev_measurement S rep)"
  by (auto simp: check_expected_measurement_def bind_result_Inr_iff split: if_splits)

lemma snp_chain_iff [simp]:
  "snp_chain_check S v b rep = Inr () \<longleftrightarrow>
     (\<exists>chain ark trusted. sev_chain S (List.map_filter certificate_entry (certificate_table b)) = Inr chain \<and>
        sev_chain_ark S chain = Inr ark \<and> trusted_ark_der S (ca_source v) = Inr trusted \<and> ark \<in> set trusted \<and>
        sev_verify S chain rep = Inr ())"
  by (auto simp: snp_chain_check_def bind_result_Inr_iff split: if_splits)

text \<open>
  The evidence an accepted SEV-SNP quote carries: a signed report under a certificate chain that ends at
  a configured AMD root, embedding the expected report data, with the pinned launch measurement, a
  sufficient security version, and no debug mode unless allowed.
\<close>

definition snp_evidence :: "hcl_lib \<Rightarrow> ('rep, 'chain, 'cert) sev_lib \<Rightarrow> SevSnpVerifier \<Rightarrow> AttestQuote \<Rightarrow> bytes \<Rightarrow> 'rep \<Rightarrow> bool" where
  "snp_evidence A S v q rd rep \<longleftrightarrow>
     (\<exists>b chain ark trusted mn.
        sev_bundle S (quote_raw q) = Inr b \<and> sev_report S (snp_report b) = Inr rep \<and>
        report_bound A (sev_report_data S rep) (snp_hcl_runtime_data b) rd \<and>
        expected_measurement v = Some (sev_measurement S rep) \<and> (sev_debug_allowed S rep \<longrightarrow> snp_allow_debug v) \<and>
        sev_chain S (List.map_filter certificate_entry (certificate_table b)) = Inr chain \<and>
        sev_chain_ark S chain = Inr ark \<and> trusted_ark_der S (ca_source v) = Inr trusted \<and> ark \<in> set trusted \<and>
        sev_verify S chain rep = Inr () \<and> snp_min_svn v = Some mn \<and> mn \<le> ucast (sev_microcode S rep))"

lemma verify_snp_report_Inr:
  assumes "verify_snp_report A S v q rd = Inr r"
  shows "qudd q = rd \<and> (\<exists>rep. snp_evidence A S v q rd rep \<and>
           r = snp_result A (sev_measurement S rep) (ucast (sev_microcode S rep)) (sev_debug_allowed S rep))"
proof -
  have q: "qudd q = rd" using assms by (auto simp: verify_snp_report_def split: if_splits)
  obtain b where b: "sev_bundle S (quote_raw q) = Inr b"
    using assms by (auto simp: verify_snp_report_def bind_result_Inr_iff split: if_splits)
  obtain rep where rep: "sev_report S (snp_report b) = Inr rep"
    using assms b by (auto simp: verify_snp_report_def bind_result_Inr_iff Let_def split: if_splits)
  have "snp_report_data_check A S b rep rd = Inr () \<and> check_expected_measurement S v rep = Inr () \<and>
      (sev_debug_allowed S rep \<longrightarrow> snp_allow_debug v) \<and> snp_chain_check S v b rep = Inr () \<and>
      (\<exists>mn. snp_min_svn v = Some mn \<and> mn \<le> ucast (sev_microcode S rep)) \<and>
      r = snp_result A (sev_measurement S rep) (ucast (sev_microcode S rep)) (sev_debug_allowed S rep)"
    using assms b rep
    by (auto simp: verify_snp_report_def bind_result_Inr_iff Let_def not_less
        simp del: snp_report_data_iff check_measurement_iff snp_chain_iff split: if_splits)
  with q b rep show ?thesis unfolding snp_evidence_def by auto
qed

lemma check_rtmrs_iff: "check_rtmrs A i ps = Inr () \<longleftrightarrow> (\<forall>(pin, actual)\<in>set ps. pin = None \<or> pin = Some actual)"
  by (induction A i ps rule: check_rtmrs.induct) auto

definition tdx_evidence ::
    "hcl_lib \<Rightarrow> ('status, 'coll) dcap_lib \<Rightarrow> TdxPolicy \<Rightarrow> TdxQuoteBundleV1 \<Rightarrow> 'coll \<Rightarrow> u64 \<Rightarrow> bytes \<Rightarrow>
     'status dcap_claims \<Rightarrow> TDReport10 \<Rightarrow> bool" where
  "tdx_evidence A Q p b coll now rd c td \<longleftrightarrow>
     hcl_hex A (hcl_sha256 A (dcap_root_der Q)) = INTEL_SGX_ROOT_CA_SHA256 \<and>
     (\<exists>qp. tdx_quote_policy Q p now = Inr qp \<and>
        dcap_verify Q (dcap_root_der Q) (tdx_allow_debug p) (tdx_quote b) coll now qp = Inr c) \<and>
     dc_tee_type c = 0x81 \<and> dc_td10 c = Some td \<and> (td_debug td \<longrightarrow> tdx_allow_debug p) \<and>
     report_bound A (td_report_data td) (tdx_hcl_runtime_data b) rd \<and>
     td_mr_td td \<in> set (expected_mrtds p) \<and>
     (\<forall>(pin, actual)\<in>set (zip (expected_rtmrs p) (td_rtmrs td)). pin = None \<or> pin = Some actual)"

lemma verify_tdx_bundle_Inr:
  assumes "verify_tdx_bundle_with_collateral A Q b coll rd now p = Inr r"
  shows "\<exists>c td x. tdx_evidence A Q p b coll now rd c td \<and> r = tdx_report A Q b c td now x"
proof -
  obtain qp where qp: "tdx_quote_policy Q p now = Inr qp"
    using assms by (auto simp: verify_tdx_bundle_with_collateral_def bind_result_Inr_iff split: if_splits)
  obtain c where c: "dcap_verify Q (dcap_root_der Q) (tdx_allow_debug p) (tdx_quote b) coll now qp = Inr c"
    using assms qp by (auto simp: verify_tdx_bundle_with_collateral_def bind_result_Inr_iff split: if_splits)
  obtain td x where td: "dc_td10 c = Some td" "tdx_binding A b td rd = Inr x"
    using assms qp c by (auto simp: verify_tdx_bundle_with_collateral_def bind_result_Inr_iff split: if_splits)
  have "hcl_hex A (hcl_sha256 A (dcap_root_der Q)) = INTEL_SGX_ROOT_CA_SHA256" "dc_tee_type c = 0x81"
    "td_debug td \<longrightarrow> tdx_allow_debug p" "td_mr_td td \<in> set (expected_mrtds p)"
    "check_rtmrs A 0 (zip (expected_rtmrs p) (td_rtmrs td)) = Inr ()" "r = tdx_report A Q b c td now x"
    using assms qp c td by (auto simp: verify_tdx_bundle_with_collateral_def bind_result_Inr_iff split: if_splits)
  with qp c td(1) tdx_binding_Inr [OF td(2)] show ?thesis
    unfolding tdx_evidence_def check_rtmrs_iff by blast
qed

lemma tdx_verify_Inr:
  assumes "tdx_verify dbg A Q clock v q rd = Inr r"
  shows "qudd q = rd \<and> quote_type q = Tdx \<and>
         (\<exists>b coll now c td. decode_tdx_bundle dbg Q q = Inr b \<and> dcap_fetch Q (pccs_url v) (tdx_quote b) = Inr coll \<and>
            clock = Some now \<and> tdx_evidence A Q (tdx_policy v) b coll now rd c td \<and>
            measurement r = Some (hcl_hex A (td_mr_td td)) \<and> tee_class (claims r) = Some IntelTdx \<and>
            iat (claims r) = Some now)"
proof -
  obtain rep coll where d: "verify_detailed dbg A Q clock v q rd = Inr (rep, coll)"
    and r: "measurement r = Some (mr_td rep)" "tee_class (claims r) = Some IntelTdx" "iat (claims r) = Some (verified_at rep)"
    using assms by (auto simp: tdx_verify_def bind_result_Inr_iff)
  then obtain b now where b: "decode_tdx_bundle dbg Q q = Inr b" "dcap_fetch Q (pccs_url v) (tdx_quote b) = Inr coll"
    "clock = Some now" "verify_tdx_bundle_with_collateral A Q b coll rd now (tdx_policy v) = Inr rep" "qudd q = rd"
    by (auto simp: verify_detailed_def bind_result_Inr_iff fetch_intel_collateral_def split: if_splits option.splits)
  moreover from b(1) have "quote_type q = Tdx" by (auto simp: decode_tdx_bundle_def split: if_splits)
  moreover obtain c td x where "tdx_evidence A Q (tdx_policy v) b coll now rd c td" "rep = tdx_report A Q b c td now x"
    using verify_tdx_bundle_Inr [OF b(4)] by blast
  ultimately show ?thesis using r by (fastforce simp: tdx_report_def)
qed


text \<open>
  C11. An Intel TDX quote is accepted only if it is a TDX quote whose own copy of the report data is the
  expected one and DCAP verified it under the pinned Intel root, with collateral fetched for this quote
  and the clock's time; the TD report inside embeds the expected report data (directly or through the
  paravisor's signed runtime data), is not from a debug TD unless allowed, has an allow-listed MRTD and
  matches every pinned RTMR. The result reports that MRTD.
\<close>
theorem tdx_accepted_is_bound:
  assumes "tdx_verify dbg A Q clock v q rd = Inr r"
  shows "qudd q = rd \<and> quote_type q = Tdx \<and>
         (\<exists>b coll now c td. decode_tdx_bundle dbg Q q = Inr b \<and> dcap_fetch Q (pccs_url v) (tdx_quote b) = Inr coll \<and>
            clock = Some now \<and> tdx_evidence A Q (tdx_policy v) b coll now rd c td \<and>
            measurement r = Some (hcl_hex A (td_mr_td td)) \<and> tee_class (claims r) = Some IntelTdx \<and>
            iat (claims r) = Some now)"
  using assms by (rule tdx_verify_Inr)

lemma snp_verify_Inr:
  assumes "snp_verify amd_snp dbg A S v q rd = Inr r"
  shows "qudd q = rd \<and> quote_type q = SevSnp \<and> amd_snp \<and> (\<exists>rep. snp_evidence A S v q rd rep \<and>
           r = snp_result A (sev_measurement S rep) (ucast (sev_microcode S rep)) (sev_debug_allowed S rep))"
  using assms verify_snp_report_Inr [of A S v q rd r] by (auto simp: snp_verify_def split: if_splits)

text \<open>
  C12. An AMD SEV-SNP quote is accepted only if its own copy of the report data is the expected one and its
  bundle holds a report signed under a certificate chain ending at a configured AMD root; the report
  embeds the expected report data, has the pinned launch measurement and at least the configured
  security version, and is not from a debug guest unless allowed. A verifier without a pinned
  measurement or minimum version accepts nothing, and neither does a build without the feature.
\<close>
theorem snp_accepted_is_bound:
  assumes "snp_verify amd_snp dbg A S v q rd = Inr r"
  shows "qudd q = rd \<and> quote_type q = SevSnp \<and> amd_snp \<and> (\<exists>rep. snp_evidence A S v q rd rep \<and>
           r = snp_result A (sev_measurement S rep) (ucast (sev_microcode S rep)) (sev_debug_allowed S rep))"
  using assms by (rule snp_verify_Inr)

interpretation snp: qudd_verifier "snp_verify amd_snp dbg A S v" "\<lambda>q rd. qudd q = rd \<and> (\<exists>rep. snp_evidence A S v q rd rep)"
  for amd_snp dbg A S v
  by unfold_locales (auto dest: snp_verify_Inr)

interpretation tdx: qudd_verifier "tdx_verify dbg A Q clock v"
  "\<lambda>q rd. qudd q = rd \<and> (\<exists>b coll now c td. tdx_evidence A Q (tdx_policy v) b coll now rd c td)"
  for dbg A Q clock v
  by unfold_locales (blast dest: tdx_verify_Inr)+

interpretation gpu: qudd_verifier "nvidia_gpu_verify mock_debug" "\<lambda>q rd. qudd q = rd" for mock_debug
  by unfold_locales (auto simp: nvidia_gpu_verify_def split: if_splits)

interpretation mock: binding_verifier "mock_verify release D now configured" "\<lambda>q rd. \<not> release \<and> quote_raw q = sha384 D rd"
  for release D now configured
  by unfold_locales (auto simp: mock_verify_def verify_mock_quote_def bind_result_Inr_iff split: if_splits)

subsection \<open>What the remote verifiers guarantee\<close>

text \<open>
  Every cached key set was fetched from the verifier's own service at most a day before it is used.
\<close>

definition jwks_fresh :: "'claims remote_lib \<Rightarrow> string \<Rightarrow> time \<Rightarrow> jwks_cache \<Rightarrow> bool" where
  "jwks_fresh R base_url now cache \<longleftrightarrow>
     (\<forall>expiry ks. cache = Some (expiry, ks) \<longrightarrow> rm_jwks R (base_url @ ''/certs'') = Inr ks \<and> expiry \<le> now + 86400)"

lemma jwks_get_fresh:
  assumes "jwks_fresh R base_url now cache" "jwks_get R base_url now cache = (r, cache')"
  shows "jwks_fresh R base_url now cache' \<and> (\<forall>ks. r = Inr ks \<longrightarrow> rm_jwks R (base_url @ ''/certs'') = Inr ks)"
  using assms by (auto simp: jwks_get_def jwks_fresh_def split: option.splits if_splits sum.splits)

lemma fetched_claims_Inr:
  assumes "jwks_fresh R base_url now cache" "fetched_claims R pick base_url kid now cache = (Inr c, cache')"
  obtains k keys where "kid = Inr k" "rm_jwks R (base_url @ ''/certs'') = Inr keys" "pick k keys = Inr c"
proof -
  obtain k where k: "kid = Inr k" using assms(2) by (auto simp: fetched_claims_def split: sum.splits)
  obtain r c2 where g: "jwks_get R base_url now cache = (r, c2)" by (rule prod.exhaust)
  with assms(2) k obtain keys where "r = Inr keys" "pick k keys = Inr c"
    by (auto simp: fetched_claims_def split: sum.splits)
  with jwks_get_fresh [OF assms(1) g] k show thesis by (auto intro: that)
qed

definition token_signed :: "'claims remote_lib \<Rightarrow> string \<Rightarrow> string \<Rightarrow> 'claims \<Rightarrow> bool" where
  "token_signed R base_url token c \<longleftrightarrow>
     (\<exists>keys jwk key. rm_jwks R (base_url @ ''/certs'') = Inr keys \<and> jwk \<in> set keys \<and>
        ((\<exists>cert ds. x5c jwk = cert # ds \<and> x5c_key R cert = Inr key) \<or> x5c jwk = [] \<and> key = RsaComponents (jwk_n jwk) (jwk_e jwk)) \<and>
        rm_decode R key base_url token = Some c)"

lemma signed_claims_signed:
  assumes "signed_claims R base_url token kid keys = Inr c" "rm_jwks R (base_url @ ''/certs'') = Inr keys"
  shows "token_signed R base_url token c"
proof -
  obtain jwk key where j: "find (\<lambda>k. key_id k = kid) keys = Some jwk" "rm_decode R key base_url token = Some c"
    "(case x5c jwk of [] \<Rightarrow> Inl (Malformed ''JWK missing x5c certificate'') | c # _ \<Rightarrow> x5c_key R c) = Inr key"
    using assms(1) by (auto simp: signed_claims_def bind_result_Inr_iff)
  note j(1,2)
  moreover from j(3) have "\<exists>cert ds. x5c jwk = cert # ds \<and> x5c_key R cert = Inr key" by (cases "x5c jwk") auto
  moreover from j(1) have "jwk \<in> set keys" using find_first by metis
  ultimately show ?thesis using assms(2) unfolding token_signed_def by blast
qed

lemma maa_signed_claims_signed:
  assumes "maa_signed_claims R base_url token kid keys = Inr c" "rm_jwks R (base_url @ ''/certs'') = Inr keys"
  shows "token_signed R base_url token c"
proof -
  obtain jwk where j: "find (\<lambda>k. key_id k = kid) keys = Some jwk"
    using assms(1) by (auto simp: maa_signed_claims_def bind_result_Inr_iff)
  obtain key where "rm_decode R key base_url token = Some c"
    "(\<exists>cert ds. x5c jwk = cert # ds \<and> x5c_key R cert = Inr key) \<or> x5c jwk = [] \<and> key = RsaComponents (jwk_n jwk) (jwk_e jwk)"
    using assms(1) j by (cases "x5c jwk") (auto simp: maa_signed_claims_def bind_result_Inr_iff split: if_splits)
  moreover from j have "jwk \<in> set keys" using find_first by metis
  ultimately show ?thesis using assms(2) unfolding token_signed_def by blast
qed

lemma nras_verify_Inr:
  assumes "jwks_fresh R base_url now cache" "nras_verify R base_url now cache q rd = (Inr r, cache')"
  shows "qudd q = rd \<and> (\<exists>u. rm_parse_url R base_url = Inr u \<and> u_scheme u = ''https'' \<and> u_host u = Some ''nras.nvidia.com'') \<and>
         (\<exists>token c. token_signed R base_url token c \<and> nc_nonce c = Some (rm_b64 R rd) \<and> nc_rim_result c = Some True)"
proof -
  obtain jws where q: "qudd q = rd" "validate_endpoint R base_url = Inr ()"
    and v: "verify_jws_signature R base_url jws rd now cache = (Inr (), cache')"
    using assms(2) by (auto simp: nras_verify_def split: sum.splits if_splits prod.splits)
  obtain x c2 where f: "fetched_claims R (signed_claims R base_url jws) base_url (header_kid R ''JWS'' jws) now cache = (x, c2)"
    by (rule prod.exhaust)
  with v obtain c where c: "x = Inr c" "validate_signed_claims R c rd = Inr ()"
    by (auto simp: verify_jws_signature_def bind_result_Inr_iff)
  with f assms(1) obtain k keys where "rm_jwks R (base_url @ ''/certs'') = Inr keys" "signed_claims R base_url jws k keys = Inr c"
    by (auto elim: fetched_claims_Inr)
  then have "token_signed R base_url jws c" by (metis signed_claims_signed)
  moreover have "nc_nonce c = Some (rm_b64 R rd)" "nc_rim_result c = Some True"
    using c(2) by (auto simp: validate_signed_claims_def bind_result_Inr_iff split: if_splits)
  moreover have "\<exists>u. rm_parse_url R base_url = Inr u \<and> u_scheme u = ''https'' \<and> u_host u = Some ''nras.nvidia.com''"
    using q(2) by (auto simp: validate_endpoint_def bind_result_Inr_iff split: if_splits)
  ultimately show ?thesis using q(1) by blast
qed

lemma maa_verify_Inr:
  assumes "jwks_fresh R (maa_endpoint v) now cache" "maa_verify dbg R v now cache q rd = (Inr r, cache')"
  shows "qudd q = rd \<and> quote_type q \<in> {Sgx, Tdx} \<and>
         (\<exists>token c. token_signed R (maa_endpoint v) token (Inr c) \<and> maa_nonce c = Some (rm_b64url R rd) \<and>
            expected_policy_hash v \<noteq> None \<and> policy_hash c = expected_policy_hash v \<and>
            maa_debuggable (quote_type q) c \<noteq> Some True)"
proof -
  obtain token d where q: "qudd q = rd" "quote_type q \<in> {Sgx, Tdx}"
    and j: "maa_verify_jwt R v token rd (quote_type q) now cache = (Inr d, cache')"
    using assms(2) by (auto simp: maa_verify_def maa_path_def split: sum.splits if_splits prod.splits option.splits QuoteType.splits)
  obtain x c2 where f: "fetched_claims R (maa_signed_claims R (maa_endpoint v) token) (maa_endpoint v) (maa_kid R token) now cache = (x, c2)"
    by (rule prod.exhaust)
  with j obtain c where c: "x = Inr (Inr c)" "validate_claims R v c rd (quote_type q) = Inr ()"
    by (auto simp: maa_verify_jwt_def bind_result_Inr_iff)
  with f assms(1) obtain k keys where "rm_jwks R (maa_endpoint v @ ''/certs'') = Inr keys"
    "maa_signed_claims R (maa_endpoint v) token k keys = Inr (Inr c)"
    by (auto elim: fetched_claims_Inr)
  then have "token_signed R (maa_endpoint v) token (Inr c)" by (metis maa_signed_claims_signed)
  moreover have "maa_nonce c = Some (rm_b64url R rd)" "expected_policy_hash v \<noteq> None"
    "policy_hash c = expected_policy_hash v" "maa_debuggable (quote_type q) c \<noteq> Some True"
    using c(2) by (auto simp: validate_claims_def bind_result_Inr_iff split: if_splits)
  ultimately show ?thesis using q by blast
qed

interpretation nras: qudd_verifier "\<lambda>q rd. fst (nras_verify R base_url now None q rd)"
  "\<lambda>q rd. qudd q = rd \<and> (\<exists>token c. token_signed R base_url token c \<and> nc_nonce c = Some (rm_b64 R rd) \<and> nc_rim_result c = Some True)"
  for R base_url now
  by unfold_locales (metis (no_types, lifting) nras_verify_Inr fst_conv jwks_fresh_def option.distinct(1) surj_pair, simp)

interpretation maa: qudd_verifier "\<lambda>q rd. fst (maa_verify dbg R v now None q rd)"
  "\<lambda>q rd. qudd q = rd \<and> (\<exists>token c. token_signed R (maa_endpoint v) token (Inr c) \<and> maa_nonce c = Some (rm_b64url R rd))"
  for dbg R v now
  by unfold_locales (metis (no_types, lifting) maa_verify_Inr fst_conv jwks_fresh_def option.distinct(1) surj_pair, simp)


text \<open>
  Whatever names they are registered under, the verifiers that compare the quote's own report data keep
  doing so in the composite and in the federated verifier.
\<close>

interpretation hardware: vendor_verifiers
  "[(k1, snp_verify amd_snp dbg A S sv), (k2, tdx_verify dbg A Q clock tv), (k3, nvidia_gpu_verify mock_debug)]"
  "\<lambda>q rd. qudd q = rd"
  for k1 k2 k3 amd_snp dbg A S sv Q clock tv mock_debug
  by unfold_locales (auto dest: snp.verified_binds tdx.verified_binds gpu.verified_binds)

interpretation hardware_composite: qudd_verifier
  "composite_verify \<lparr>cv_verifiers = [(k1, snp_verify amd_snp dbg A S sv), (k2, tdx_verify dbg A Q clock tv),
     (k3, nvidia_gpu_verify mock_debug)], strict_mode = True\<rparr>"
  "\<lambda>q rd. qudd q = rd"
  for k1 k2 k3 amd_snp dbg A S sv Q clock tv mock_debug
  by unfold_locales (auto dest: hardware.composite.verified_binds)

subsection \<open>Collateral is bounded, comes from listed hosts and always arrives\<close>

lemma read_body_skip:
  assumes "\<And>k. i \<le> k \<Longrightarrow> k < j \<Longrightarrow> chunk k = Inr (Some [])" "i \<le> j" "length body \<le> MAX_COLLATERAL_SIZE"
  shows "read_body chunk i body = read_body chunk j body"
  using assms
proof (induction "j - i" arbitrary: i)
  case (Suc n)
  then have "read_body chunk i body = read_body chunk (Suc i) body" by (simp add: read_body.simps [of chunk i])
  with Suc show ?case by simp
qed simp

lemma read_body_ends:
  assumes "\<And>i. \<exists>j\<ge>i. chunk j \<noteq> Inr (Some [])" "length body \<le> MAX_COLLATERAL_SIZE"
  shows "\<exists>r. read_body chunk i body = Some r"
  using assms(2)
proof (induction "MAX_COLLATERAL_SIZE - length body" arbitrary: i body rule: less_induct)
  case less
  define j where "j = (LEAST j. i \<le> j \<and> chunk j \<noteq> Inr (Some []))"
  have j: "i \<le> j" "chunk j \<noteq> Inr (Some [])" unfolding j_def using LeastI_ex [OF assms(1) [of i]] by blast+
  have "chunk k = Inr (Some [])" if "i \<le> k" "k < j" for k using that not_less_Least unfolding j_def by blast
  with j(1) less.prems have skip: "read_body chunk i body = read_body chunk j body" by (intro read_body_skip)
  show ?case
  proof (cases "\<exists>c. chunk j = Inr (Some c) \<and> length body + length c \<le> MAX_COLLATERAL_SIZE")
    case True
    then obtain c where c: "chunk j = Inr (Some c)" "length body + length c \<le> MAX_COLLATERAL_SIZE" by blast
    with j(2) have "c \<noteq> []" by auto
    with c(2) have "MAX_COLLATERAL_SIZE - length (body @ c) < MAX_COLLATERAL_SIZE - length body" by (cases c) auto
    from less.hyps [OF this, of "Suc j"] c show ?thesis unfolding skip by (subst read_body.simps) simp
  next
    case False
    then show ?thesis unfolding skip by (subst read_body.simps) (auto split: sum.splits option.splits)
  qed
qed

lemma read_body_bounded:
  assumes "read_body chunk i body = Some r"
  shows "length body \<le> MAX_COLLATERAL_SIZE \<longrightarrow> (\<forall>b. r = Inr b \<longrightarrow> length b \<le> MAX_COLLATERAL_SIZE)"
  using assms
proof (rule read_body.raw_induct
    [where P = "\<lambda>_ _ body r. length body \<le> MAX_COLLATERAL_SIZE \<longrightarrow> (\<forall>b. r = Inr b \<longrightarrow> length b \<le> MAX_COLLATERAL_SIZE)", rotated],
    goal_cases)
  case (1 rb chunk i body r)
  show ?case
  proof (cases "\<exists>c. chunk i = Inr (Some c) \<and> length body + length c \<le> MAX_COLLATERAL_SIZE")
    case True
    then obtain c where c: "chunk i = Inr (Some c)" "length (body @ c) \<le> MAX_COLLATERAL_SIZE" by auto
    with 1(2) have "rb chunk (Suc i) (body @ c) = Some r" by simp
    from 1(1) [OF this] c(2) show ?thesis by simp
  next
    case False
    with 1(2) show ?thesis by (auto split: sum.splits option.splits if_splits)
  qed
qed

definition vendor_host :: "string \<Rightarrow> bool" where
  "vendor_host h \<longleftrightarrow>
     h \<in> {''trustauthority.intel.com'', ''kdsintpk.amd.com'', ''nras.nvidia.com''} \<or>
     suffix ''.trustauthority.intel.com'' h \<or> suffix ''.kdsintpk.amd.com'' h \<or> suffix ''.nras.nvidia.com'' h"

lemma production_hosts: "host_allowed (fetcher_new False) h \<longleftrightarrow> vendor_host h"
  by (auto simp: host_allowed_def fetcher_new_def vendor_host_def)

lemma loopback_refused: "\<not> vendor_host ''127.0.0.1''"
  by (simp add: vendor_host_def suffix_to_prefix)

lemma check_uri_production:
  assumes "check_uri parse (fetcher_new False) uri = Inr url" "u_scheme url = ''https'' \<Longrightarrow> u_host url \<noteq> None"
  shows "parse uri = Some url \<and> u_scheme url = ''https'' \<and> (\<exists>h. u_host url = Some h \<and> vendor_host h)"
proof (cases "u_host url")
  case (Some h)
  with assms have "parse uri = Some url" "u_scheme url = ''https'' \<or> h = ''127.0.0.1''" "vendor_host h"
    by (auto simp: check_uri_def bind_result_Inr_iff production_hosts split: if_splits option.splits)
  with Some loopback_refused show ?thesis by auto
next
  case None
  with assms show ?thesis by (auto simp: check_uri_def bind_result_Inr_iff split: if_splits option.splits)
qed

text \<open>
  C37. Fetching collateral in a production build ends for every URI, whatever the server sends, as long as its
  body is not an endless run of empty chunks (the client's timeout turns one into an error event). A
  body it returns has at most one megabyte and came over HTTPS from one of the vendors' hosts; no other
  host is ever contacted: the outcome does not depend on what other servers would answer.
\<close>
theorem collateral_fetch_ends:
  assumes "\<And>u url. parse u = Some url \<Longrightarrow> u_scheme url = ''https'' \<Longrightarrow> u_host url \<noteq> None"
    and "\<And>url resp i. get url = Inr resp \<Longrightarrow> \<exists>j\<ge>i. gr_chunk resp j \<noteq> Inr (Some [])"
    and "\<And>url h. u_scheme url = ''https'' \<Longrightarrow> u_host url = Some h \<Longrightarrow> vendor_host h \<Longrightarrow> get' url = get url"
  shows "\<exists>r. fetch parse get (fetcher_new False) uri = Some r \<and> fetch parse get' (fetcher_new False) uri = Some r \<and>
           (\<forall>b. r = Inr b \<longrightarrow> length b \<le> MAX_COLLATERAL_SIZE \<and>
              (\<exists>url h. parse uri = Some url \<and> u_scheme url = ''https'' \<and> u_host url = Some h \<and> vendor_host h))"
proof (cases "check_uri parse (fetcher_new False) uri")
  case (Inr url)
  have "u_host url \<noteq> None" if "u_scheme url = ''https''"
    using Inr that assms(1) [of uri url] by (auto simp: check_uri_def bind_result_Inr_iff split: if_splits option.splits)
  from check_uri_production [OF Inr this] obtain h where
    h: "parse uri = Some url" "u_scheme url = ''https''" "u_host url = Some h" "vendor_host h" by blast
  have same: "fetch parse get' (fetcher_new False) uri = fetch parse get (fetcher_new False) uri"
    using Inr assms(3) [OF h(2-4)] by (simp add: fetch_def)
  show ?thesis
  proof (cases "get url")
    case (Inr resp)
    obtain r where r: "read_body (gr_chunk resp) 0 [] = Some r" using read_body_ends assms(2) [OF Inr] by fastforce
    have "length b \<le> MAX_COLLATERAL_SIZE" if "r = Inr b" for b using read_body_bounded [OF r] that by simp
    with r \<open>check_uri _ _ _ = _\<close> Inr h same show ?thesis by (auto simp: fetch_def split: option.splits)
  qed (use Inr same in \<open>auto simp: fetch_def\<close>)
qed (simp add: fetch_def)

text \<open>A cached artifact is returned until its time is over, and never afterwards.\<close>
lemma cache_get_insert:
  "fst (cache_get (cache_insert c now uri data) t uri) = (if t < now + cc_ttl c then Some data else None)"
  by (simp add: cache_get_def cache_insert_def)

subsection \<open>TPM quotes are not verified\<close>

text \<open>
  A TPM quote is accepted once a certificate can be fetched for it, whatever that certificate is and
  whatever the signature check says: the same quote is accepted for every report data.
\<close>
lemma tpm_accepts_unsigned:
  assumes "quote_type q = QuoteType.Tpm" and "collateral_uris q = uri # uris" and "fetcher uri = Some (Inr cert)"
  shows "tpm_verify fetcher p256_verify q rd = Some (Inr tpm_result)"
  using assms by (simp add: tpm_verify_def)

subsection \<open>Signed tokens\<close>

definition eat_lib_correct :: "('sk, 'pk, 'sig) eat_lib \<Rightarrow> bytes \<Rightarrow> bytes \<Rightarrow> bool" where
  "eat_lib_correct L skb pkb \<longleftrightarrow>
     (\<forall>c b. el_cbor L c = Inr b \<longrightarrow> el_of_cbor L b = Inr c) \<and>
     (\<forall>x b. el_to_vec L x = Inr b \<longrightarrow> el_from_slice L b = Inr x) \<and>
     (\<forall>sk m s. el_secret_key L skb = Some sk \<and> el_sign L m sk = Some s \<longrightarrow>
        (\<exists>pk s'. el_public_key L pkb = Some pk \<and> el_signature L s = Some s' \<and> el_verify L m s' pk))"

text \<open>A token created with one key is verified with the matching public key and gives the claims back.\<close>
lemma eat_round_trip:
  assumes "eat_lib_correct L skb pkb" "create_signed_eat L c skb alg = Inr token"
  shows "verify_signed_eat L token pkb = Inr c"
proof -
  let ?a = "Some (to_cose_algorithm alg)"
  obtain payload sk s where p: "el_cbor L c = Inr payload" "el_sig_new L = Inr ()" "el_secret_key L skb = Some sk"
    "el_sign L (el_tbs L ?a (Some payload)) sk = Some s"
    "el_to_vec L \<lparr>cose_alg = ?a, cose_payload = Some payload, cose_signature = s\<rparr> = Inr token"
    using assms(2) by (auto simp: create_signed_eat_def serialize_claims_def bind_result_Inr_iff Let_def)
  with assms(1) obtain pk s' where "el_public_key L pkb = Some pk" "el_signature L s = Some s'"
    "el_verify L (el_tbs L ?a (Some payload)) s' pk" unfolding eat_lib_correct_def by blast
  moreover have "el_of_cbor L payload = Inr c"
    "el_from_slice L token = Inr \<lparr>cose_alg = ?a, cose_payload = Some payload, cose_signature = s\<rparr>"
    using assms(1) p unfolding eat_lib_correct_def by blast+
  ultimately show ?thesis using p by (cases alg) (simp add: verify_signed_eat_def deserialize_claims_def)
qed

text \<open>Claims are returned only if the signature over the very payload they were read from verified.\<close>
lemma verified_eat_is_signed:
  assumes "verify_signed_eat L token pkb = Inr c"
  shows "\<exists>cose payload s pk. el_from_slice L token = Inr cose \<and> cose_payload cose = Some payload \<and>
           el_public_key L pkb = Some pk \<and> el_signature L (cose_signature cose) = Some s \<and>
           el_verify L (el_tbs L (cose_alg cose) (Some payload)) s pk \<and> el_of_cbor L payload = Inr c"
  using assms by (auto simp: verify_signed_eat_def deserialize_claims_def bind_result_Inr_iff split: if_splits)


subsection \<open>Concrete instances\<close>

definition demo_hcl :: hcl_lib where
  "demo_hcl = \<lparr>hcl_sha256 = (\<lambda>_. replicate 32 0x44),
     hcl_hex = (\<lambda>bs. if bs = replicate 32 0x44 then INTEL_SGX_ROOT_CA_SHA256 else bytes_str bs),
     hcl_user_data = (\<lambda>_. Inr None)\<rparr>"

definition demo_td :: "bytes \<Rightarrow> TDReport10" where
  "demo_td rd = \<lparr>td_attributes_raw = replicate 8 0, td_report_data = rd, td_mr_td = [1], td_rt_mr0 = [2], td_rt_mr1 = [3],
     td_rt_mr2 = [4], td_rt_mr3 = [5], td_mr_seam = [6], td_mr_signer_seam = [7], td_mr_config_id = [8], td_mr_owner = [9],
     td_mr_owner_config = [10], td_xfam = [11], td_tee_tcb_svn = [12]\<rparr>"

definition demo_dcap :: "(string, unit) dcap_lib" where
  "demo_dcap = \<lparr>dcap_root_der = [0], dcap_bundle = (\<lambda>_. Inl ''no JSON''), dcap_parse_status = (\<lambda>_. None),
     dcap_show_status = id,
     dcap_verify = (\<lambda>_ _ quote _ _ _. Inr \<lparr>dc_tee_type = 0x81, dc_td10 = Some (demo_td quote), dc_version = 4,
       dc_status = ''UpToDate'', dc_advisory_ids = [], dc_eval_data_number = 17, dc_fmspc = [1], dc_pck_crl_num = 1,
       dc_root_ca_crl_num = 1, dc_earliest_expiration = 2000, dc_latest_issue = 500, dc_dynamic_platform = FlagTrue,
       dc_cached_keys = FlagTrue, dc_smt_enabled = FlagTrue\<rparr>),
     dcap_client = (\<lambda>_. None), dcap_fetch = (\<lambda>_ _. Inr ()), dcap_report_json = (\<lambda>_. None)\<rparr>"

abbreviation demo_tdx_quote :: AttestQuote where
  "demo_tdx_quote \<equiv> \<lparr>quote_type = Tdx, format = Raw, quote_raw = [42], qudd = [42], collateral_uris = []\<rparr>"

theorem tdx_accepted_is_bound_witness:
  "\<exists>r. tdx_verify (\<lambda>_. []) demo_hcl demo_dcap (Some 1000) (tdx_verifier_new (cloud_host [[1]])) demo_tdx_quote [42] = Inr r \<and>
     measurement r = Some (bytes_str [1])"
proof -
  let ?b = "\<lparr>tdx_quote = [42], tdx_hcl_runtime_data = None\<rparr>"
  have d: "decode_tdx_bundle (\<lambda>_. []) demo_dcap demo_tdx_quote = Inr ?b" by (simp add: decode_tdx_bundle_def)
  have "\<exists>x. verify_tdx_bundle_with_collateral demo_hcl demo_dcap ?b () [42] 1000 (cloud_host [[1]]) = Inr x"
    by (simp add: verify_tdx_bundle_with_collateral_def tdx_quote_policy_def cloud_host_def demo_dcap_def demo_hcl_def
        demo_td_def td_debug_def tdx_binding_def td_rtmrs_def)
  then obtain r where r: "tdx_verify (\<lambda>_. []) demo_hcl demo_dcap (Some 1000) (tdx_verifier_new (cloud_host [[1]])) demo_tdx_quote [42] = Inr r"
    using d by (auto simp: tdx_verify_def verify_detailed_def fetch_intel_collateral_def tdx_verifier_new_def) (simp add: demo_dcap_def)
  from tdx_accepted_is_bound [OF this] obtain b c td where
    "tdx_evidence demo_hcl demo_dcap (cloud_host [[1]]) b () 1000 [42] c td" "measurement r = Some (hcl_hex demo_hcl (td_mr_td td))"
    by (auto simp: tdx_verifier_new_def)
  moreover from this(1) have "td_mr_td td = [1]" by (simp add: tdx_evidence_def cloud_host_def)
  moreover have "hcl_hex demo_hcl [1] = bytes_str [1]" by (auto simp: demo_hcl_def dest: arg_cong [of _ _ length])
  ultimately have "measurement r = Some (bytes_str [1])" by simp
  with r show ?thesis by blast
qed

definition demo_sev :: "(bytes, unit, bytes) sev_lib" where
  "demo_sev = \<lparr>sev_bundle = (\<lambda>raw. Inr \<lparr>snp_report = raw, certificate_table = [\<lparr>certificate_type = Ark, der = [1]\<rparr>],
       snp_hcl_runtime_data = None\<rparr>),
     sev_expected_len = Some 2, sev_report = Inr, sev_report_data = take 1, sev_measurement = drop 1,
     sev_debug_allowed = (\<lambda>_. False), sev_microcode = (\<lambda>_. 5), sev_chain = (\<lambda>_. Inr ()), sev_chain_ark = (\<lambda>_. Inr [1]),
     sev_verify = (\<lambda>_ _. Inr ()), sev_builtin_arks = [Inr [1], Inr [2], Inr [3]], sev_from_pem = Inr, sev_from_der = Inr,
     sev_to_der = Inr, sev_read_file = (\<lambda>_. Inl ''not found'')\<rparr>"

abbreviation demo_snp_quote :: AttestQuote where
  "demo_snp_quote \<equiv> \<lparr>quote_type = SevSnp, format = SevSnpBundleV1, quote_raw = [42, 7], qudd = [42], collateral_uris = []\<rparr>"

abbreviation demo_snp_verifier :: SevSnpVerifier where
  "demo_snp_verifier \<equiv> \<lparr>snp_min_svn = Some 4, expected_measurement = Some [7], snp_allow_debug = False, ca_source = Builtin\<rparr>"

theorem snp_accepted_is_bound_witness:
  "snp_evidence demo_hcl demo_sev demo_snp_verifier demo_snp_quote [42] [42, 7]"
proof -
  have "\<exists>r. snp_verify True (\<lambda>_. []) demo_hcl demo_sev demo_snp_verifier demo_snp_quote [42] = Inr r"
    by (simp add: snp_verify_def verify_snp_report_def demo_sev_def snp_report_data_check_def check_expected_measurement_def
        snp_chain_check_def trusted_ark_der_def)
  then obtain r where "snp_verify True (\<lambda>_. []) demo_hcl demo_sev demo_snp_verifier demo_snp_quote [42] = Inr r" by blast
  from snp_accepted_is_bound [OF this] obtain rep where
    e: "snp_evidence demo_hcl demo_sev demo_snp_verifier demo_snp_quote [42] rep" by blast
  then have "rep = [42, 7]" by (auto simp: snp_evidence_def demo_sev_def)
  with e show ?thesis by simp
qed

definition demo_parse :: "string \<Rightarrow> Url option" where
  "demo_parse u = Some \<lparr>u_scheme = ''https'', u_host = Some u, u_username = [], u_password = None, u_path = ''/'', u_query = None,
     u_fragment = None\<rparr>"

definition demo_get :: "Url \<Rightarrow> string + get_reply" where
  "demo_get url = Inr \<lparr>gr_status = 200, gr_content_length = None, gr_chunk = (\<lambda>i. Inr (if i = 0 then Some [7] else None))\<rparr>"

theorem collateral_fetch_ends_witness:
  "\<exists>r. fetch demo_parse demo_get (fetcher_new False) ''nras.nvidia.com'' = Some r \<and>
       fetch demo_parse (\<lambda>url. if u_host url = Some ''localhost'' then Inl ''refused'' else demo_get url)
         (fetcher_new False) ''nras.nvidia.com'' = Some r"
proof -
  let ?get = "\<lambda>url. if u_host url = Some ''localhost'' then Inl ''refused'' else demo_get url"
  have "\<exists>r. fetch demo_parse demo_get (fetcher_new False) ''nras.nvidia.com'' = Some r \<and>
      fetch demo_parse ?get (fetcher_new False) ''nras.nvidia.com'' = Some r \<and>
      (\<forall>b. r = Inr b \<longrightarrow> length b \<le> MAX_COLLATERAL_SIZE \<and> (\<exists>url h. demo_parse ''nras.nvidia.com'' = Some url \<and>
         u_scheme url = ''https'' \<and> u_host url = Some h \<and> vendor_host h))"
  proof (rule collateral_fetch_ends)
    fix u and url :: Url assume "demo_parse u = Some url"
    then show "u_host url \<noteq> None" by (auto simp: demo_parse_def)
  next
    fix url resp i assume "demo_get url = Inr resp"
    then show "\<exists>j\<ge>i. gr_chunk resp j \<noteq> Inr (Some [])" by (auto simp: demo_get_def intro!: exI [of _ "Suc i"])
  next
    fix url :: Url and h assume "u_host url = Some h" "vendor_host h"
    then show "?get url = demo_get url" by (auto simp: vendor_host_def suffix_to_prefix)
  qed
  then show ?thesis by blast
qed

end
