(* ===== verification/Tee_Providers.thy ===== *)
theory Tee_Providers
  imports Quote_Verifiers
begin

text \<open>
  Where quotes come from: the crate \<open>openhttpa-tee\<close>. A provider turns 64 bytes of report data into
  evidence of its hardware and the evidence into the wire format of a quote; providers can be combined
  and wrapped, and one of them is selected by probing the machine. The build (enabled features and
  profile) and the machine (environment variables, device files, answers of drivers and agents) are
  arguments. \<open>None\<close> is a panic.

  The development shows that every quote carries the report data it was asked for, that a release build
  never selects the simulated provider, and that Intel TDX evidence, direct or through the Azure
  paravisor, passes the verifier of \<open>Quote_Verifiers\<close>.
\<close>

section \<open>The model\<close>

subsection \<open>Errors, builds and machines\<close>

datatype TeeProviderError =
    NotAvailable string
  | QuoteGeneration string
  | NotInitialised
  | Enclave string
  | Driver string
  | Config string

fun show_tee_error :: "TeeProviderError \<Rightarrow> string" where
  "show_tee_error (NotAvailable s) = ''TEE SDK not available: '' @ s"
| "show_tee_error (QuoteGeneration s) = ''quote generation failed: '' @ s"
| "show_tee_error NotInitialised = ''TEE not initialised''"
| "show_tee_error (Enclave s) = ''enclave error: '' @ s"
| "show_tee_error (Driver s) = ''hardware driver error: '' @ s"
| "show_tee_error (Config s) = ''platform configuration error: '' @ s"

record tee_build =
  debug_assertions :: bool
  test_build :: bool
  feature_mock :: bool
  feature_nvidia_gpu :: bool
  feature_tdx :: bool
  feature_sev_snp :: bool
  feature_azure_vtpm :: bool
  feature_aws_nitro :: bool
  feature_sgx :: bool
  feature_tpm :: bool
  feature_trustzone :: bool
  os_linux :: bool
  os_unix :: bool

definition debug_build :: "tee_build \<Rightarrow> bool" where
  "debug_build b \<longleftrightarrow> debug_assertions b \<or> test_build b"

datatype FirmwareCertType = FwArk | FwAsk | FwVcek | FwVlek | FwCrl | FwEmpty | FwOther string

datatype NsmResponse = NsmAttestation bytes | NsmError string | NsmOther

record AgentResponse =
  agent_version :: u32
  quote_hex :: string

record tee_machine =
  env_var :: "string \<Rightarrow> string option"
  path_exists :: "string \<Rightarrow> bool"
  m_sha384 :: "bytes \<Rightarrow> bytes"
  m_hkdf :: "bytes \<Rightarrow> bytes \<Rightarrow> bytes \<Rightarrow> bytes option"
  m_hex :: "bytes \<Rightarrow> string"
  m_unhex :: "string \<Rightarrow> string + bytes"
  tdx_driver :: "string \<Rightarrow> string + bytes"
  snp_open :: "string + unit"
  snp_ext_report :: "bytes \<Rightarrow> string + (bytes \<times> (FirmwareCertType \<times> bytes) list option)"
  nsm_fd :: int
  nsm_process :: "bytes \<Rightarrow> NsmResponse"
  agent_connect :: "string \<Rightarrow> string + unit"
  agent_timeouts :: "string + unit"
  agent_send :: "u32 \<Rightarrow> string \<Rightarrow> string + unit"
  agent_newline :: "string + unit"
  agent_reply :: "string \<Rightarrow> string + bytes"
  agent_json :: "bytes \<Rightarrow> string + AgentResponse"

subsection \<open>Evidence\<close>

record TdxEvidence =
  te_quote :: bytes
  pck_cert_uri :: "string option"
  te_hcl_runtime_data :: "bytes option"

record SevSnpEvidence =
  se_report :: bytes
  se_certificate_table :: "SevSnpCertificate list"
  vcek_cert_uri :: "string option"
  se_hcl_runtime_data :: "bytes option"

record TpmEvidence =
  tpm_quote :: bytes
  pcr_values :: "(u32 \<times> bytes) list"
  aik_cert_uri :: "string option"

record NvidiaGpuEvidence =
  rim_report :: bytes
  gpu_cert_uri :: "string option"

datatype AttestationEvidence =
    EvTdx TdxEvidence
  | EvSevSnp SevSnpEvidence
  | EvTpm TpmEvidence
  | EvNvidiaGpu NvidiaGpuEvidence
  | EvAwsNitro bytes
  | EvMock bytes

record evidence_json =
  tdx_bundle_json :: "TdxQuoteBundleV1 \<Rightarrow> bytes option"
  snp_bundle_json :: "SevSnpQuoteBundleV1 \<Rightarrow> bytes option"

definition raw_quote :: "QuoteType \<Rightarrow> bytes \<Rightarrow> bytes \<Rightarrow> string option \<Rightarrow> AttestQuote" where
  "raw_quote t raw q uri =
     \<lparr>quote_type = t, format = Raw, quote_raw = raw, qudd = q,
      collateral_uris = (case uri of None \<Rightarrow> [] | Some u \<Rightarrow> [u])\<rparr>"

fun to_quote :: "evidence_json \<Rightarrow> AttestationEvidence \<Rightarrow> bytes \<Rightarrow> AttestQuote" where
  "to_quote J (EvTdx e) q =
     (case te_hcl_runtime_data e of
        Some rt \<Rightarrow>
          \<lparr>quote_type = Tdx, format = TdxBundleV1,
           quote_raw = (case tdx_bundle_json J \<lparr>tdx_quote = te_quote e, tdx_hcl_runtime_data = Some rt\<rparr> of
                          Some raw \<Rightarrow> raw | None \<Rightarrow> []),
           qudd = q, collateral_uris = []\<rparr>
      | None \<Rightarrow> raw_quote Tdx (te_quote e) q (pck_cert_uri e))"
| "to_quote J (EvSevSnp e) q =
     \<lparr>quote_type = SevSnp, format = SevSnpBundleV1,
      quote_raw = (case snp_bundle_json J
                     \<lparr>snp_report = se_report e, certificate_table = se_certificate_table e,
                      snp_hcl_runtime_data = se_hcl_runtime_data e\<rparr> of
                     Some raw \<Rightarrow> raw | None \<Rightarrow> []),
      qudd = q, collateral_uris = []\<rparr>"
| "to_quote J (EvTpm e) q = raw_quote QuoteType.Tpm (tpm_quote e) q (aik_cert_uri e)"
| "to_quote J (EvNvidiaGpu e) q = raw_quote QuoteType.NvidiaGpu (rim_report e) q (gpu_cert_uri e)"
| "to_quote J (EvAwsNitro d) q = raw_quote QuoteType.AwsNitro d q None"
| "to_quote J (EvMock raw) q = raw_quote QuoteType.Mock raw q None"

fun to_eat_claims :: "AttestationEvidence \<Rightarrow> EatClaims" where
  "to_eat_claims (EvTdx e) =
     eat_default\<lparr>tee_class := Some IntelTdx, hwmodel := Some ''Intel TDX'', oemid := Some ''Intel''\<rparr>"
| "to_eat_claims (EvSevSnp e) =
     eat_default\<lparr>tee_class := Some AmdSevSnp, hwmodel := Some ''AMD SEV-SNP'', oemid := Some ''AMD''\<rparr>"
| "to_eat_claims (EvTpm e) = eat_default\<lparr>tee_class := Some TeeClass.Tpm, hwmodel := Some ''TPM 2.0''\<rparr>"
| "to_eat_claims (EvNvidiaGpu e) =
     eat_default\<lparr>tee_class := Some TeeClass.NvidiaGpu, hwmodel := Some ''NVIDIA Hopper GPU'', oemid := Some ''NVIDIA''\<rparr>"
| "to_eat_claims (EvAwsNitro d) =
     eat_default\<lparr>tee_class := Some TeeClass.AwsNitro, hwmodel := Some ''AWS Nitro Enclave'', oemid := Some ''Amazon''\<rparr>"
| "to_eat_claims (EvMock raw) = eat_default\<lparr>tee_class := Some TeeClass.Mock, hwmodel := Some ''Mock TEE''\<rparr>"

record EvidenceBundle =
  primary_evidence :: AttestationEvidence
  secondary_evidence :: "AttestationEvidence list"

definition to_quotes :: "evidence_json \<Rightarrow> EvidenceBundle \<Rightarrow> bytes \<Rightarrow> AttestQuote list" where
  "to_quotes J eb q = to_quote J (primary_evidence eb) q # map (\<lambda>e. to_quote J e q) (secondary_evidence eb)"

subsection \<open>The provider interface and its default methods\<close>

record TeeProvider =
  provider_type :: "QuoteType option"
  generate_quote :: "bytes \<Rightarrow> (TeeProviderError + AttestQuote) option"
  generate_quotes :: "bytes \<Rightarrow> (TeeProviderError + AttestQuote list) option"
  is_available :: bool
  seal_data :: "bytes \<Rightarrow> TeeProviderError + bytes"
  unseal_data :: "bytes \<Rightarrow> TeeProviderError + bytes"
  derive_key :: "bytes \<Rightarrow> TeeProviderError + bytes"

definition default_generate_quotes ::
    "(bytes \<Rightarrow> (TeeProviderError + AttestQuote) option) \<Rightarrow> bytes \<Rightarrow> (TeeProviderError + AttestQuote list) option" where
  "default_generate_quotes g rd = map_option (\<lambda>r. bind_result r (\<lambda>q. Inr [q])) (g rd)"

definition default_seal_data :: "bytes \<Rightarrow> TeeProviderError + bytes" where
  "default_seal_data _ = Inl (NotAvailable ''Sealing not implemented'')"

definition default_unseal_data :: "bytes \<Rightarrow> TeeProviderError + bytes" where
  "default_unseal_data _ = Inl (NotAvailable ''Unsealing not implemented'')"

definition default_derive_key :: "bytes \<Rightarrow> TeeProviderError + bytes" where
  "default_derive_key _ = Inl (NotAvailable ''Key derivation not implemented'')"

text \<open>An adapter's evidence becomes a quote whose user data is the requested report data.\<close>

definition adapter_quote ::
    "evidence_json \<Rightarrow> (bytes \<Rightarrow> (TeeProviderError + AttestationEvidence) option) \<Rightarrow> bytes \<Rightarrow> (TeeProviderError + AttestQuote) option" where
  "adapter_quote J gen rd = map_option (\<lambda>r. bind_result r (\<lambda>e. Inr (to_quote J e rd))) (gen rd)"

definition adapter_provider ::
    "evidence_json \<Rightarrow> QuoteType option \<Rightarrow> (bytes \<Rightarrow> (TeeProviderError + AttestationEvidence) option) \<Rightarrow> bool \<Rightarrow> TeeProvider" where
  "adapter_provider J t gen avail =
     \<lparr>provider_type = t, generate_quote = adapter_quote J gen,
      generate_quotes = default_generate_quotes (adapter_quote J gen), is_available = avail,
      seal_data = default_seal_data, unseal_data = default_unseal_data, derive_key = default_derive_key\<rparr>"

subsection \<open>Hardware providers\<close>

definition tdx_generate_evidence :: "tee_build \<Rightarrow> tee_machine \<Rightarrow> bytes \<Rightarrow> TeeProviderError + AttestationEvidence" where
  "tdx_generate_evidence b M rd =
     (if feature_tdx b then
        bind_result (map_err QuoteGeneration (tdx_driver M (m_hex M rd))) (\<lambda>q.
          Inr (EvTdx \<lparr>te_quote = q, pck_cert_uri = None, te_hcl_runtime_data = None\<rparr>))
      else Inl (NotAvailable ''TDX feature not enabled at compile time''))"

definition tdx_available :: "tee_build \<Rightarrow> tee_machine \<Rightarrow> bool" where
  "tdx_available b M \<longleftrightarrow>
     feature_tdx b \<and>
     (path_exists M ''/dev/tdx-guest'' \<or> path_exists M ''/dev/tdx_guest'' \<or> path_exists M ''/dev/tdx-attest'')"

definition tdx_derive_key :: "tee_build \<Rightarrow> bytes \<Rightarrow> TeeProviderError + bytes" where
  "tdx_derive_key b _ =
     (if feature_tdx b then Inl (Enclave ''TDX dynamic key derivation requires TDX SDK C-FFI linking.'')
      else Inl (NotAvailable ''TDX feature not enabled at compile time''))"

definition tdx_provider :: "tee_build \<Rightarrow> tee_machine \<Rightarrow> evidence_json \<Rightarrow> TeeProvider" where
  "tdx_provider b M J =
     (adapter_provider J (Some Tdx) (\<lambda>rd. Some (tdx_generate_evidence b M rd)) (tdx_available b M))
       \<lparr>derive_key := tdx_derive_key b\<rparr>"

text \<open>On Azure the paravisor owns the hardware: reports come from the virtual TPM, quotes from a host service.\<close>

datatype HclReportType = HclTdx | HclSnp | HclOtherReport

record ('hcl, 'td, 'cert) az_lib =
  az_report :: "bytes \<Rightarrow> string + bytes"
  az_stored_report :: "string + bytes"
  az_hcl :: "bytes \<Rightarrow> string + 'hcl"
  az_report_type :: "'hcl \<Rightarrow> HclReportType"
  az_var_data :: "'hcl \<Rightarrow> bytes"
  az_td_report :: "'hcl \<Rightarrow> string + 'td"
  az_td_reportdata :: "'td \<Rightarrow> bytes"
  az_td_quote :: "'td \<Rightarrow> string + bytes"
  az_sha256 :: "bytes \<Rightarrow> bytes"
  az_snp_report_size :: nat
  az_certs :: "string + string \<times> string"
  az_vcek :: "string \<Rightarrow> string + 'cert"
  az_cert_chain :: "string \<Rightarrow> string + 'cert \<times> 'cert"
  az_to_der :: "'cert \<Rightarrow> string + bytes"

definition check_local_binding :: "('hcl, 'td, 'cert) az_lib \<Rightarrow> 'td \<Rightarrow> bytes \<Rightarrow> TeeProviderError + unit" where
  "check_local_binding Z td var_data =
     (if take 32 (az_td_reportdata Z td) \<noteq> az_sha256 Z var_data
      then Inl (QuoteGeneration ''TD report REPORTDATA does not bind SHA-256(HCL runtime data)'') else Inr ())"

definition azure_tdx_generate_evidence :: "('hcl, 'td, 'cert) az_lib \<Rightarrow> bytes \<Rightarrow> TeeProviderError + AttestationEvidence" where
  "azure_tdx_generate_evidence Z rd =
     (if length rd \<noteq> 64 then Inl (QuoteGeneration ''report_data must be 64 bytes'')
      else
        bind_result (map_err (\<lambda>e. QuoteGeneration (''vTPM HCL report failed: '' @ e)) (az_report Z rd)) (\<lambda>bs.
        bind_result (map_err (\<lambda>e. QuoteGeneration (''invalid HCL report: '' @ e)) (az_hcl Z bs)) (\<lambda>hcl.
        if az_report_type Z hcl \<noteq> HclTdx then Inl (QuoteGeneration ''Azure HCL report is not an Intel TDX report'')
        else
          bind_result (map_err (\<lambda>e. QuoteGeneration (''invalid TD report: '' @ e)) (az_td_report Z hcl)) (\<lambda>td.
          bind_result (check_local_binding Z td (az_var_data Z hcl)) (\<lambda>_.
          bind_result (map_err (\<lambda>e. QuoteGeneration (''Azure IMDS /acc/tdquote failed: '' @ e)) (az_td_quote Z td)) (\<lambda>q.
          if q = [] then Inl (QuoteGeneration ''Azure IMDS returned an empty TD quote'')
          else Inr (EvTdx \<lparr>te_quote = q, pck_cert_uri = None, te_hcl_runtime_data = Some (az_var_data Z hcl)\<rparr>)))))))"

definition azure_tdx_probe :: "tee_machine \<Rightarrow> ('hcl, 'td, 'cert) az_lib \<Rightarrow> bool" where
  "azure_tdx_probe M Z \<longleftrightarrow>
     path_exists M ''/dev/tpmrm0'' \<and>
     (case az_stored_report Z of
        Inl _ \<Rightarrow> False
      | Inr bs \<Rightarrow> (case az_hcl Z bs of Inl _ \<Rightarrow> False | Inr hcl \<Rightarrow> az_report_type Z hcl = HclTdx))"

definition azure_tdx_derive_key :: "bytes \<Rightarrow> TeeProviderError + bytes" where
  "azure_tdx_derive_key _ =
     Inl (NotAvailable ''Azure TDX CVMs expose no guest sealing-key primitive through the paravisor'')"

definition azure_tdx_provider :: "tee_machine \<Rightarrow> evidence_json \<Rightarrow> ('hcl, 'td, 'cert) az_lib \<Rightarrow> TeeProvider" where
  "azure_tdx_provider M J Z =
     (adapter_provider J (Some Tdx) (\<lambda>rd. Some (azure_tdx_generate_evidence Z rd)) (azure_tdx_probe M Z))
       \<lparr>derive_key := azure_tdx_derive_key\<rparr>"

definition HCL_HEADER_SIZE :: nat where "HCL_HEADER_SIZE = 32"

definition snp_report_bytes :: "('hcl, 'td, 'cert) az_lib \<Rightarrow> bytes \<Rightarrow> TeeProviderError + bytes" where
  "snp_report_bytes Z bs =
     (if HCL_HEADER_SIZE + az_snp_report_size Z \<le> length bs
      then Inr (take (az_snp_report_size Z) (drop HCL_HEADER_SIZE bs))
      else Inl (QuoteGeneration ''HCL report too short for an SNP report''))"

definition fetch_certificates :: "('hcl, 'td, 'cert) az_lib \<Rightarrow> TeeProviderError + SevSnpCertificate list" where
  "fetch_certificates Z =
     bind_result (map_err (\<lambda>e. QuoteGeneration (''IMDS THIM request failed: '' @ e)) (az_certs Z)) (\<lambda>(vcek_pem, chain_pem).
     bind_result (map_err (\<lambda>e. QuoteGeneration (''invalid VCEK: '' @ e)) (az_vcek Z vcek_pem)) (\<lambda>vcek.
     bind_result (map_err (\<lambda>e. QuoteGeneration (''invalid AMD chain: '' @ e)) (az_cert_chain Z chain_pem)) (\<lambda>(ask, ark).
     bind_result (map_err QuoteGeneration (az_to_der Z vcek)) (\<lambda>dv.
     bind_result (map_err QuoteGeneration (az_to_der Z ask)) (\<lambda>da.
     bind_result (map_err QuoteGeneration (az_to_der Z ark)) (\<lambda>dr.
       Inr [\<lparr>certificate_type = Vcek, der = dv\<rparr>, \<lparr>certificate_type = Ask, der = da\<rparr>,
            \<lparr>certificate_type = Ark, der = dr\<rparr>]))))))"

definition azure_snp_generate_evidence :: "('hcl, 'td, 'cert) az_lib \<Rightarrow> bytes \<Rightarrow> TeeProviderError + AttestationEvidence" where
  "azure_snp_generate_evidence Z rd =
     (if length rd \<noteq> 64 then Inl (QuoteGeneration ''report_data must be 64 bytes'')
      else
        bind_result (map_err (\<lambda>e. QuoteGeneration (''vTPM HCL report failed: '' @ e)) (az_report Z rd)) (\<lambda>bs.
        bind_result (snp_report_bytes Z bs) (\<lambda>rep.
        bind_result (map_err (\<lambda>e. QuoteGeneration (''invalid HCL report: '' @ e)) (az_hcl Z bs)) (\<lambda>hcl.
        if az_report_type Z hcl \<noteq> HclSnp then Inl (QuoteGeneration ''Azure HCL report is not an SEV-SNP report'')
        else
          bind_result (fetch_certificates Z) (\<lambda>certs.
            Inr (EvSevSnp \<lparr>se_report = rep, se_certificate_table = certs, vcek_cert_uri = None,
                   se_hcl_runtime_data = Some (az_var_data Z hcl)\<rparr>))))))"

fun certificate_type_of :: "FirmwareCertType \<Rightarrow> SevSnpCertificateType" where
  "certificate_type_of FwArk = Ark"
| "certificate_type_of FwAsk = Ask"
| "certificate_type_of FwVcek = Vcek"
| "certificate_type_of FwVlek = Vlek"
| "certificate_type_of FwCrl = Crl"
| "certificate_type_of FwEmpty = OtherCertificate ''empty''"
| "certificate_type_of (FwOther guid) = OtherCertificate guid"

definition snp_generate_evidence ::
    "tee_build \<Rightarrow> tee_machine \<Rightarrow> ('hcl, 'td, 'cert) az_lib \<Rightarrow> bytes \<Rightarrow> TeeProviderError + AttestationEvidence" where
  "snp_generate_evidence b M Z rd =
     (if feature_sev_snp b \<and> os_linux b then
        (case snp_open M of
           Inl e \<Rightarrow>
             if feature_azure_vtpm b \<and> path_exists M ''/dev/tpmrm0'' then azure_snp_generate_evidence Z rd
             else Inl (NotAvailable e)
         | Inr _ \<Rightarrow>
             bind_result (map_err QuoteGeneration (snp_ext_report M rd)) (\<lambda>(rep, table).
             bind_result (ok_or (QuoteGeneration ''SNP_GET_EXT_REPORT returned no AMD certificate table'') table) (\<lambda>t.
               Inr (EvSevSnp \<lparr>se_report = rep,
                      se_certificate_table = map (\<lambda>(c, d). \<lparr>certificate_type = certificate_type_of c, der = d\<rparr>) t,
                      vcek_cert_uri = None, se_hcl_runtime_data = None\<rparr>))))
      else Inl (NotAvailable ''sev_snp feature not supported on this platform or not enabled at compile time''))"

definition snp_available :: "tee_build \<Rightarrow> tee_machine \<Rightarrow> bool" where
  "snp_available b M \<longleftrightarrow>
     feature_sev_snp b \<and> os_linux b \<and>
     (\<not> isl (snp_open M) \<or> (feature_azure_vtpm b \<and> path_exists M ''/dev/tpmrm0''))"

definition snp_provider :: "tee_build \<Rightarrow> tee_machine \<Rightarrow> evidence_json \<Rightarrow> ('hcl, 'td, 'cert) az_lib \<Rightarrow> TeeProvider" where
  "snp_provider b M J Z = adapter_provider J (Some SevSnp) (\<lambda>rd. Some (snp_generate_evidence b M Z rd)) (snp_available b M)"

definition nitro_generate_evidence :: "tee_build \<Rightarrow> tee_machine \<Rightarrow> bytes \<Rightarrow> TeeProviderError + AttestationEvidence" where
  "nitro_generate_evidence b M rd =
     (if feature_aws_nitro b then
        (if nsm_fd M < 0 then Inl NotInitialised
         else case nsm_process M rd of
             NsmAttestation document \<Rightarrow> Inr (EvAwsNitro document)
           | NsmError e \<Rightarrow> Inl (QuoteGeneration (''NSM Error: '' @ e))
           | NsmOther \<Rightarrow> Inl (QuoteGeneration ''Unexpected NSM response''))
      else Inl (NotAvailable ''AWS Nitro feature not enabled at compile time''))"

definition nitro_available :: "tee_build \<Rightarrow> tee_machine \<Rightarrow> bool" where
  "nitro_available b M \<longleftrightarrow> feature_aws_nitro b \<and> path_exists M ''/dev/nsm''"

definition nitro_provider :: "tee_build \<Rightarrow> tee_machine \<Rightarrow> evidence_json \<Rightarrow> TeeProvider" where
  "nitro_provider b M J =
     adapter_provider J (Some QuoteType.AwsNitro) (\<lambda>rd. Some (nitro_generate_evidence b M rd)) (nitro_available b M)"

text \<open>NVIDIA: a fixture in a debug build with the mock feature, otherwise one line from a local agent.\<close>

definition MAX_AGENT_RESPONSE_BYTES :: nat where "MAX_AGENT_RESPONSE_BYTES = 2 * 1024 * 1024"

definition parse_agent_response :: "tee_machine \<Rightarrow> bytes \<Rightarrow> TeeProviderError + bytes" where
  "parse_agent_response M resp =
     (if MAX_AGENT_RESPONSE_BYTES < length resp \<or> resp = [] \<or> last resp \<noteq> 0x0A
      then Inl (QuoteGeneration ''NVIDIA SDK agent response exceeded its size limit or was unterminated'')
      else
        bind_result (map_err (\<lambda>e. QuoteGeneration (''invalid agent response: '' @ e)) (agent_json M resp)) (\<lambda>r.
        if agent_version r \<noteq> 1
        then Inl (Config (''unsupported NVIDIA SDK agent protocol version '' @ show_nat (unat (agent_version r))))
        else
          bind_result (map_err (\<lambda>e. QuoteGeneration (''invalid quote hex: '' @ e)) (m_unhex M (quote_hex r))) (\<lambda>q.
          if q = [] \<or> MAX_AGENT_RESPONSE_BYTES < length q
          then Inl (QuoteGeneration ''NVIDIA SDK agent returned an empty or oversized quote'')
          else Inr q)))"

definition read_until :: "byte \<Rightarrow> bytes \<Rightarrow> bytes" where
  "read_until d bs = takeWhile (\<lambda>x. x \<noteq> d) bs @ take 1 (dropWhile (\<lambda>x. x \<noteq> d) bs)"

definition fetch_nvidia_quote :: "tee_build \<Rightarrow> tee_machine \<Rightarrow> bytes \<Rightarrow> TeeProviderError + bytes" where
  "fetch_nvidia_quote b M rd =
     (if \<not> os_unix b
      then Inl (NotAvailable ''the NVIDIA SDK-agent Unix socket is supported only on Unix platforms'')
      else
        bind_result (ok_or (NotAvailable ''set OPENHTTPA_NVIDIA_ATTESTATION_SOCKET to the NVIDIA SDK agent socket'')
          (env_var M ''OPENHTTPA_NVIDIA_ATTESTATION_SOCKET'')) (\<lambda>socket_path.
        bind_result (map_err (\<lambda>e. NotAvailable (''NVIDIA SDK agent unavailable: '' @ e)) (agent_connect M socket_path)) (\<lambda>_.
        bind_result (map_err (\<lambda>e. Driver (''cannot configure agent socket: '' @ e)) (agent_timeouts M)) (\<lambda>_.
        bind_result (map_err (\<lambda>e. QuoteGeneration (''cannot encode agent request: '' @ e))
          (agent_send M 1 (m_hex M rd))) (\<lambda>_.
        bind_result (map_err (\<lambda>e. Driver (''cannot send agent request: '' @ e)) (agent_newline M)) (\<lambda>_.
        bind_result (map_err (\<lambda>e. Driver (''cannot read agent response: '' @ e)) (agent_reply M (m_hex M rd))) (\<lambda>bs.
          parse_agent_response M (read_until 0x0A (take (MAX_AGENT_RESPONSE_BYTES + 1) bs)))))))))"

definition nvidia_fixture :: "bytes \<Rightarrow> bytes" where
  "nvidia_fixture rd =
     str_bytes ''NV-Hopper-RIM-v1'' @ replicate 32 0x55 @ replicate 32 0x77 @ replicate 32 0x99 @
     str_bytes ''GPU-H100-ID-80GB-MOCK'' @ str_bytes ''||REPORT_DATA:'' @ rd"

definition nvidia_generate_evidence :: "tee_build \<Rightarrow> tee_machine \<Rightarrow> bytes \<Rightarrow> TeeProviderError + AttestationEvidence" where
  "nvidia_generate_evidence b M rd =
     (if feature_mock b \<and> debug_assertions b then
        Inr (EvNvidiaGpu \<lparr>rim_report = nvidia_fixture rd,
               gpu_cert_uri = Some ''https://attestation.example.com/nvidia/gpu/cert/mock''\<rparr>)
      else
        bind_result (fetch_nvidia_quote b M rd) (\<lambda>q. Inr (EvNvidiaGpu \<lparr>rim_report = q, gpu_cert_uri = None\<rparr>)))"

definition nvidia_available :: "tee_build \<Rightarrow> tee_machine \<Rightarrow> bool" where
  "nvidia_available b M \<longleftrightarrow>
     (if feature_mock b \<and> debug_assertions b then path_exists M ''/dev/nvidiactl'' \<or> path_exists M ''/dev/nvidia0''
      else os_unix b \<and> env_var M ''OPENHTTPA_NVIDIA_ATTESTATION_SOCKET'' \<noteq> None \<and>
           path_exists M ''/dev/nvidiactl'' \<and> path_exists M ''/dev/nvidia0'')"

definition nvidia_provider :: "tee_build \<Rightarrow> tee_machine \<Rightarrow> evidence_json \<Rightarrow> TeeProvider" where
  "nvidia_provider b M J =
     adapter_provider J (Some QuoteType.NvidiaGpu) (\<lambda>rd. Some (nvidia_generate_evidence b M rd)) (nvidia_available b M)"

definition tpm_generate_evidence :: "bytes \<Rightarrow> TeeProviderError + AttestationEvidence" where
  "tpm_generate_evidence rd =
     Inr (EvTpm \<lparr>tpm_quote = str_bytes ''TPM2.0-PCR-QUOTE-MOCK'' @ rd, pcr_values = [],
            aik_cert_uri = Some ''https://attestation.example.com/tpm/cert/mock''\<rparr>)"

definition tpm_available :: "tee_build \<Rightarrow> tee_machine \<Rightarrow> bool" where
  "tpm_available b M \<longleftrightarrow> os_linux b \<and> (path_exists M ''/dev/tpm0'' \<or> path_exists M ''/dev/tpmrm0'')"

definition tpm_provider :: "tee_build \<Rightarrow> tee_machine \<Rightarrow> evidence_json \<Rightarrow> TeeProvider" where
  "tpm_provider b M J =
     adapter_provider J (Some QuoteType.Tpm) (\<lambda>rd. Some (tpm_generate_evidence rd)) (tpm_available b M)"

definition sgx_generate_quote :: "tee_build \<Rightarrow> bytes \<Rightarrow> TeeProviderError + AttestQuote" where
  "sgx_generate_quote b _ =
     (if feature_sgx b
      then Inl (QuoteGeneration (''SGX enclave ECALL stub '' @ [CHR 0xE2, CHR 0x80, CHR 0x94] @ '' wire up your enclave binary''))
      else Inl (NotAvailable ''sgx feature not enabled at compile time''))"

definition sgx_available :: "tee_build \<Rightarrow> tee_machine \<Rightarrow> bool" where
  "sgx_available b M \<longleftrightarrow> feature_sgx b \<and> (path_exists M ''/dev/sgx_enclave'' \<or> path_exists M ''/dev/isgx'')"

definition sgx_derive_key :: "tee_build \<Rightarrow> bytes \<Rightarrow> TeeProviderError + bytes" where
  "sgx_derive_key b _ =
     (if feature_sgx b
      then Inl (Enclave (''SGX EGETKEY not available outside of trusted enclave context. '' @
             ''Compile with full SGX SDK to link FFI.''))
      else Inl (NotAvailable ''sgx feature not enabled at compile time''))"

definition sgx_provider :: "tee_build \<Rightarrow> tee_machine \<Rightarrow> TeeProvider" where
  "sgx_provider b M =
     \<lparr>provider_type = Some Sgx, generate_quote = (\<lambda>rd. Some (sgx_generate_quote b rd)),
      generate_quotes = default_generate_quotes (\<lambda>rd. Some (sgx_generate_quote b rd)), is_available = sgx_available b M,
      seal_data = default_seal_data, unseal_data = default_unseal_data, derive_key = sgx_derive_key b\<rparr>"

definition trustzone_generate_quote :: "tee_build \<Rightarrow> bytes \<Rightarrow> TeeProviderError + AttestQuote" where
  "trustzone_generate_quote b _ =
     (if feature_trustzone b
      then Inl (QuoteGeneration (''TrustZone TA stub '' @ [CHR 0xE2, CHR 0x80, CHR 0x94] @ '' configure your OP-TEE TA UUID''))
      else Inl (NotAvailable ''trustzone feature not enabled at compile time''))"

definition trustzone_available :: "tee_build \<Rightarrow> tee_machine \<Rightarrow> bool" where
  "trustzone_available b M \<longleftrightarrow> feature_trustzone b \<and> path_exists M ''/dev/tee0''"

definition trustzone_provider :: "tee_build \<Rightarrow> tee_machine \<Rightarrow> TeeProvider" where
  "trustzone_provider b M =
     \<lparr>provider_type = Some TrustZone, generate_quote = (\<lambda>rd. Some (trustzone_generate_quote b rd)),
      generate_quotes = default_generate_quotes (\<lambda>rd. Some (trustzone_generate_quote b rd)),
      is_available = trustzone_available b M, seal_data = default_seal_data, unseal_data = default_unseal_data,
      derive_key = default_derive_key\<rparr>"

subsection \<open>The simulated provider\<close>

record MockTeeProvider =
  override_type :: "QuoteType option"

definition is_real_hardware_type :: "QuoteType \<Rightarrow> bool" where
  "is_real_hardware_type t \<longleftrightarrow>
     t \<in> {Tdx, SevSnp, Sgx, QuoteType.Tpm, QuoteType.NvidiaGpu, TrustZone}"

definition is_mock_allowed :: "tee_machine \<Rightarrow> bool" where
  "is_mock_allowed M \<longleftrightarrow>
     env_var M ''OPENHTTPA_ALLOW_MOCK_HARDWARE'' = Some ''1'' \<or> env_var M ''OpenHTTPA_ALLOW_MOCK_HARDWARE'' = Some ''1''"

definition mock_env_type :: "tee_machine \<Rightarrow> QuoteType" where
  "mock_env_type M = parse_quote_type (case env_var M ''OPENHTTPA_MOCK_TEE_TYPE'' of Some s \<Rightarrow> s | None \<Rightarrow> ''mock'')"

definition mock_default :: "tee_build \<Rightarrow> tee_machine \<Rightarrow> MockTeeProvider option" where
  "mock_default b M =
     (if \<not> debug_build b \<and> is_real_hardware_type (mock_env_type M) \<and> \<not> is_mock_allowed M then None
      else Some \<lparr>override_type = None\<rparr>)"

definition with_override :: "tee_build \<Rightarrow> tee_machine \<Rightarrow> QuoteType \<Rightarrow> MockTeeProvider option" where
  "with_override b M t =
     (if \<not> debug_build b \<and> is_real_hardware_type t \<and> \<not> is_mock_allowed M then None
      else Some \<lparr>override_type = Some t\<rparr>)"

definition simulate_failure :: "tee_machine \<Rightarrow> TeeProviderError + unit" where
  "simulate_failure M =
     (case env_var M ''OPENHTTPA_MOCK_FAILURE'' of
        None \<Rightarrow> Inr ()
      | Some s \<Rightarrow>
          if s = ''driver'' then Inl (Driver ''Simulated driver failure'')
          else if s = ''enclave'' then Inl (Enclave ''Simulated enclave crash'')
          else if s = ''config'' then Inl (Config ''Simulated platform misconfiguration'')
          else if s = ''not_available'' then Inl (NotAvailable ''Simulated hardware missing'')
          else Inr ())"

definition mock_quote_type :: "tee_build \<Rightarrow> tee_machine \<Rightarrow> MockTeeProvider \<Rightarrow> QuoteType option" where
  "mock_quote_type b M p =
     (case override_type p of
        Some t \<Rightarrow> Some t
      | None \<Rightarrow>
          if \<not> debug_build b \<and> is_real_hardware_type (mock_env_type M) \<and> \<not> is_mock_allowed M then None
          else Some (mock_env_type M))"

definition mock_evidence :: "bytes \<Rightarrow> QuoteType \<Rightarrow> AttestationEvidence" where
  "mock_evidence digest t =
     (case t of
        Tdx \<Rightarrow> EvTdx \<lparr>te_quote = digest, pck_cert_uri = Some ''https://mock.attestation/intel/tdx/pck'', te_hcl_runtime_data = None\<rparr>
      | SevSnp \<Rightarrow> EvSevSnp \<lparr>se_report = digest, se_certificate_table = [],
                     vcek_cert_uri = Some ''https://mock.attestation/amd/snp/vcek'', se_hcl_runtime_data = None\<rparr>
      | QuoteType.Tpm \<Rightarrow> EvTpm \<lparr>tpm_quote = digest, pcr_values = [(0, replicate 48 0)],
                     aik_cert_uri = Some ''https://mock.attestation/tpm/aik''\<rparr>
      | QuoteType.NvidiaGpu \<Rightarrow> EvNvidiaGpu \<lparr>rim_report = digest, gpu_cert_uri = Some ''https://mock.attestation/nvidia/gpu/cert''\<rparr>
      | _ \<Rightarrow> EvMock digest)"

definition mock_generate_evidence ::
    "tee_build \<Rightarrow> tee_machine \<Rightarrow> MockTeeProvider \<Rightarrow> bytes \<Rightarrow> (TeeProviderError + AttestationEvidence) option" where
  "mock_generate_evidence b M p rd =
     (case simulate_failure M of
        Inl e \<Rightarrow> Some (Inl e)
      | Inr _ \<Rightarrow> map_option (\<lambda>t. Inr (mock_evidence (m_sha384 M rd) t)) (mock_quote_type b M p))"

definition mock_seal_data :: "bytes \<Rightarrow> TeeProviderError + bytes" where
  "mock_seal_data plaintext = Inr (str_bytes ''MOCK_SEAL:'' @ plaintext)"

definition mock_unseal_data :: "bytes \<Rightarrow> TeeProviderError + bytes" where
  "mock_unseal_data c =
     (if prefix (str_bytes ''MOCK_SEAL:'') c then Inr (drop (length ''MOCK_SEAL:'') c)
      else Inl (Enclave ''Invalid mock sealed data''))"

definition mock_derive_key :: "tee_machine \<Rightarrow> bytes \<Rightarrow> TeeProviderError + bytes" where
  "mock_derive_key M ctxt =
     ok_or (Enclave ''HKDF expansion failed for mock key derivation'')
       (m_hkdf M (str_bytes ''mock_salt'') (str_bytes ''MOCK_HARDWARE_SECRET_KEY_1234567890'') ctxt)"

definition mock_provider :: "tee_build \<Rightarrow> tee_machine \<Rightarrow> evidence_json \<Rightarrow> MockTeeProvider \<Rightarrow> TeeProvider" where
  "mock_provider b M J p =
     (adapter_provider J (mock_quote_type b M p) (mock_generate_evidence b M p) (\<not> isl (simulate_failure M)))
       \<lparr>seal_data := mock_seal_data, unseal_data := mock_unseal_data, derive_key := mock_derive_key M\<rparr>"

subsection \<open>Combining and wrapping providers\<close>

record CompositeTeeProvider =
  providers :: "TeeProvider list"

fun composite_quotes ::
    "TeeProvider list \<Rightarrow> bytes \<Rightarrow> (TeeProviderError + AttestQuote list) option" where
  "composite_quotes [] rd = Some (Inr [])"
| "composite_quotes (p # ps) rd =
     (case generate_quote p rd of
        None \<Rightarrow> None
      | Some (Inl e) \<Rightarrow> Some (Inl e)
      | Some (Inr q) \<Rightarrow> map_option (\<lambda>r. bind_result r (\<lambda>qs. Inr (q # qs))) (composite_quotes ps rd))"

definition no_providers :: TeeProviderError where
  "no_providers = NotAvailable ''no providers in composite''"

definition composite_provider :: "CompositeTeeProvider \<Rightarrow> TeeProvider" where
  "composite_provider c =
     \<lparr>provider_type = (case providers c of [] \<Rightarrow> Some (QuoteType.Unknown ''composite'') | p # _ \<Rightarrow> provider_type p),
      generate_quote = (\<lambda>rd. case providers c of [] \<Rightarrow> Some (Inl no_providers) | p # _ \<Rightarrow> generate_quote p rd),
      generate_quotes = composite_quotes (providers c),
      is_available = list_ex is_available (providers c),
      seal_data = (\<lambda>x. case providers c of [] \<Rightarrow> Inl no_providers | p # _ \<Rightarrow> seal_data p x),
      unseal_data = (\<lambda>x. case providers c of [] \<Rightarrow> Inl no_providers | p # _ \<Rightarrow> unseal_data p x),
      derive_key = (\<lambda>x. case providers c of [] \<Rightarrow> Inl no_providers | p # _ \<Rightarrow> derive_key p x)\<rparr>"

definition hardware_report_data :: "(bytes \<Rightarrow> bytes) \<Rightarrow> bytes \<Rightarrow> bytes" where
  "hardware_report_data sha256 rd = sha256 rd @ replicate (64 - length (sha256 rd)) 0"

definition restore_qudd :: "bytes \<Rightarrow> AttestQuote \<Rightarrow> AttestQuote" where
  "restore_qudd rd q = q\<lparr>qudd := rd\<rparr>"

definition maa_provider :: "(bytes \<Rightarrow> bytes) \<Rightarrow> TeeProvider \<Rightarrow> TeeProvider" where
  "maa_provider sha256 inner =
     inner\<lparr>generate_quote := (\<lambda>rd. map_option (\<lambda>r. bind_result r (\<lambda>q. Inr (restore_qudd rd q)))
               (generate_quote inner (hardware_report_data sha256 rd))),
           generate_quotes := (\<lambda>rd. map_option (\<lambda>r. bind_result r (\<lambda>qs. Inr (map (restore_qudd rd) qs)))
               (generate_quotes inner (hardware_report_data sha256 rd)))\<rparr>"

subsection \<open>Selecting a provider\<close>

text \<open>Hardware providers are unit structures; a selection names one of them or a simulated one.\<close>

datatype ProviderKind =
    NvidiaGpuTeeProvider | TdxTeeProvider | SevSnpTeeProvider | AwsNitroTeeProvider | SgxTeeProvider
  | TpmTeeAdapter | TrustZoneTeeProvider | SimulatedProvider MockTeeProvider

record TeeConfig =
  allow_mock :: bool
  preferred_type :: "string option"

definition tee_config_default :: "tee_build \<Rightarrow> TeeConfig" where
  "tee_config_default b = \<lparr>allow_mock = debug_build b, preferred_type = None\<rparr>"

fun kind_enabled :: "tee_build \<Rightarrow> ProviderKind \<Rightarrow> bool" where
  "kind_enabled b NvidiaGpuTeeProvider = feature_nvidia_gpu b"
| "kind_enabled b TdxTeeProvider = feature_tdx b"
| "kind_enabled b SevSnpTeeProvider = feature_sev_snp b"
| "kind_enabled b AwsNitroTeeProvider = feature_aws_nitro b"
| "kind_enabled b SgxTeeProvider = feature_sgx b"
| "kind_enabled b TpmTeeAdapter = feature_tpm b"
| "kind_enabled b TrustZoneTeeProvider = feature_trustzone b"
| "kind_enabled b (SimulatedProvider _) = feature_mock b"

fun provider_of ::
    "tee_build \<Rightarrow> tee_machine \<Rightarrow> evidence_json \<Rightarrow> ('hcl, 'td, 'cert) az_lib \<Rightarrow> ProviderKind \<Rightarrow> TeeProvider" where
  "provider_of b M J Z NvidiaGpuTeeProvider = nvidia_provider b M J"
| "provider_of b M J Z TdxTeeProvider = tdx_provider b M J"
| "provider_of b M J Z SevSnpTeeProvider = snp_provider b M J Z"
| "provider_of b M J Z AwsNitroTeeProvider = nitro_provider b M J"
| "provider_of b M J Z SgxTeeProvider = sgx_provider b M"
| "provider_of b M J Z TpmTeeAdapter = tpm_provider b M J"
| "provider_of b M J Z TrustZoneTeeProvider = trustzone_provider b M"
| "provider_of b M J Z (SimulatedProvider p) = mock_provider b M J p"

fun kind_available :: "tee_build \<Rightarrow> tee_machine \<Rightarrow> ProviderKind \<Rightarrow> bool" where
  "kind_available b M NvidiaGpuTeeProvider = nvidia_available b M"
| "kind_available b M TdxTeeProvider = tdx_available b M"
| "kind_available b M SevSnpTeeProvider = snp_available b M"
| "kind_available b M AwsNitroTeeProvider = nitro_available b M"
| "kind_available b M SgxTeeProvider = sgx_available b M"
| "kind_available b M TpmTeeAdapter = tpm_available b M"
| "kind_available b M TrustZoneTeeProvider = trustzone_available b M"
| "kind_available b M (SimulatedProvider p) = (\<not> isl (simulate_failure M))"

definition detected_kinds :: "tee_build \<Rightarrow> tee_machine \<Rightarrow> ProviderKind list" where
  "detected_kinds b M =
     filter (\<lambda>k. kind_enabled b k \<and> kind_available b M k)
       [NvidiaGpuTeeProvider, TdxTeeProvider, SevSnpTeeProvider, AwsNitroTeeProvider, SgxTeeProvider, TpmTeeAdapter,
        TrustZoneTeeProvider]"

definition select_hardware :: "tee_build \<Rightarrow> ProviderKind \<Rightarrow> string \<Rightarrow> TeeProviderError + ProviderKind" where
  "select_hardware b k name =
     (if kind_enabled b k then Inr k else Inl (NotAvailable (name @ '' feature not enabled'')))"

definition select_by_type ::
    "tee_build \<Rightarrow> tee_machine \<Rightarrow> string \<Rightarrow> bool \<Rightarrow> (TeeProviderError + ProviderKind) option" where
  "select_by_type b M t mock_ok =
     (if t = ''sgx'' then Some (select_hardware b SgxTeeProvider ''SGX'')
      else if t = ''tdx'' then Some (select_hardware b TdxTeeProvider ''TDX'')
      else if t = ''sev_snp'' \<or> t = ''snp'' then Some (select_hardware b SevSnpTeeProvider ''SEV-SNP'')
      else if t = ''aws_nitro'' \<or> t = ''nitro'' then Some (select_hardware b AwsNitroTeeProvider ''AWS Nitro'')
      else if t = ''trustzone'' then Some (select_hardware b TrustZoneTeeProvider ''TrustZone'')
      else if t = ''tpm'' then Some (select_hardware b TpmTeeAdapter ''TPM'')
      else if t = ''nvidia_gpu'' \<or> t = ''nvidia'' \<or> t = ''hopper'' then Some (select_hardware b NvidiaGpuTeeProvider ''NVIDIA GPU'')
      else if t = ''mock'' then
        (if \<not> mock_ok then Some (Inl (Config ''mock provider selection requires explicit allow_mock''))
         else if \<not> debug_build b then Some (Inl (Config ''mock provider selection is forbidden in release builds''))
         else if feature_mock b then map_option (\<lambda>p. Inr (SimulatedProvider p)) (mock_default b M)
         else Some (Inl (NotAvailable ''Mock feature not enabled'')))
      else Some (Inl (Config (''Unknown TEE provider type: '' @ t))))"

text \<open>The second component lists the reasons reported to the registered fallback hooks.\<close>

definition detect_best_provider ::
    "tee_build \<Rightarrow> tee_machine \<Rightarrow> TeeConfig \<Rightarrow> (TeeProviderError + ProviderKind) option \<times> string list" where
  "detect_best_provider b M cfg =
     (if allow_mock cfg \<and> \<not> debug_build b
      then (Some (Inl (Config ''mock attestation is forbidden in release builds'')), [])
      else case env_var M ''OPENHTTPA_TEE_PROVIDER'' of
          Some t \<Rightarrow> (select_by_type b M t (allow_mock cfg), [])
        | None \<Rightarrow>
            (case preferred_type cfg of
               Some t \<Rightarrow> (select_by_type b M t (allow_mock cfg), [])
             | None \<Rightarrow>
                 (case detected_kinds b M of
                    k # _ \<Rightarrow> (Some (Inr k), [])
                  | [] \<Rightarrow>
                      if feature_mock b \<and> allow_mock cfg
                      then (map_option (\<lambda>p. Inr (SimulatedProvider p)) (mock_default b M),
                            [''No hardware TEE detected; falling back to MockTeeProvider.''])
                      else (Some (Inl (NotAvailable ''No hardware TEE detected and Mock is disabled'')), []))))"

definition detect_all_providers ::
    "tee_build \<Rightarrow> tee_machine \<Rightarrow> TeeConfig \<Rightarrow> (TeeProviderError + ProviderKind list) option \<times> string list" where
  "detect_all_providers b M cfg =
     (if allow_mock cfg \<and> \<not> debug_build b
      then (Some (Inl (Config ''mock attestation is forbidden in release builds'')), [])
      else if detected_kinds b M \<noteq> [] then (Some (Inr (detected_kinds b M)), [])
      else if feature_mock b then
        (if allow_mock cfg
         then (map_option (\<lambda>p. Inr [SimulatedProvider p]) (mock_default b M),
               [''No hardware TEE detected for federation; falling back to MockTeeProvider.''])
         else (Some (Inl (NotAvailable ''No hardware TEE detected for federation and Mock is disabled'')), []))
      else (Some (Inl (NotAvailable ''No hardware TEE detected for federation and Mock feature is not available'')), []))"

subsection \<open>The collateral cache of the provider crate\<close>

definition str_contains :: "string \<Rightarrow> string \<Rightarrow> bool" where
  "str_contains s pat = list_ex (prefix pat) (suffixes s)"

definition fetch_simulated :: "string \<Rightarrow> string + bytes" where
  "fetch_simulated uri =
     (if str_contains uri ''mock'' then Inr (replicate 1024 0xAA)
      else Inl (''URI not supported in simulation: '' @ uri))"

definition simulated_cache_get ::
    "(string \<times> bytes) list \<Rightarrow> string \<Rightarrow> (string + bytes) \<times> (string \<times> bytes) list" where
  "simulated_cache_get c uri =
     (case map_of c uri of
        Some data \<Rightarrow> (Inr data, c)
      | None \<Rightarrow>
          (case fetch_simulated uri of
             Inl e \<Rightarrow> (Inl e, c)
           | Inr data \<Rightarrow> (Inr data, hm_insert uri data c)))"

section \<open>Quotes carry what they were asked for\<close>

lemma qudd_to_quote [simp]: "qudd (to_quote J e rd) = rd"
  by (cases e) (auto simp: raw_quote_def split: option.splits)

lemma adapter_quote_Inr_iff:
  "adapter_quote J gen rd = Some (Inr q) \<longleftrightarrow> (\<exists>e. gen rd = Some (Inr e) \<and> q = to_quote J e rd)"
  by (auto simp: adapter_quote_def bind_result_Inr_iff)

lemma default_generate_quotes_Inr_iff:
  "default_generate_quotes g rd = Some (Inr qs) \<longleftrightarrow> (\<exists>q. g rd = Some (Inr q) \<and> qs = [q])"
  by (auto simp: default_generate_quotes_def bind_result_Inr_iff)

lemmas provider_simps = adapter_provider_def adapter_quote_Inr_iff default_generate_quotes_Inr_iff

lemma list_all2_in_set2: "list_all2 P xs ys \<Longrightarrow> y \<in> set ys \<Longrightarrow> \<exists>x\<in>set xs. P x y"
  by (induction rule: list_all2_induct) auto

lemma composite_quotes_Inr_iff:
  "composite_quotes ps rd = Some (Inr qs) \<longleftrightarrow> list_all2 (\<lambda>p q. generate_quote p rd = Some (Inr q)) ps qs"
  by (induction ps arbitrary: qs)
    (auto simp: list_all2_Cons1 bind_result_Inr_iff split: option.splits sum.splits)

text \<open>
  The interface the handshake relies on: every quote a provider returns, alone or in a list, carries the
  requested report data as its user data, which every hardware verifier compares first.
\<close>

locale bound_provider =
  fixes p :: TeeProvider
  assumes quote_bound: "generate_quote p rd = Some (Inr q) \<Longrightarrow> qudd q = rd"
    and quotes_bound: "generate_quotes p rd = Some (Inr qs) \<Longrightarrow> q \<in> set qs \<Longrightarrow> qudd q = rd"
begin

lemma refused_for_other_report_data:
  assumes "generate_quotes p rd = Some (Inr qs)" and "q \<in> set qs" and "rd' \<noteq> rd"
  shows "tdx_verify dbg A Q clock v q rd' \<noteq> Inr r" and "snp_verify amd dbg A S sv q rd' \<noteq> Inr r"
    and "nvidia_gpu_verify md q rd' \<noteq> Inr r"
proof -
  have "qudd q \<noteq> rd'" using quotes_bound [OF assms(1,2)] assms(3) by simp
  then show "tdx_verify dbg A Q clock v q rd' \<noteq> Inr r" and "snp_verify amd dbg A S sv q rd' \<noteq> Inr r"
    and "nvidia_gpu_verify md q rd' \<noteq> Inr r"
    by (auto dest: tdx_verify_Inr snp_verify_Inr simp: nvidia_gpu_verify_def)
qed

end

locale bound_providers =
  fixes ps :: "TeeProvider list"
  assumes all_bound: "p \<in> set ps \<Longrightarrow> bound_provider p"

sublocale bound_providers \<subseteq> composite: bound_provider "composite_provider \<lparr>providers = ps\<rparr>"
proof
  fix rd q
  assume "generate_quote (composite_provider \<lparr>providers = ps\<rparr>) rd = Some (Inr q)"
  then show "qudd q = rd"
    using all_bound by (cases ps) (auto simp: composite_provider_def intro: bound_provider.quote_bound)
next
  fix rd qs q
  assume "generate_quotes (composite_provider \<lparr>providers = ps\<rparr>) rd = Some (Inr qs)" and q: "q \<in> set qs"
  then have "list_all2 (\<lambda>p q. generate_quote p rd = Some (Inr q)) ps qs"
    by (simp add: composite_provider_def composite_quotes_Inr_iff)
  with q obtain p where "p \<in> set ps" and "generate_quote p rd = Some (Inr q)"
    by (auto dest: list_all2_in_set2)
  then show "qudd q = rd" using all_bound by (auto intro: bound_provider.quote_bound)
qed

interpretation tdx: bound_provider "tdx_provider b M J" for b M J
  by unfold_locales (auto simp: tdx_provider_def provider_simps)

interpretation azure_tdx: bound_provider "azure_tdx_provider M J Z" for M J Z
  by unfold_locales (auto simp: azure_tdx_provider_def provider_simps)

interpretation sev_snp: bound_provider "snp_provider b M J Z" for b M J Z
  by unfold_locales (auto simp: snp_provider_def provider_simps)

interpretation nitro: bound_provider "nitro_provider b M J" for b M J
  by unfold_locales (auto simp: nitro_provider_def provider_simps)

interpretation nvidia: bound_provider "nvidia_provider b M J" for b M J
  by unfold_locales (auto simp: nvidia_provider_def provider_simps)

interpretation tpm: bound_provider "tpm_provider b M J" for b M J
  by unfold_locales (auto simp: tpm_provider_def provider_simps)

interpretation sgx: bound_provider "sgx_provider b M" for b M
  by unfold_locales (auto simp: sgx_provider_def provider_simps sgx_generate_quote_def split: if_splits)

interpretation trustzone: bound_provider "trustzone_provider b M" for b M
  by unfold_locales (auto simp: trustzone_provider_def provider_simps trustzone_generate_quote_def split: if_splits)

interpretation simulated: bound_provider "mock_provider b M J p" for b M J p
  by unfold_locales (auto simp: mock_provider_def provider_simps)

interpretation maa_wrapped: bound_provider "maa_provider sha256 inner" for sha256 inner
  by unfold_locales (auto simp: maa_provider_def bind_result_Inr_iff restore_qudd_def)

lemma provider_of_bound: "bound_provider (provider_of b M J Z k)"
  by (cases k) (simp_all add: tdx.bound_provider_axioms sev_snp.bound_provider_axioms nitro.bound_provider_axioms
    nvidia.bound_provider_axioms tpm.bound_provider_axioms sgx.bound_provider_axioms trustzone.bound_provider_axioms
    simulated.bound_provider_axioms)

interpretation detected: bound_providers "map (provider_of b M J Z) ks" for b M J Z ks
  by (rule bound_providers.intro) (auto intro: provider_of_bound)

definition quote_well_typed :: "TeeProvider \<Rightarrow> bytes \<Rightarrow> AttestQuote \<Rightarrow> bool" where
  "quote_well_typed p rd q \<longleftrightarrow>
     provider_type p = Some (quote_type q) \<and> qudd q = rd \<and>
     (case quote_type q of
        SevSnp \<Rightarrow> format q = SevSnpBundleV1
      | Tdx \<Rightarrow> format q = Raw \<or> format q = TdxBundleV1
      | _ \<Rightarrow> format q = Raw)"

lemmas evidence_defs = tdx_generate_evidence_def azure_tdx_generate_evidence_def snp_generate_evidence_def
  azure_snp_generate_evidence_def nitro_generate_evidence_def nvidia_generate_evidence_def tpm_generate_evidence_def

lemma hardware_quote_typed:
  assumes "generate_quote (provider_of b M J Z k) rd = Some (Inr q)" and "\<And>p. k \<noteq> SimulatedProvider p"
  shows "quote_well_typed (provider_of b M J Z k) rd q"
  using assms
  by (cases k)
    (auto simp: quote_well_typed_def provider_simps tdx_provider_def snp_provider_def nitro_provider_def
      nvidia_provider_def tpm_provider_def sgx_provider_def trustzone_provider_def sgx_generate_quote_def
      trustzone_generate_quote_def evidence_defs raw_quote_def bind_result_Inr_iff
      split: if_splits NsmResponse.splits option.splits sum.splits)

lemma well_typed_restore_qudd:
  "quote_well_typed p rd q \<Longrightarrow> quote_well_typed p rd' (restore_qudd rd' q)"
  by (cases "quote_type q") (auto simp: quote_well_typed_def restore_qudd_def)

text \<open>
  C19. The composite of any selection of hardware providers, also behind the MAA wrapper, returns one quote
  per provider and in their order; each has its provider's type, the wire format the verifiers of that
  type read, and the requested report data as user data.
\<close>
theorem composite_quotes_well_typed:
  assumes "c = composite_provider \<lparr>providers = map (provider_of b M J Z) ks\<rparr>"
    and "generate_quotes c rd = Some (Inr qs) \<or> generate_quotes (maa_provider sha c) rd = Some (Inr qs)"
    and "\<And>p. SimulatedProvider p \<notin> set ks"
  shows "list_all2 (\<lambda>k q. quote_well_typed (provider_of b M J Z k) rd q) ks qs"
proof -
  have plain: "list_all2 (\<lambda>k q. quote_well_typed (provider_of b M J Z k) rd' q) ks qs'"
    if "generate_quotes c rd' = Some (Inr qs')" for rd' qs'
  proof -
    have "list_all2 (\<lambda>k q. generate_quote (provider_of b M J Z k) rd' = Some (Inr q)) ks qs'"
      using that by (simp add: assms(1) composite_provider_def composite_quotes_Inr_iff list_all2_map1)
    then show ?thesis
      by (rule list.rel_mono_strong) (use assms(3) in \<open>blast intro: hardware_quote_typed\<close>)
  qed
  from assms(2) show ?thesis
  proof
    assume "generate_quotes (maa_provider sha c) rd = Some (Inr qs)"
    then obtain qs' where "generate_quotes c (hardware_report_data sha rd) = Some (Inr qs')"
        and "qs = map (restore_qudd rd) qs'"
      by (auto simp: maa_provider_def bind_result_Inr_iff)
    with plain show ?thesis
      by (auto simp: list_all2_map2 intro: list.rel_mono_strong well_typed_restore_qudd)
  qed (rule plain)
qed

section \<open>Selection\<close>

lemma detected_kinds_sound:
  "k \<in> set (detected_kinds b M) \<Longrightarrow> kind_enabled b k \<and> kind_available b M k \<and> (\<forall>p. k \<noteq> SimulatedProvider p)"
  unfolding detected_kinds_def set_filter by auto

lemma select_by_type_release:
  assumes "\<not> debug_build b"
  shows "\<exists>r. select_by_type b M t mock_ok = Some r \<and>
           (\<forall>k. r = Inr k \<longrightarrow> kind_enabled b k \<and> (\<forall>p. k \<noteq> SimulatedProvider p))"
  using assms by (auto simp: select_by_type_def select_hardware_def)

text \<open>
  C14. In a release build no configuration, environment variable or device makes the detection return the
  simulated provider: what is selected is a hardware provider whose feature is enabled (and, without an
  explicit name, which is available: the first of the priority order, or all of them). Otherwise the
  detection reports an error; it never panics and never triggers the fallback hooks.
\<close>
theorem release_build_selects_hardware:
  assumes "\<not> debug_build b"
  shows "(\<exists>r. detect_best_provider b M cfg = (Some r, []) \<and>
            (\<forall>k. r = Inr k \<longrightarrow> kind_enabled b k \<and> (\<forall>p. k \<noteq> SimulatedProvider p) \<and>
               (env_var M ''OPENHTTPA_TEE_PROVIDER'' = None \<and> preferred_type cfg = None \<longrightarrow>
                  kind_available b M k \<and> (\<exists>ks. detected_kinds b M = k # ks)))) \<and>
         (\<exists>r. detect_all_providers b M cfg = (Some r, []) \<and>
            (\<forall>ks. r = Inr ks \<longrightarrow> ks \<noteq> [] \<and> ks = detected_kinds b M \<and>
               (\<forall>k\<in>set ks. kind_enabled b k \<and> kind_available b M k \<and> (\<forall>p. k \<noteq> SimulatedProvider p))))"
    (is "?best \<and> ?all")
proof
  have sel: "\<exists>r. select_by_type b M t m = Some r \<and> (\<forall>k. r = Inr k \<longrightarrow> kind_enabled b k \<and> (\<forall>p. k \<noteq> SimulatedProvider p))"
    for t m by (rule select_by_type_release [OF assms])
  show ?best
    using assms sel detected_kinds_sound [of _ b M]
    by (auto simp: detect_best_provider_def split: option.splits list.splits)
  show ?all
    using assms detected_kinds_sound [of _ b M] by (auto simp: detect_all_providers_def)
qed

section \<open>TDX evidence passes the verifier\<close>

text \<open>
  What Intel's quoting infrastructure promises for a trust domain the verifier's policy approves: collateral
  is available for the quote, DCAP verification succeeds and reports a TD with the embedded report data
  that is not in debug mode and has approved measurements.
\<close>

definition genuine_td_quote :: "('status, 'coll) dcap_lib \<Rightarrow> TdxDcapVerifier \<Rightarrow> u64 \<Rightarrow> bytes \<Rightarrow> bytes \<Rightarrow> bool" where
  "genuine_td_quote Q v now embedded qt \<longleftrightarrow>
     (\<exists>coll qp c td. dcap_client Q (pccs_url v) = None \<and> dcap_fetch Q (pccs_url v) qt = Inr coll \<and> tdx_quote_policy Q (tdx_policy v) now = Inr qp \<and>
        dcap_verify Q (dcap_root_der Q) (tdx_allow_debug (tdx_policy v)) qt coll now qp = Inr c \<and>
        dc_tee_type c = 0x81 \<and> dc_td10 c = Some td \<and> td_report_data td = embedded \<and> \<not> td_debug td \<and>
        td_mr_td td \<in> set (expected_mrtds (tdx_policy v)) \<and>
        (\<forall>(pin, actual)\<in>set (zip (expected_rtmrs (tdx_policy v)) (td_rtmrs td)). pin = None \<or> pin = Some actual))"

definition tdx_bundle_codec :: "evidence_json \<Rightarrow> ('status, 'coll) dcap_lib \<Rightarrow> bool" where
  "tdx_bundle_codec J Q \<longleftrightarrow> (\<forall>bu. \<exists>raw. tdx_bundle_json J bu = Some raw \<and> dcap_bundle Q raw = Inr bu)"

text \<open>The paravisor reports the requested data as \<open>user-data\<close> and hashes with the verifier's SHA-256.\<close>

definition paravisor_binds :: "hcl_lib \<Rightarrow> ('hcl, 'td, 'cert) az_lib \<Rightarrow> bytes \<Rightarrow> bool" where
  "paravisor_binds A Z rd \<longleftrightarrow>
     hcl_sha256 A = az_sha256 Z \<and>
     (\<forall>bs hcl. az_report Z rd = Inr bs \<and> az_hcl Z bs = Inr hcl \<longrightarrow>
        hcl_user_data A (az_var_data Z hcl) = Inr (Some (hcl_hex A rd)))"

lemma verify_tdx_bundle_complete:
  assumes "genuine_td_quote Q v now embedded (tdx_quote bu)" and "report_bound A embedded (tdx_hcl_runtime_data bu) rd"
    and "hcl_hex A (hcl_sha256 A (dcap_root_der Q)) = INTEL_SGX_ROOT_CA_SHA256"
  shows "\<exists>coll r. fetch_intel_collateral Q (pccs_url v) (tdx_quote bu) = Inr coll \<and>
           verify_tdx_bundle_with_collateral A Q bu coll rd now (tdx_policy v) = Inr r"
proof -
  obtain coll qp c td where g: "fetch_intel_collateral Q (pccs_url v) (tdx_quote bu) = Inr coll"
    "tdx_quote_policy Q (tdx_policy v) now = Inr qp"
    "dcap_verify Q (dcap_root_der Q) (tdx_allow_debug (tdx_policy v)) (tdx_quote bu) coll now qp = Inr c"
    "dc_tee_type c = 0x81" "dc_td10 c = Some td" "td_report_data td = embedded" "\<not> td_debug td"
    "td_mr_td td \<in> set (expected_mrtds (tdx_policy v))"
    "check_rtmrs A 0 (zip (expected_rtmrs (tdx_policy v)) (td_rtmrs td)) = Inr ()"
    using assms(1) unfolding genuine_td_quote_def check_rtmrs_iff by (auto simp: fetch_intel_collateral_def)
  have "\<exists>x. tdx_binding A bu td rd = Inr x"
    using assms(2) g(6) by (auto simp: tdx_binding_def report_bound_def bind_result_Inr_iff split: option.splits)
  with g assms(3) show ?thesis by (auto simp: verify_tdx_bundle_with_collateral_def)
qed

lemma tdx_evidence_accepted:
  assumes "genuine_td_quote Q v now embedded (te_quote e)" and "report_bound A embedded (te_hcl_runtime_data e) rd"
    and "hcl_hex A (hcl_sha256 A (dcap_root_der Q)) = INTEL_SGX_ROOT_CA_SHA256" and "tdx_bundle_codec J Q"
  shows "\<exists>r. tdx_verify dbg A Q (Some now) v (to_quote J (EvTdx e) rd) rd = Inr r"
proof -
  let ?bu = "\<lparr>tdx_quote = te_quote e, tdx_hcl_runtime_data = te_hcl_runtime_data e\<rparr>"
  have "decode_tdx_bundle dbg Q (to_quote J (EvTdx e) rd) = Inr ?bu"
  proof (cases "te_hcl_runtime_data e")
    case (Some rt)
    obtain raw where "tdx_bundle_json J ?bu = Some raw" and "dcap_bundle Q raw = Inr ?bu"
      using assms(4) unfolding tdx_bundle_codec_def by blast
    with Some show ?thesis by (simp add: decode_tdx_bundle_def)
  qed (simp add: decode_tdx_bundle_def raw_quote_def)
  with verify_tdx_bundle_complete [of Q v now embedded ?bu A rd] assms(1-3) show ?thesis
    by (auto simp: tdx_verify_def verify_detailed_def simp del: to_quote.simps)
qed

lemma azure_tdx_evidence_bound:
  assumes "azure_tdx_generate_evidence Z rd = Inr ev" and "paravisor_binds A Z rd"
  obtains e td where "ev = EvTdx e" and "az_td_quote Z td = Inr (te_quote e)"
    and "report_bound A (az_td_reportdata Z td) (te_hcl_runtime_data e) rd"
proof -
  obtain bs hcl td qt where "az_report Z rd = Inr bs" "az_hcl Z bs = Inr hcl" "az_td_quote Z td = Inr qt"
    "check_local_binding Z td (az_var_data Z hcl) = Inr ()"
    "ev = EvTdx \<lparr>te_quote = qt, pck_cert_uri = None, te_hcl_runtime_data = Some (az_var_data Z hcl)\<rparr>"
    using assms(1) by (auto simp: azure_tdx_generate_evidence_def bind_result_Inr_iff split: if_splits)
  with assms(2) show thesis
    by (intro that [of _ td])
      (auto simp: paravisor_binds_def report_bound_def hcl_bound_def check_local_binding_def split: if_splits)
qed

text \<open>
  C13. A quote that the direct TDX provider or the Azure provider generates for some report data is accepted by
  the TDX verifier for that report data, provided the quoting infrastructure returns genuine quotes of an
  approved trust domain, the paravisor reports the requested user data and the JSON codec round-trips.
  The provider's own check that the TD report hashes the runtime data is what makes the binding hold.
\<close>
theorem tdx_provider_quotes_accepted:
  assumes "generate_quote (tdx_provider b M J) rd = Some (Inr q) \<or> generate_quote (azure_tdx_provider M J Z) rd = Some (Inr q)"
    and "\<And>qt. tdx_driver M (m_hex M rd) = Inr qt \<Longrightarrow> genuine_td_quote Q v now rd qt"
    and "\<And>td qt. az_td_quote Z td = Inr qt \<Longrightarrow> genuine_td_quote Q v now (az_td_reportdata Z td) qt"
    and "paravisor_binds A Z rd" and "tdx_bundle_codec J Q"
    and "hcl_hex A (hcl_sha256 A (dcap_root_der Q)) = INTEL_SGX_ROOT_CA_SHA256"
  shows "\<exists>r. tdx_verify dbg A Q (Some now) v q rd = Inr r"
  using assms(1)
proof
  assume "generate_quote (tdx_provider b M J) rd = Some (Inr q)"
  then obtain qt where "tdx_driver M (m_hex M rd) = Inr qt"
    and "q = to_quote J (EvTdx \<lparr>te_quote = qt, pck_cert_uri = None, te_hcl_runtime_data = None\<rparr>) rd"
    by (auto simp: tdx_provider_def provider_simps tdx_generate_evidence_def bind_result_Inr_iff split: if_splits)
  then show ?thesis
    using assms(2,5,6) by (auto intro!: tdx_evidence_accepted simp: report_bound_def simp del: to_quote.simps)
next
  assume "generate_quote (azure_tdx_provider M J Z) rd = Some (Inr q)"
  then obtain ev where "azure_tdx_generate_evidence Z rd = Inr ev" and q: "q = to_quote J ev rd"
    by (auto simp: azure_tdx_provider_def provider_simps)
  then obtain e td where "ev = EvTdx e" "az_td_quote Z td = Inr (te_quote e)"
    "report_bound A (az_td_reportdata Z td) (te_hcl_runtime_data e) rd"
    using azure_tdx_evidence_bound assms(4) by metis
  then show ?thesis using q assms(3,5,6) by (auto intro: tdx_evidence_accepted simp del: to_quote.simps)
qed

section \<open>Simulated evidence\<close>

lemma mock_seal_round_trip: "mock_seal_data x = Inr c \<Longrightarrow> mock_unseal_data c = Inr x"
  by (auto simp: mock_seal_data_def mock_unseal_data_def)

lemma mock_quote_accepted_iff:
  assumes "generate_quote (mock_provider b M J p) rd = Some (Inr q)" and "sha384 D = m_sha384 M"
    and "\<And>bu. snp_bundle_json J bu \<noteq> Some (snp_report bu)" and "m_sha384 M rd \<noteq> []"
  shows "(\<exists>r. mock_verify False D now None q rd = Inr r) \<longleftrightarrow> mock_quote_type b M p \<noteq> Some SevSnp"
proof -
  obtain t where t: "mock_quote_type b M p = Some t" "q = to_quote J (mock_evidence (m_sha384 M rd) t) rd"
    using assms(1) by (auto simp: mock_provider_def provider_simps mock_generate_evidence_def split: sum.splits)
  show ?thesis
    using assms(2,4) assms(3) [of "\<lparr>snp_report = m_sha384 M rd, certificate_table = [], snp_hcl_runtime_data = None\<rparr>"] t(1)
    unfolding t(2)
    by (cases t) (auto simp: mock_evidence_def mock_verify_def verify_mock_quote_def raw_quote_def
        split: option.splits prod.splits)
qed

lemma nvidia_fixture_refused:
  assumes "generate_quote (nvidia_provider b M J) rd = Some (Inr q)" and "feature_mock b" and "debug_assertions b"
  shows "nvidia_gpu_verify md q rd = Inl SignatureInvalid"
  using assms by (auto simp: nvidia_provider_def provider_simps nvidia_generate_evidence_def nvidia_fixture_def raw_quote_def
      nvidia_gpu_verify_def str_bytes_def)

text \<open>The guard against impersonating hardware does not know Nitro enclaves.\<close>

lemma mock_may_impersonate_nitro:
  "with_override b M QuoteType.AwsNitro = Some \<lparr>override_type = Some QuoteType.AwsNitro\<rparr>"
  by (simp add: with_override_def is_real_hardware_type_def)

lemma simulated_cache_hit:
  "simulated_cache_get c uri = (Inr data, c') \<Longrightarrow> simulated_cache_get c' uri = (Inr data, c')"
  by (auto simp: simulated_cache_get_def split: option.splits sum.splits)

section \<open>Concrete instances\<close>

definition demo_build :: "bool \<Rightarrow> tee_build" where
  "demo_build debug =
     \<lparr>debug_assertions = debug, test_build = False, feature_mock = True, feature_nvidia_gpu = True, feature_tdx = True,
      feature_sev_snp = True, feature_azure_vtpm = True, feature_aws_nitro = True, feature_sgx = True,
      feature_tpm = True, feature_trustzone = True, os_linux = True, os_unix = True\<rparr>"

definition demo_machine :: tee_machine where
  "demo_machine =
     \<lparr>env_var = (\<lambda>_. None), path_exists = (\<lambda>f. f = ''/dev/tdx_guest'' \<or> f = ''/dev/tpm0''), m_sha384 = id,
      m_hkdf = (\<lambda>_ _ _. Some (replicate 32 1)), m_hex = bytes_str, m_unhex = (\<lambda>s. Inr (str_bytes s)),
      tdx_driver = (\<lambda>_. Inr (replicate 64 9)), snp_open = Inl ''no device'', snp_ext_report = (\<lambda>_. Inl ''no device''),
      nsm_fd = -1, nsm_process = (\<lambda>_. NsmOther), agent_connect = (\<lambda>_. Inl ''no agent''), agent_timeouts = Inr (),
      agent_send = (\<lambda>_ _. Inr ()), agent_newline = Inr (), agent_reply = (\<lambda>_. Inr []), agent_json = (\<lambda>_. Inl ''no JSON'')\<rparr>"

text \<open>A bundle as its quote's length in unary, the quote and a marked runtime datum.\<close>

definition demo_tdx_json :: "TdxQuoteBundleV1 \<Rightarrow> bytes" where
  "demo_tdx_json bu =
     replicate (length (tdx_quote bu)) 1 @ 0 # tdx_quote bu @
     (case tdx_hcl_runtime_data bu of None \<Rightarrow> [] | Some rt \<Rightarrow> 1 # rt)"

definition demo_tdx_unjson :: "bytes \<Rightarrow> TdxQuoteBundleV1" where
  "demo_tdx_unjson raw =
     (let n = length (takeWhile (\<lambda>x. x = 1) raw); rest = drop (Suc n) raw in
      \<lparr>tdx_quote = take n rest, tdx_hcl_runtime_data = (case drop n rest of [] \<Rightarrow> None | _ # rt \<Rightarrow> Some rt)\<rparr>)"

lemma demo_tdx_unjson_json: "demo_tdx_unjson (demo_tdx_json bu) = bu"
proof -
  have "takeWhile (\<lambda>x. x = 1) (demo_tdx_json bu) = replicate (length (tdx_quote bu)) 1"
    unfolding demo_tdx_json_def by (subst takeWhile_append2) auto
  then show ?thesis
    by (cases bu) (auto simp: demo_tdx_unjson_def demo_tdx_json_def Let_def split: option.splits list.splits)
qed

definition demo_json :: evidence_json where
  "demo_json = \<lparr>tdx_bundle_json = (\<lambda>bu. Some (demo_tdx_json bu)), snp_bundle_json = (\<lambda>_. Some [1])\<rparr>"

definition demo_az :: "(unit, unit, unit) az_lib" where
  "demo_az =
     \<lparr>az_report = (\<lambda>_. Inr []), az_stored_report = Inr [], az_hcl = (\<lambda>_. Inr ()), az_report_type = (\<lambda>_. HclTdx),
      az_var_data = (\<lambda>_. [7]), az_td_report = (\<lambda>_. Inr ()), az_td_reportdata = (\<lambda>_. replicate 32 0x44),
      az_td_quote = (\<lambda>_. Inr (replicate 32 0x44)), az_sha256 = (\<lambda>_. replicate 32 0x44), az_snp_report_size = 0,
      az_certs = Inl ''none'', az_vcek = (\<lambda>_. Inl ''none''), az_cert_chain = (\<lambda>_. Inl ''none''), az_to_der = (\<lambda>_. Inl ''none'')\<rparr>"

abbreviation demo_dcap_json :: "(string, unit) dcap_lib" where
  "demo_dcap_json \<equiv> demo_dcap\<lparr>dcap_bundle := (\<lambda>raw. Inr (demo_tdx_unjson raw))\<rparr>"

abbreviation demo_hcl_user :: hcl_lib where
  "demo_hcl_user \<equiv> demo_hcl\<lparr>hcl_user_data := (\<lambda>_. Inr (Some (hcl_hex demo_hcl (replicate 64 9))))\<rparr>"

lemma demo_genuine: "genuine_td_quote demo_dcap_json (tdx_verifier_new (cloud_host [[1]])) 1000 qt qt"
  by (simp add: genuine_td_quote_def tdx_quote_policy_def demo_dcap_def tdx_verifier_new_def cloud_host_def demo_td_def
      td_debug_def td_rtmrs_def)

theorem tdx_provider_quotes_accepted_witness:
  "\<exists>q q' r r'. generate_quote (tdx_provider (demo_build False) demo_machine demo_json) (replicate 64 9) = Some (Inr q) \<and>
     generate_quote (azure_tdx_provider demo_machine demo_json demo_az) (replicate 64 9) = Some (Inr q') \<and>
     tdx_verify (\<lambda>_. []) demo_hcl_user demo_dcap_json (Some 1000) (tdx_verifier_new (cloud_host [[1]])) q (replicate 64 9) = Inr r \<and>
     tdx_verify (\<lambda>_. []) demo_hcl_user demo_dcap_json (Some 1000) (tdx_verifier_new (cloud_host [[1]])) q' (replicate 64 9) = Inr r'"
proof -
  have direct: "\<exists>q. generate_quote (tdx_provider (demo_build False) demo_machine demo_json) (replicate 64 9) = Some (Inr q)"
    by (simp add: tdx_provider_def adapter_provider_def adapter_quote_def tdx_generate_evidence_def demo_build_def demo_machine_def)
  have azure: "\<exists>q. generate_quote (azure_tdx_provider demo_machine demo_json demo_az) (replicate 64 9) = Some (Inr q)"
    by (simp add: azure_tdx_provider_def adapter_provider_def adapter_quote_def azure_tdx_generate_evidence_def demo_az_def
        check_local_binding_def)
  note acc = tdx_provider_quotes_accepted [where b = "demo_build False" and M = demo_machine and J = demo_json and Z = demo_az
      and rd = "replicate 64 9" and Q = demo_dcap_json and v = "tdx_verifier_new (cloud_host [[1]])" and now = 1000
      and A = demo_hcl_user and dbg = "\<lambda>_. []"]
  have "\<exists>r. tdx_verify (\<lambda>_. []) demo_hcl_user demo_dcap_json (Some 1000) (tdx_verifier_new (cloud_host [[1]])) q (replicate 64 9) = Inr r"
    if "generate_quote (tdx_provider (demo_build False) demo_machine demo_json) (replicate 64 9) = Some (Inr q) \<or>
        generate_quote (azure_tdx_provider demo_machine demo_json demo_az) (replicate 64 9) = Some (Inr q)" for q
  proof (rule acc [OF that])
    show "genuine_td_quote demo_dcap_json (tdx_verifier_new (cloud_host [[1]])) 1000 (replicate 64 9) qt"
      if "tdx_driver demo_machine (m_hex demo_machine (replicate 64 9)) = Inr qt" for qt
      using that demo_genuine [of qt] by (simp add: demo_machine_def)
    show "genuine_td_quote demo_dcap_json (tdx_verifier_new (cloud_host [[1]])) 1000 (az_td_reportdata demo_az td) qt"
      if "az_td_quote demo_az td = Inr qt" for td qt
      using that demo_genuine [of qt] by (simp add: demo_az_def)
    show "paravisor_binds demo_hcl_user demo_az (replicate 64 9)"
      by (simp add: paravisor_binds_def demo_hcl_def demo_az_def)
    show "tdx_bundle_codec demo_json demo_dcap_json"
      by (simp add: tdx_bundle_codec_def demo_json_def demo_tdx_unjson_json)
    show "hcl_hex demo_hcl_user (hcl_sha256 demo_hcl_user (dcap_root_der demo_dcap_json)) = INTEL_SGX_ROOT_CA_SHA256"
      by (simp add: demo_hcl_def)
  qed
  with direct azure show ?thesis by blast
qed

theorem composite_quotes_well_typed_witness:
  "\<exists>qs. generate_quotes (composite_provider \<lparr>providers = map (provider_of (demo_build False) demo_machine demo_json demo_az)
         [TdxTeeProvider, TpmTeeAdapter]\<rparr>) [9] = Some (Inr qs) \<and>
     list_all2 (\<lambda>k q. quote_well_typed (provider_of (demo_build False) demo_machine demo_json demo_az k) [9] q)
       [TdxTeeProvider, TpmTeeAdapter] qs"
proof -
  let ?c = "composite_provider \<lparr>providers = map (provider_of (demo_build False) demo_machine demo_json demo_az)
         [TdxTeeProvider, TpmTeeAdapter]\<rparr>"
  obtain qs where qs: "generate_quotes ?c [9] = Some (Inr qs)"
    by (simp add: composite_provider_def tdx_provider_def tpm_provider_def adapter_provider_def adapter_quote_def
        tdx_generate_evidence_def tpm_generate_evidence_def demo_build_def demo_machine_def)
  have "list_all2 (\<lambda>k q. quote_well_typed (provider_of (demo_build False) demo_machine demo_json demo_az k) [9] q)
       [TdxTeeProvider, TpmTeeAdapter] qs"
    by (rule composite_quotes_well_typed [where c = ?c and sha = id]) (use qs in \<open>auto\<close>)
  with qs show ?thesis by blast
qed

theorem release_build_selects_hardware_witness:
  "\<not> debug_build (demo_build False) \<and>
   detect_best_provider (demo_build False) demo_machine (tee_config_default (demo_build False)) = (Some (Inr TdxTeeProvider), []) \<and>
   kind_available (demo_build False) demo_machine TdxTeeProvider"
proof -
  have rel: "\<not> debug_build (demo_build False)" by (simp add: debug_build_def demo_build_def)
  have best: "detect_best_provider (demo_build False) demo_machine (tee_config_default (demo_build False)) = (Some (Inr TdxTeeProvider), [])"
    by (simp add: detect_best_provider_def tee_config_default_def debug_build_def demo_build_def demo_machine_def
        detected_kinds_def nvidia_available_def tdx_available_def)
  have "kind_available (demo_build False) demo_machine TdxTeeProvider"
    using release_build_selects_hardware [OF rel, of demo_machine "tee_config_default (demo_build False)"] best
    by (auto simp: demo_machine_def tee_config_default_def)
  with rel best show ?thesis by simp
qed

end
