(* ===== verification/Fabric_Store.thy ===== *)
theory Fabric_Store
  imports Tee_Providers
begin

text \<open>
  The stores of the shared memory fabric, \<open>store.rs\<close> of crate \<open>openhttpa-fabric\<close>: encrypted key-value stores
  with version vectors, in memory, with embeddings, and over RocksDB, behind one interface. AES-GCM, HKDF,
  JSON, single-precision arithmetic and the database are arguments; a random nonce and the outcome of each
  input or output operation are arguments of the step that uses them.

  The development shows that stores stay within their capacity, that they implement a map of readable
  entries, that updates of one writer converge whatever their order, and that concurrent updates and
  ambiguous database keys lose data.
\<close>

section \<open>The model\<close>

subsection \<open>Entries and their encryption\<close>

datatype Topology = Global | Partitioned string

record SealedData =
  ciphertext :: bytes
  sealed_nonce :: bytes

type_synonym VersionVector = "(string \<times> u64) list"

datatype KeyDerivationPolicy = StartupCached | PerTransaction

record FabricEntry =
  entry_version :: VersionVector
  entry_data :: SealedData
  entry_provenance :: "ProvenanceChain option"

record fabric_lib =
  fl_hkdf :: hkdf_lib
  fl_encrypt :: "bytes \<Rightarrow> bytes \<Rightarrow> bytes \<Rightarrow> bytes option"
  fl_decrypt :: "bytes \<Rightarrow> bytes \<Rightarrow> bytes \<Rightarrow> bytes option"

fun show_hkdf_error :: "HkdfError \<Rightarrow> string" where
  "show_hkdf_error ExtractFailed = ''HKDF extract failed''"
| "show_hkdf_error ExpandFailed = ''HKDF expand failed (requested too many bytes)''"

definition entry_info :: "string \<Rightarrow> string \<Rightarrow> bytes" where
  "entry_info namespace key =
     str_bytes ''sdmf_entry_v1'' @ be32 (word_of_nat (length namespace)) @ str_bytes namespace @
     be32 (word_of_nat (length key)) @ str_bytes key"

definition derive_entry_key :: "fabric_lib \<Rightarrow> bytes \<Rightarrow> string \<Rightarrow> string \<Rightarrow> bytes \<Rightarrow> string + bytes" where
  "derive_entry_key F master_key namespace key nonce =
     bind_result (map_err (\<lambda>e. ''HKDF extract failed for SDMF entry key: '' @ show_hkdf_error e)
       (extract_sha384 (fl_hkdf F) nonce master_key)) (\<lambda>prk.
     map_err (\<lambda>e. ''HKDF expand failed for SDMF entry key: '' @ show_hkdf_error e)
       (expand (fl_hkdf F) prk (entry_info namespace key) 32))"

definition derive_master_key :: "TeeProvider \<Rightarrow> string + bytes" where
  "derive_master_key tee =
     map_err (\<lambda>e. ''TEE derive_key failed: '' @ show_tee_error e) (derive_key tee (str_bytes ''sdmf_rocksdb_master_key''))"

definition encrypt_entry ::
    "fabric_lib \<Rightarrow> bytes \<Rightarrow> bytes \<Rightarrow> string \<Rightarrow> string \<Rightarrow> bytes \<Rightarrow> string + bytes \<times> bytes" where
  "encrypt_entry F rnd master_key namespace key data =
     bind_result (derive_entry_key F master_key namespace key rnd) (\<lambda>ek.
     bind_result (ok_or ''AES-GCM encrypt failed: aead::Error'' (fl_encrypt F ek rnd data)) (\<lambda>c. Inr (rnd, c)))"

definition decrypt_entry :: "fabric_lib \<Rightarrow> bytes \<Rightarrow> string \<Rightarrow> string \<Rightarrow> SealedData \<Rightarrow> bytes option" where
  "decrypt_entry F master_key namespace key sealed =
     (case derive_entry_key F master_key namespace key (sealed_nonce sealed) of
        Inl _ \<Rightarrow> None
      | Inr ek \<Rightarrow> fl_decrypt F ek (sealed_nonce sealed) (ciphertext sealed))"

subsection \<open>The in-memory store\<close>

type_synonym 'v namespaces = "(string \<times> (string \<times> 'v) list) list"

definition dominates :: "VersionVector \<Rightarrow> VersionVector \<Rightarrow> bool" where
  "dominates existing version =
     list_all (\<lambda>(node, v). v \<le> (case map_of existing node of None \<Rightarrow> 0 | Some w \<Rightarrow> w)) version"

definition MAX_NAMESPACE_ENTRIES :: nat where "MAX_NAMESPACE_ENTRIES = 1000"

definition evict_smallest :: "(string \<times> 'v) list \<Rightarrow> (string \<times> 'v) list" where
  "evict_smallest ns =
     (if MAX_NAMESPACE_ENTRIES \<le> length ns then hm_remove (Min (set (map fst ns))) ns else ns)"

definition namespace_of :: "'v namespaces \<Rightarrow> string \<Rightarrow> (string \<times> 'v) list" where
  "namespace_of st namespace = (case map_of st namespace of Some ns \<Rightarrow> ns | None \<Rightarrow> [])"

text \<open>
  Both in-memory stores write an entry in the same way; \<open>entry_of\<close> reads the entry of a stored value and
  \<open>mk\<close> makes the value from an entry. The namespace is created first, and the eviction happens before
  the encryption.
\<close>

definition put_entry ::
    "('v \<Rightarrow> FabricEntry) \<Rightarrow> (FabricEntry \<Rightarrow> 'v) \<Rightarrow> fabric_lib \<Rightarrow> TeeProvider \<Rightarrow> bytes \<Rightarrow> 'v namespaces \<Rightarrow> string \<Rightarrow> string \<Rightarrow>
     bytes \<Rightarrow> VersionVector \<Rightarrow> ProvenanceChain option \<Rightarrow> bool \<times> 'v namespaces" where
  "put_entry entry_of mk F tee rnd st namespace key data version prov =
     (let ns = namespace_of st namespace; store = (\<lambda>ns'. hm_insert namespace ns' st) in
      if (case map_of ns key of Some v \<Rightarrow> dominates (entry_version (entry_of v)) version | None \<Rightarrow> False)
      then (False, store ns)
      else
        (let ns1 = evict_smallest ns in
         case derive_master_key tee of
           Inl _ \<Rightarrow> (False, store ns1)
         | Inr mk_key \<Rightarrow>
             (case encrypt_entry F rnd mk_key namespace key data of
                Inl _ \<Rightarrow> (False, store ns1)
              | Inr (nonce, c) \<Rightarrow>
                  (True, store (hm_insert key
                     (mk \<lparr>entry_version = version, entry_data = \<lparr>ciphertext = c, sealed_nonce = nonce\<rparr>,
                          entry_provenance = prov\<rparr>) ns1)))))"

definition get_entry ::
    "('v \<Rightarrow> FabricEntry) \<Rightarrow> fabric_lib \<Rightarrow> TeeProvider \<Rightarrow> 'v namespaces \<Rightarrow> string \<Rightarrow> string \<Rightarrow> bytes option" where
  "get_entry entry_of F tee st namespace key =
     (case map_of (namespace_of st namespace) key of
        None \<Rightarrow> None
      | Some v \<Rightarrow>
          (case derive_master_key tee of
             Inl _ \<Rightarrow> None
           | Inr mk_key \<Rightarrow> decrypt_entry F mk_key namespace key (entry_data (entry_of v))))"

definition delete_entry :: "'v namespaces \<Rightarrow> string \<Rightarrow> string \<Rightarrow> 'v namespaces" where
  "delete_entry st namespace key =
     (case map_of st namespace of None \<Rightarrow> st | Some ns \<Rightarrow> hm_insert namespace (hm_remove key ns) st)"

type_synonym KvStore = "FabricEntry namespaces"

definition kv_new :: KvStore where "kv_new = []"

definition kv_get :: "fabric_lib \<Rightarrow> TeeProvider \<Rightarrow> KvStore \<Rightarrow> string \<Rightarrow> string \<Rightarrow> bytes option" where
  "kv_get = get_entry id"

definition kv_put ::
    "fabric_lib \<Rightarrow> TeeProvider \<Rightarrow> bytes \<Rightarrow> KvStore \<Rightarrow> string \<Rightarrow> string \<Rightarrow> bytes \<Rightarrow> VersionVector \<Rightarrow> ProvenanceChain option \<Rightarrow>
     bool \<times> KvStore" where
  "kv_put = put_entry id id"

definition kv_delete :: "KvStore \<Rightarrow> string \<Rightarrow> string \<Rightarrow> KvStore" where
  "kv_delete = delete_entry"

text \<open>Snapshots: JSON, sealed by the TEE, written to a file; \<open>write\<close> and \<open>read\<close> are the file system's answers.\<close>

definition snapshot_to_disk ::
    "('s \<Rightarrow> string + bytes) \<Rightarrow> TeeProvider \<Rightarrow> (bytes \<Rightarrow> string + unit) \<Rightarrow> 's \<Rightarrow> (string + unit) \<times> bytes option" where
  "snapshot_to_disk json tee write st =
     (case bind_result (json st) (\<lambda>b. map_err show_tee_error (seal_data tee b)) of
        Inl e \<Rightarrow> (Inl e, None)
      | Inr sealed \<Rightarrow> (case write sealed of Inl e \<Rightarrow> (Inl e, None) | Inr _ \<Rightarrow> (Inr (), Some sealed)))"

definition restore_from_disk ::
    "(bytes \<Rightarrow> string + 's) \<Rightarrow> TeeProvider \<Rightarrow> string + bytes \<Rightarrow> 's \<Rightarrow> (string + unit) \<times> 's" where
  "restore_from_disk unjson tee read st =
     (case bind_result read (\<lambda>sealed. bind_result (map_err show_tee_error (unseal_data tee sealed)) unjson) of
        Inl e \<Rightarrow> (Inl e, st)
      | Inr st' \<Rightarrow> (Inr (), st'))"

subsection \<open>The vector store\<close>

text \<open>Single-precision arithmetic is an argument.\<close>

record 'f f32_ops =
  f_zero :: 'f
  f_tenth :: 'f
  f_mul :: "'f \<Rightarrow> 'f \<Rightarrow> 'f"
  f_add :: "'f \<Rightarrow> 'f \<Rightarrow> 'f"
  f_div :: "'f \<Rightarrow> 'f \<Rightarrow> 'f"
  f_sqrt :: "'f \<Rightarrow> 'f"
  f_less :: "'f \<Rightarrow> 'f \<Rightarrow> bool"
  f_eq :: "'f \<Rightarrow> 'f \<Rightarrow> bool"

type_synonym 'f VectorStore = "('f list \<times> FabricEntry) namespaces"

definition f_sum :: "'f f32_ops \<Rightarrow> 'f list \<Rightarrow> 'f" where
  "f_sum Fp xs = foldl (f_add Fp) (f_zero Fp) xs"

definition cosine_similarity :: "'f f32_ops \<Rightarrow> 'f list \<Rightarrow> 'f list \<Rightarrow> 'f" where
  "cosine_similarity Fp a b =
     (if length a \<noteq> length b \<or> a = [] then f_zero Fp
      else
        (let dot = f_sum Fp (map2 (f_mul Fp) a b);
             norm_a = f_sqrt Fp (f_sum Fp (map (\<lambda>x. f_mul Fp x x) a));
             norm_b = f_sqrt Fp (f_sum Fp (map (\<lambda>x. f_mul Fp x x) b)) in
         if f_eq Fp norm_a (f_zero Fp) \<or> f_eq Fp norm_b (f_zero Fp) then f_zero Fp
         else f_div Fp dot (f_mul Fp norm_a norm_b)))"

definition vector_get :: "fabric_lib \<Rightarrow> TeeProvider \<Rightarrow> 'f VectorStore \<Rightarrow> string \<Rightarrow> string \<Rightarrow> bytes option" where
  "vector_get = get_entry snd"

definition vector_put ::
    "'f f32_ops \<Rightarrow> fabric_lib \<Rightarrow> TeeProvider \<Rightarrow> bytes \<Rightarrow> 'f VectorStore \<Rightarrow> string \<Rightarrow> string \<Rightarrow> bytes \<Rightarrow> VersionVector \<Rightarrow>
     ProvenanceChain option \<Rightarrow> bool \<times> 'f VectorStore" where
  "vector_put Fp = put_entry snd (\<lambda>e. (replicate 128 (f_tenth Fp), e))"

definition vector_delete :: "'f VectorStore \<Rightarrow> string \<Rightarrow> string \<Rightarrow> 'f VectorStore" where
  "vector_delete = delete_entry"

text \<open>A stable sort by descending score.\<close>

fun insert_desc :: "'f f32_ops \<Rightarrow> string \<times> 'f \<times> bytes \<Rightarrow> (string \<times> 'f \<times> bytes) list \<Rightarrow> (string \<times> 'f \<times> bytes) list" where
  "insert_desc Fp x [] = [x]"
| "insert_desc Fp x (y # ys) =
     (if f_less Fp (fst (snd x)) (fst (snd y)) then y # insert_desc Fp x ys else x # y # ys)"

definition vector_search ::
    "'f f32_ops \<Rightarrow> fabric_lib \<Rightarrow> TeeProvider \<Rightarrow> 'f VectorStore \<Rightarrow> string \<Rightarrow> 'f list \<Rightarrow> nat \<Rightarrow> (string \<times> 'f \<times> bytes) list" where
  "vector_search Fp F tee st namespace embedding top_k =
     (case map_of st namespace of
        None \<Rightarrow> []
      | Some ns \<Rightarrow>
          (case derive_master_key tee of
             Inl _ \<Rightarrow> []
           | Inr mk_key \<Rightarrow>
               take top_k (foldr (insert_desc Fp)
                 (List.map_filter (\<lambda>(k, (emb, entry)).
                    map_option (\<lambda>pt. (k, cosine_similarity Fp embedding emb, pt))
                      (decrypt_entry F mk_key namespace k (entry_data entry))) ns) [])))"

subsection \<open>The RocksDB store\<close>

record 'f fabric_json =
  kv_json :: "KvStore \<Rightarrow> string + bytes"
  kv_unjson :: "bytes \<Rightarrow> string + KvStore"
  vec_json :: "'f VectorStore \<Rightarrow> string + bytes"
  vec_unjson :: "bytes \<Rightarrow> string + 'f VectorStore"
  entry_json :: "FabricEntry \<Rightarrow> bytes option"
  entry_unjson :: "bytes \<Rightarrow> FabricEntry option"

record RocksDbStore =
  rocks_db :: "(bytes \<times> bytes) list"
  derivation_policy :: KeyDerivationPolicy
  cached_key :: "bytes option"

definition rocks_new :: "string + (bytes \<times> bytes) list \<Rightarrow> KeyDerivationPolicy \<Rightarrow> TeeProvider \<Rightarrow> string + RocksDbStore" where
  "rocks_new opened policy tee =
     bind_result opened (\<lambda>db.
       case policy of
         StartupCached \<Rightarrow>
           bind_result (derive_master_key tee) (\<lambda>k.
             Inr \<lparr>rocks_db = db, derivation_policy = policy, cached_key = Some k\<rparr>)
       | PerTransaction \<Rightarrow> Inr \<lparr>rocks_db = db, derivation_policy = policy, cached_key = None\<rparr>)"

definition db_key :: "string \<Rightarrow> string \<Rightarrow> bytes" where
  "db_key namespace key = str_bytes (namespace @ '':'' @ key)"

definition rocks_master_key :: "TeeProvider \<Rightarrow> RocksDbStore \<Rightarrow> bytes option" where
  "rocks_master_key tee st =
     (case derivation_policy st of
        StartupCached \<Rightarrow> cached_key st
      | PerTransaction \<Rightarrow> (case derive_master_key tee of Inl _ \<Rightarrow> None | Inr k \<Rightarrow> Some k))"

text \<open>\<open>read_ok\<close> and \<open>write_ok\<close> say whether the database answers.\<close>

definition rocks_entry :: "'f fabric_json \<Rightarrow> bool \<Rightarrow> RocksDbStore \<Rightarrow> string \<Rightarrow> string \<Rightarrow> FabricEntry option" where
  "rocks_entry J read_ok st namespace key =
     (if read_ok then Option.bind (map_of (rocks_db st) (db_key namespace key)) (entry_unjson J) else None)"

definition rocks_get ::
    "'f fabric_json \<Rightarrow> fabric_lib \<Rightarrow> TeeProvider \<Rightarrow> bool \<Rightarrow> RocksDbStore \<Rightarrow> string \<Rightarrow> string \<Rightarrow> bytes option" where
  "rocks_get J F tee read_ok st namespace key =
     Option.bind (rocks_entry J read_ok st namespace key) (\<lambda>entry.
     Option.bind (rocks_master_key tee st) (\<lambda>mk_key. decrypt_entry F mk_key namespace key (entry_data entry)))"

definition rocks_put ::
    "'f fabric_json \<Rightarrow> fabric_lib \<Rightarrow> TeeProvider \<Rightarrow> bytes \<Rightarrow> bool \<Rightarrow> bool \<Rightarrow> RocksDbStore \<Rightarrow> string \<Rightarrow> string \<Rightarrow> bytes \<Rightarrow>
     VersionVector \<Rightarrow> ProvenanceChain option \<Rightarrow> bool \<times> RocksDbStore" where
  "rocks_put J F tee rnd read_ok write_ok st namespace key data version prov =
     (if (case rocks_entry J read_ok st namespace key of
            Some e \<Rightarrow> dominates (entry_version e) version | None \<Rightarrow> False)
      then (False, st)
      else case rocks_master_key tee st of
          None \<Rightarrow> (False, st)
        | Some mk_key \<Rightarrow>
            (case encrypt_entry F rnd mk_key namespace key data of
               Inl _ \<Rightarrow> (False, st)
             | Inr (nonce, c) \<Rightarrow>
                 (case entry_json J \<lparr>entry_version = version, entry_data = \<lparr>ciphertext = c, sealed_nonce = nonce\<rparr>,
                         entry_provenance = prov\<rparr> of
                    None \<Rightarrow> (False, st)
                  | Some b \<Rightarrow>
                      if write_ok then (True, st\<lparr>rocks_db := hm_insert (db_key namespace key) b (rocks_db st)\<rparr>)
                      else (False, st))))"

definition rocks_delete :: "bool \<Rightarrow> RocksDbStore \<Rightarrow> string \<Rightarrow> string \<Rightarrow> RocksDbStore" where
  "rocks_delete write_ok st namespace key =
     (if write_ok then st\<lparr>rocks_db := hm_remove (db_key namespace key) (rocks_db st)\<rparr> else st)"

subsection \<open>The store an agent sees\<close>

datatype 'f Backend = KvBackend KvStore | VectorBackend "'f VectorStore" | RocksBackend RocksDbStore

record 'f MemoryStore =
  topology :: Topology
  backend :: "'f Backend"
  ms_tee :: TeeProvider

record 'f fabric_env =
  fe_lib :: fabric_lib
  fe_json :: "'f fabric_json"
  fe_f32 :: "'f f32_ops"
  fe_rnd :: bytes
  fe_read_ok :: bool
  fe_write_ok :: bool

definition new_kv :: "Topology \<Rightarrow> TeeProvider \<Rightarrow> 'f MemoryStore" where
  "new_kv t tee = \<lparr>topology = t, backend = KvBackend kv_new, ms_tee = tee\<rparr>"

definition new_vector :: "Topology \<Rightarrow> TeeProvider \<Rightarrow> 'f MemoryStore" where
  "new_vector t tee = \<lparr>topology = t, backend = VectorBackend [], ms_tee = tee\<rparr>"

definition new_rocksdb ::
    "Topology \<Rightarrow> TeeProvider \<Rightarrow> string + (bytes \<times> bytes) list \<Rightarrow> KeyDerivationPolicy \<Rightarrow> string + 'f MemoryStore" where
  "new_rocksdb t tee opened policy =
     bind_result (rocks_new opened policy tee) (\<lambda>r. Inr \<lparr>topology = t, backend = RocksBackend r, ms_tee = tee\<rparr>)"

definition new_with_backend :: "Topology \<Rightarrow> 'f Backend \<Rightarrow> TeeProvider \<Rightarrow> 'f MemoryStore" where
  "new_with_backend t b tee = \<lparr>topology = t, backend = b, ms_tee = tee\<rparr>"

definition store_get :: "'f fabric_env \<Rightarrow> 'f MemoryStore \<Rightarrow> string \<Rightarrow> string \<Rightarrow> bytes option" where
  "store_get E m namespace key =
     (case backend m of
        KvBackend s \<Rightarrow> kv_get (fe_lib E) (ms_tee m) s namespace key
      | VectorBackend s \<Rightarrow> vector_get (fe_lib E) (ms_tee m) s namespace key
      | RocksBackend s \<Rightarrow> rocks_get (fe_json E) (fe_lib E) (ms_tee m) (fe_read_ok E) s namespace key)"

definition store_put ::
    "'f fabric_env \<Rightarrow> 'f MemoryStore \<Rightarrow> string \<Rightarrow> string \<Rightarrow> bytes \<Rightarrow> VersionVector \<Rightarrow> ProvenanceChain option \<Rightarrow> bool \<times> 'f MemoryStore" where
  "store_put E m namespace key data version prov =
     (case backend m of
        KvBackend s \<Rightarrow>
          map_prod id (\<lambda>s'. m\<lparr>backend := KvBackend s'\<rparr>) (kv_put (fe_lib E) (ms_tee m) (fe_rnd E) s namespace key data version prov)
      | VectorBackend s \<Rightarrow>
          map_prod id (\<lambda>s'. m\<lparr>backend := VectorBackend s'\<rparr>)
            (vector_put (fe_f32 E) (fe_lib E) (ms_tee m) (fe_rnd E) s namespace key data version prov)
      | RocksBackend s \<Rightarrow>
          map_prod id (\<lambda>s'. m\<lparr>backend := RocksBackend s'\<rparr>)
            (rocks_put (fe_json E) (fe_lib E) (ms_tee m) (fe_rnd E) (fe_read_ok E) (fe_write_ok E) s namespace key data version prov))"

definition store_delete :: "'f fabric_env \<Rightarrow> 'f MemoryStore \<Rightarrow> string \<Rightarrow> string \<Rightarrow> 'f MemoryStore" where
  "store_delete E m namespace key =
     (case backend m of
        KvBackend s \<Rightarrow> m\<lparr>backend := KvBackend (kv_delete s namespace key)\<rparr>
      | VectorBackend s \<Rightarrow> m\<lparr>backend := VectorBackend (vector_delete s namespace key)\<rparr>
      | RocksBackend s \<Rightarrow> m\<lparr>backend := RocksBackend (rocks_delete (fe_write_ok E) s namespace key)\<rparr>)"

definition store_search ::
    "'f fabric_env \<Rightarrow> 'f MemoryStore \<Rightarrow> string \<Rightarrow> 'f list \<Rightarrow> nat \<Rightarrow> (string \<times> 'f \<times> bytes) list" where
  "store_search E m namespace embedding top_k =
     (case backend m of
        KvBackend _ \<Rightarrow> []
      | VectorBackend s \<Rightarrow> vector_search (fe_f32 E) (fe_lib E) (ms_tee m) s namespace embedding top_k
      | RocksBackend _ \<Rightarrow> [])"

definition store_snapshot ::
    "'f fabric_env \<Rightarrow> (bytes \<Rightarrow> string + unit) \<Rightarrow> 'f MemoryStore \<Rightarrow> (string + unit) \<times> bytes option" where
  "store_snapshot E write m =
     (case backend m of
        KvBackend s \<Rightarrow> snapshot_to_disk (kv_json (fe_json E)) (ms_tee m) write s
      | VectorBackend s \<Rightarrow> snapshot_to_disk (vec_json (fe_json E)) (ms_tee m) write s
      | RocksBackend _ \<Rightarrow> (Inr (), None))"

definition store_restore :: "'f fabric_env \<Rightarrow> string + bytes \<Rightarrow> 'f MemoryStore \<Rightarrow> (string + unit) \<times> 'f MemoryStore" where
  "store_restore E read m =
     (case backend m of
        KvBackend s \<Rightarrow>
          map_prod id (\<lambda>s'. m\<lparr>backend := KvBackend s'\<rparr>) (restore_from_disk (kv_unjson (fe_json E)) (ms_tee m) read s)
      | VectorBackend s \<Rightarrow>
          map_prod id (\<lambda>s'. m\<lparr>backend := VectorBackend s'\<rparr>) (restore_from_disk (vec_unjson (fe_json E)) (ms_tee m) read s)
      | RocksBackend _ \<Rightarrow> (Inr (), m))"

section \<open>Stores implement a map of readable entries\<close>

lemma namespace_of_insert [simp]:
  "namespace_of (hm_insert n ns st) n' = (if n' = n then ns else namespace_of st n')"
  by (simp add: namespace_of_def)

lemma map_of_evict: "map_of (evict_smallest ns) k = (if MAX_NAMESPACE_ENTRIES \<le> length ns \<and> k = Min (set (map fst ns)) then None else map_of ns k)"
  by (simp add: evict_smallest_def)

text \<open>The encryption of this datum under this nonce succeeds and is undone by the decryption.\<close>

definition entry_codec_ok :: "fabric_lib \<Rightarrow> bytes \<Rightarrow> bytes \<Rightarrow> string \<Rightarrow> string \<Rightarrow> bytes \<Rightarrow> bool" where
  "entry_codec_ok F rnd mk_key namespace key data \<longleftrightarrow>
     (\<exists>ek c. derive_entry_key F mk_key namespace key rnd = Inr ek \<and> fl_encrypt F ek rnd data = Some c \<and>
        fl_decrypt F ek rnd c = Some data)"

definition aes_correct :: "fabric_lib \<Rightarrow> bool" where
  "aes_correct F \<longleftrightarrow> (\<forall>k n d c. fl_encrypt F k n d = Some c \<longrightarrow> fl_decrypt F k n c = Some d)"

lemma encrypt_entry_Inr_iff:
  "encrypt_entry F rnd mk_key namespace key data = Inr (nonce, c) \<longleftrightarrow>
     nonce = rnd \<and> (\<exists>ek. derive_entry_key F mk_key namespace key rnd = Inr ek \<and> fl_encrypt F ek rnd data = Some c)"
  by (auto simp: encrypt_entry_def bind_result_Inr_iff)

lemma decrypt_encrypted:
  assumes "aes_correct F" and "encrypt_entry F rnd mk_key namespace key data = Inr (nonce, c)"
  shows "decrypt_entry F mk_key namespace key \<lparr>ciphertext = c, sealed_nonce = nonce\<rparr> = Some data"
  using assms by (auto simp: aes_correct_def encrypt_entry_Inr_iff decrypt_entry_def)

definition rejects :: "('v \<Rightarrow> FabricEntry) \<Rightarrow> 'v namespaces \<Rightarrow> string \<Rightarrow> string \<Rightarrow> VersionVector \<Rightarrow> bool" where
  "rejects entry_of st namespace key version \<longleftrightarrow>
     (\<exists>v. map_of (namespace_of st namespace) key = Some v \<and> dominates (entry_version (entry_of v)) version)"

lemma put_entry_cases:
  assumes "put_entry entry_of mk F tee rnd st namespace key data version prov = (ok, st')"
  obtains
    (dominated) "\<not> ok" "rejects entry_of st namespace key version" "st' = hm_insert namespace (namespace_of st namespace) st"
  | (failed) "\<not> ok" "\<not> rejects entry_of st namespace key version"
      "st' = hm_insert namespace (evict_smallest (namespace_of st namespace)) st"
  | (stored) mk_key c where "ok" "\<not> rejects entry_of st namespace key version" "derive_master_key tee = Inr mk_key"
      "encrypt_entry F rnd mk_key namespace key data = Inr (rnd, c)"
      "st' = hm_insert namespace (hm_insert key
         (mk \<lparr>entry_version = version, entry_data = \<lparr>ciphertext = c, sealed_nonce = rnd\<rparr>, entry_provenance = prov\<rparr>)
         (evict_smallest (namespace_of st namespace))) st"
proof -
  have "(case map_of (namespace_of st namespace) key of Some v \<Rightarrow> dominates (entry_version (entry_of v)) version | None \<Rightarrow> False)
      = rejects entry_of st namespace key version"
    by (auto simp: rejects_def split: option.splits)
  with assms that show thesis
    by (auto simp: put_entry_def Let_def encrypt_entry_Inr_iff split: if_splits sum.splits prod.splits)
qed

definition evicted :: "'v namespaces \<Rightarrow> string \<Rightarrow> string \<Rightarrow> bool" where
  "evicted st namespace k \<longleftrightarrow>
     MAX_NAMESPACE_ENTRIES \<le> length (namespace_of st namespace) \<and> k = Min (set (map fst (namespace_of st namespace)))"

lemma get_entry_congruence:
  "map_of (namespace_of st' n) k = map_of (namespace_of st n) k \<Longrightarrow> get_entry entry_of F tee st' n k = get_entry entry_of F tee st n k"
  by (simp add: get_entry_def)

lemma get_after_put:
  assumes "put_entry entry_of mk F tee rnd st namespace key data version prov = (ok, st')" and "aes_correct F"
    and "\<And>e. entry_of (mk e) = e"
  shows "get_entry entry_of F tee st' n k =
     (if ok \<and> n = namespace \<and> k = key then Some data
      else if \<not> rejects entry_of st namespace key version \<and> n = namespace \<and> evicted st namespace k then None
      else get_entry entry_of F tee st n k)"
  using assms(1)
proof (cases rule: put_entry_cases)
  case dominated
  then show ?thesis by (simp add: get_entry_def)
next
  case failed
  then show ?thesis by (simp add: get_entry_def map_of_evict evicted_def)
next
  case (stored mk_key c)
  then show ?thesis
    using decrypt_encrypted [OF assms(2) stored(4)] assms(3) by (simp add: get_entry_def map_of_evict evicted_def)
qed

lemma get_after_delete:
  "get_entry entry_of F tee (delete_entry st namespace key) n k =
     (if n = namespace \<and> k = key then None else get_entry entry_of F tee st n k)"
  by (auto simp: get_entry_def delete_entry_def namespace_of_def split: option.splits)

text \<open>
  C16. Both in-memory stores implement a map from namespace and key to data. An accepted write makes
  exactly its datum readable under its key and removes at most the smallest key of a full namespace; a
  write refused because the stored version is at least as new changes nothing; a write that fails later
  can only lose that smallest key; a deletion removes exactly its key; a new key-value store is empty.
\<close>
theorem stores_refine_map:
  assumes "aes_correct F"
  shows "(\<forall>st namespace key data version prov ok st'. kv_put F tee rnd st namespace key data version prov = (ok, st') \<longrightarrow>
            (\<forall>n k. kv_get F tee st' n k =
               (if ok \<and> n = namespace \<and> k = key then Some data
                else if \<not> rejects id st namespace key version \<and> n = namespace \<and> evicted st namespace k then None
                else kv_get F tee st n k))) \<and>
         (\<forall>st namespace key data version prov ok st'. vector_put Fp F tee rnd st namespace key data version prov = (ok, st') \<longrightarrow>
            (\<forall>n k. vector_get F tee st' n k =
               (if ok \<and> n = namespace \<and> k = key then Some data
                else if \<not> rejects snd st namespace key version \<and> n = namespace \<and> evicted st namespace k then None
                else vector_get F tee st n k))) \<and>
         (\<forall>st namespace key n k. kv_get F tee (kv_delete st namespace key) n k =
            (if n = namespace \<and> k = key then None else kv_get F tee st n k)) \<and>
         (\<forall>st namespace key n k. vector_get F tee (vector_delete st namespace key) n k =
            (if n = namespace \<and> k = key then None else vector_get F tee st n k)) \<and>
         (\<forall>n k. kv_get F tee kv_new n k = None)"
proof (intro conjI allI impI, goal_cases)
  case 1
  then show ?case unfolding kv_put_def kv_get_def by (rule get_after_put [OF _ assms]) simp
next
  case 2
  then show ?case unfolding vector_put_def vector_get_def by (rule get_after_put [OF _ assms]) simp
qed (simp_all add: kv_get_def kv_delete_def vector_get_def vector_delete_def get_after_delete kv_new_def get_entry_def [of _ _ _ "[]"] namespace_of_def [of "[]"])

section \<open>Updates of one writer converge\<close>

primrec deliver_all :: "('i \<Rightarrow> 's \<Rightarrow> bytes \<Rightarrow> VersionVector \<Rightarrow> 's) \<Rightarrow> 's \<Rightarrow> ('i \<times> bytes \<times> VersionVector) list \<Rightarrow> 's" where
  "deliver_all upd s [] = s"
| "deliver_all upd s (u # us) = deliver_all upd (upd (fst u) s (fst (snd u)) (snd (snd u))) us"

text \<open>
  What replication relies on in a store, for one key: an update that the stored version dominates
  changes neither datum nor version, and any other update replaces both if the encryption works.
\<close>

locale versioned_store =
  fixes read :: "'s \<Rightarrow> bytes option"
    and version_of :: "'s \<Rightarrow> VersionVector option"
    and update :: "'i \<Rightarrow> 's \<Rightarrow> bytes \<Rightarrow> VersionVector \<Rightarrow> 's"
    and ready :: "'s \<Rightarrow> bool"
    and works :: "'i \<Rightarrow> bytes \<Rightarrow> bool"
  assumes update_dominated: "ready s \<Longrightarrow> works i d \<Longrightarrow> version_of s = Some w \<Longrightarrow> dominates w v \<Longrightarrow>
      read (update i s d v) = read s \<and> version_of (update i s d v) = version_of s"
    and update_fresh: "ready s \<Longrightarrow> works i d \<Longrightarrow> (\<And>w. version_of s = Some w \<Longrightarrow> \<not> dominates w v) \<Longrightarrow>
      read (update i s d v) = Some d \<and> version_of (update i s d v) = Some v"
    and update_ready: "ready s \<Longrightarrow> ready (update i s d v)"
begin

lemma newest_stays:
  assumes "\<forall>u\<in>set us. works (fst u) (fst (snd u)) \<and> (\<exists>n\<le>N. snd (snd u) = [(writer, n)])"
    and "read s = Some x" and "version_of s = Some [(writer, N)]" and "ready s"
  shows "read (deliver_all update s us) = Some x \<and> version_of (deliver_all update s us) = Some [(writer, N)]"
  using assms
proof (induction us arbitrary: s)
  case (Cons u us)
  let ?s = "update (fst u) s (fst (snd u)) (snd (snd u))"
  obtain n where n: "works (fst u) (fst (snd u))" "n \<le> N" "snd (snd u) = [(writer, n)]" using Cons.prems(1) by auto
  have "read ?s = Some x \<and> version_of ?s = Some [(writer, N)]"
    using update_dominated [OF Cons.prems(4) n(1) Cons.prems(3), of "snd (snd u)"] n Cons.prems(2,3) by (simp add: dominates_def)
  moreover have "ready ?s" by (rule update_ready [OF Cons.prems(4)])
  moreover have "\<forall>u\<in>set us. works (fst u) (fst (snd u)) \<and> (\<exists>n\<le>N. snd (snd u) = [(writer, n)])"
    using Cons.prems(1) by simp
  ultimately have "read (deliver_all update ?s us) = Some x \<and> version_of (deliver_all update ?s us) = Some [(writer, N)]"
    by (intro Cons.IH) simp_all
  then show ?case by simp
qed simp

lemma update_keeps_older:
  assumes "ready s" and "works i d" and "v = [(writer, n)]" and "n < N"
    and "\<forall>w. version_of s = Some w \<longrightarrow> \<not> dominates w [(writer, N)]" and "version_of (update i s d v) = Some w'"
  shows "\<not> dominates w' [(writer, N)]"
proof (cases "\<exists>w0. version_of s = Some w0 \<and> dominates w0 v")
  case True
  then obtain w0 where "version_of s = Some w0" and "dominates w0 v" by blast
  then have "version_of (update i s d v) = version_of s" using update_dominated [OF assms(1,2)] by blast
  then show ?thesis using assms(5,6) by simp
next
  case False
  then have "version_of (update i s d v) = Some v" using update_fresh [OF assms(1,2), of v] by blast
  then have "w' = [(writer, n)]" using assms(3,6) by simp
  then show ?thesis using assms(4) by (simp add: dominates_def)
qed

lemma newest_wins:
  assumes "\<forall>u\<in>set us. works (fst u) (fst (snd u)) \<and> (\<exists>n\<le>N. snd (snd u) = [(writer, n)] \<and> (n = N \<longrightarrow> fst (snd u) = x))"
    and "\<exists>u\<in>set us. snd (snd u) = [(writer, N)]" and "ready s"
    and "\<forall>w. version_of s = Some w \<longrightarrow> \<not> dominates w [(writer, N)]"
  shows "read (deliver_all update s us) = Some x \<and> version_of (deliver_all update s us) = Some [(writer, N)]"
  using assms
proof (induction us arbitrary: s)
  case (Cons u us)
  let ?s = "update (fst u) s (fst (snd u)) (snd (snd u))"
  obtain n where n: "works (fst u) (fst (snd u))" "n \<le> N" "snd (snd u) = [(writer, n)]" "n = N \<longrightarrow> fst (snd u) = x"
    using Cons.prems(1) by auto
  have rest: "\<forall>u\<in>set us. works (fst u) (fst (snd u)) \<and> (\<exists>n\<le>N. snd (snd u) = [(writer, n)] \<and> (n = N \<longrightarrow> fst (snd u) = x))"
    using Cons.prems(1) by simp
  have ready: "ready ?s" by (rule update_ready [OF Cons.prems(3)])
  have "read (deliver_all update ?s us) = Some x \<and> version_of (deliver_all update ?s us) = Some [(writer, N)]"
  proof (cases "n = N")
    case True
    then have "read ?s = Some x \<and> version_of ?s = Some [(writer, N)]"
      using update_fresh [OF Cons.prems(3) n(1), of "snd (snd u)"] Cons.prems(4) n(3,4) by simp
    then show ?thesis using newest_stays [of us N writer ?s x] rest ready by blast
  next
    case False
    then have lt: "n < N" using n(2) by simp
    have "\<exists>u\<in>set us. snd (snd u) = [(writer, N)]" using Cons.prems(2) False n(3) by auto
    then show ?thesis
      using Cons.IH [OF rest _ ready] update_keeps_older [OF Cons.prems(3) n(1,3) lt Cons.prems(4)] by blast
  qed
  then show ?case by simp
qed simp

end

definition stored_version :: "('v \<Rightarrow> FabricEntry) \<Rightarrow> 'v namespaces \<Rightarrow> string \<Rightarrow> string \<Rightarrow> VersionVector option" where
  "stored_version entry_of st namespace key = map_option (\<lambda>v. entry_version (entry_of v)) (map_of (namespace_of st namespace) key)"

definition put_works :: "fabric_lib \<Rightarrow> TeeProvider \<Rightarrow> string \<Rightarrow> string \<Rightarrow> bytes \<Rightarrow> bytes \<Rightarrow> bool" where
  "put_works F tee namespace key rnd data \<longleftrightarrow>
     (\<exists>mk_key. derive_master_key tee = Inr mk_key \<and> entry_codec_ok F rnd mk_key namespace key data)"

lemma rejects_iff: "rejects entry_of st namespace key v \<longleftrightarrow> (\<exists>w. stored_version entry_of st namespace key = Some w \<and> dominates w v)"
  by (auto simp: rejects_def stored_version_def)

lemma put_entry_dominated:
  assumes "rejects entry_of st namespace key version"
  shows "put_entry entry_of mk F tee rnd st namespace key data version prov =
           (False, hm_insert namespace (namespace_of st namespace) st)"
  using assms by (auto simp: put_entry_def rejects_def Let_def)

lemma put_entry_fresh:
  assumes "\<not> rejects entry_of st namespace key version" and "put_works F tee namespace key rnd data"
  obtains mk_key ek c where "derive_master_key tee = Inr mk_key" and "derive_entry_key F mk_key namespace key rnd = Inr ek"
    and "fl_decrypt F ek rnd c = Some data"
    and "put_entry entry_of mk F tee rnd st namespace key data version prov =
      (True, hm_insert namespace (hm_insert key
         (mk \<lparr>entry_version = version, entry_data = \<lparr>ciphertext = c, sealed_nonce = rnd\<rparr>, entry_provenance = prov\<rparr>)
         (evict_smallest (namespace_of st namespace))) st)"
proof -
  have nr: "\<not> (case map_of (namespace_of st namespace) key of Some v \<Rightarrow> dominates (entry_version (entry_of v)) version | None \<Rightarrow> False)"
    using assms(1) by (auto simp: rejects_def split: option.splits)
  obtain mk_key ek c where k: "derive_master_key tee = Inr mk_key" "derive_entry_key F mk_key namespace key rnd = Inr ek"
    "fl_encrypt F ek rnd data = Some c" "fl_decrypt F ek rnd c = Some data"
    using assms(2) by (auto simp: put_works_def entry_codec_ok_def)
  have enc: "encrypt_entry F rnd mk_key namespace key data = Inr (rnd, c)" using k by (simp add: encrypt_entry_def)
  show thesis by (rule that [OF k(1,2,4)]) (simp only: put_entry_def Let_def nr k(1) enc if_False sum.case prod.case)
qed

lemma memory_update_dominated:
  assumes "stored_version entry_of st namespace key = Some w" and "dominates w v"
    and "st' = snd (put_entry entry_of mk F tee rnd st namespace key d v prov)"
  shows "get_entry entry_of F tee st' namespace key = get_entry entry_of F tee st namespace key \<and>
         stored_version entry_of st' namespace key = stored_version entry_of st namespace key"
proof -
  have "rejects entry_of st namespace key v" unfolding rejects_iff using assms(1,2) by simp
  then have "st' = hm_insert namespace (namespace_of st namespace) st" using assms(3) by (simp add: put_entry_dominated)
  then show ?thesis by (simp add: get_entry_def stored_version_def)
qed

lemma memory_update_fresh:
  assumes "put_works F tee namespace key rnd d" and "\<And>w. stored_version entry_of st namespace key = Some w \<Longrightarrow> \<not> dominates w v"
    and "st' = snd (put_entry entry_of mk F tee rnd st namespace key d v prov)" and "\<And>e. entry_of (mk e) = e"
  shows "get_entry entry_of F tee st' namespace key = Some d \<and> stored_version entry_of st' namespace key = Some v"
proof -
  have nr: "\<not> rejects entry_of st namespace key v" unfolding rejects_iff using assms(2) by simp
  obtain mk_key ek c where k: "derive_master_key tee = Inr mk_key" "derive_entry_key F mk_key namespace key rnd = Inr ek"
      "fl_decrypt F ek rnd c = Some d"
    and st': "st' = hm_insert namespace (hm_insert key
         (mk \<lparr>entry_version = v, entry_data = \<lparr>ciphertext = c, sealed_nonce = rnd\<rparr>, entry_provenance = prov\<rparr>)
         (evict_smallest (namespace_of st namespace))) st"
    using put_entry_fresh [OF nr assms(1), of mk prov] assms(3) by (metis snd_conv)
  show ?thesis unfolding st' using k assms(4) by (simp add: get_entry_def stored_version_def decrypt_entry_def)
qed

interpretation kv: versioned_store
    "\<lambda>st. kv_get F tee st namespace key" "\<lambda>st. stored_version id st namespace key"
    "\<lambda>(rnd, prov) st d v. snd (kv_put F tee rnd st namespace key d v prov)" "\<lambda>_. True"
    "\<lambda>(rnd, prov) d. put_works F tee namespace key rnd d"
  for F tee namespace key
proof (unfold_locales, goal_cases)
  case (1 s i d w v)
  then show ?case
    unfolding kv_get_def kv_put_def by (cases i) (simp add: memory_update_dominated [OF 1(3,4) refl] del: not_None_eq)
next
  case (2 s i d v)
  then show ?case
    unfolding kv_get_def kv_put_def
    using memory_update_fresh [where entry_of = id and mk = id and rnd = "fst i" and prov = "snd i", OF _ _ refl] by (cases i) auto
qed simp

interpretation vec: versioned_store
    "\<lambda>st. vector_get F tee st namespace key" "\<lambda>st. stored_version snd st namespace key"
    "\<lambda>(rnd, prov) st d v. snd (vector_put Fp F tee rnd st namespace key d v prov)" "\<lambda>_. True"
    "\<lambda>(rnd, prov) d. put_works F tee namespace key rnd d"
  for Fp F tee namespace key
proof (unfold_locales, goal_cases)
  case (1 s i d w v)
  then show ?case
    unfolding vector_get_def vector_put_def by (cases i) (simp add: memory_update_dominated [OF 1(3,4) refl] del: not_None_eq)
next
  case (2 s i d v)
  then show ?case
    unfolding vector_get_def vector_put_def
    using memory_update_fresh [where entry_of = snd and mk = "\<lambda>e. (replicate 128 (f_tenth Fp), e)"
        and rnd = "fst i" and prov = "snd i", OF _ _ refl] by (cases i) auto
qed simp

definition json_correct :: "'f fabric_json \<Rightarrow> bool" where
  "json_correct J \<longleftrightarrow>
     (\<forall>e b. entry_json J e = Some b \<longrightarrow> entry_unjson J b = Some e) \<and>
     (\<forall>s b. kv_json J s = Inr b \<longrightarrow> kv_unjson J b = Inr s) \<and> (\<forall>s b. vec_json J s = Inr b \<longrightarrow> vec_unjson J b = Inr s)"

definition sealing_correct :: "TeeProvider \<Rightarrow> bool" where
  "sealing_correct tee \<longleftrightarrow> (\<forall>x c. seal_data tee x = Inr c \<longrightarrow> unseal_data tee c = Inr x)"

lemma rocks_master_key_update [simp]: "rocks_master_key tee (st\<lparr>rocks_db := x\<rparr>) = rocks_master_key tee st"
  by (cases "derivation_policy st") (simp_all add: rocks_master_key_def)

lemma rocks_master_key_put [simp]:
  "rocks_master_key tee (snd (rocks_put J F tee' rnd r w st namespace key d v prov)) = rocks_master_key tee st"
  by (simp add: rocks_put_def split: option.split sum.split prod.split)

lemma rocks_update_dominated:
  assumes "map_option entry_version (rocks_entry J True st namespace key) = Some w" and "dominates w v"
  shows "rocks_put J F tee rnd True wr st namespace key d v prov = (False, st)"
  using assms by (auto simp: rocks_put_def)

lemma rocks_update_fresh:
  assumes "rocks_master_key tee st = Some mk_key" and "entry_codec_ok F rnd mk_key namespace key d"
    and "json_correct J" and "\<And>e. entry_json J e \<noteq> None"
    and "\<And>w. map_option entry_version (rocks_entry J True st namespace key) = Some w \<Longrightarrow> \<not> dominates w v"
    and "st' = snd (rocks_put J F tee rnd True True st namespace key d v prov)"
  shows "rocks_get J F tee True st' namespace key = Some d \<and>
         map_option entry_version (rocks_entry J True st' namespace key) = Some v \<and> rocks_master_key tee st' = Some mk_key"
proof -
  obtain ek c where k: "derive_entry_key F mk_key namespace key rnd = Inr ek" "fl_encrypt F ek rnd d = Some c"
    "fl_decrypt F ek rnd c = Some d"
    using assms(2) by (auto simp: entry_codec_ok_def)
  let ?e = "\<lparr>entry_version = v, entry_data = \<lparr>ciphertext = c, sealed_nonce = rnd\<rparr>, entry_provenance = prov\<rparr>"
  obtain b where b: "entry_json J ?e = Some b" "entry_unjson J b = Some ?e"
    using assms(3) assms(4) [of ?e] unfolding json_correct_def by blast
  have enc: "encrypt_entry F rnd mk_key namespace key d = Inr (rnd, c)" using k by (simp add: encrypt_entry_def)
  have nr: "\<not> (case rocks_entry J True st namespace key of Some e \<Rightarrow> dominates (entry_version e) v | None \<Rightarrow> False)"
    using assms(5) by (auto split: option.splits)
  have "st' = st\<lparr>rocks_db := hm_insert (db_key namespace key) b (rocks_db st)\<rparr>"
    unfolding assms(6) by (simp add: rocks_put_def nr assms(1) enc b)
  then show ?thesis
    using assms(1) b k by (simp add: rocks_get_def rocks_entry_def decrypt_entry_def)
qed

text \<open>The store an agent sees satisfies the interface, whichever backend it has.\<close>

definition store_version :: "'f fabric_env \<Rightarrow> 'f MemoryStore \<Rightarrow> string \<Rightarrow> string \<Rightarrow> VersionVector option" where
  "store_version E m namespace key =
     (case backend m of
        KvBackend s \<Rightarrow> stored_version id s namespace key
      | VectorBackend s \<Rightarrow> stored_version snd s namespace key
      | RocksBackend s \<Rightarrow> map_option entry_version (rocks_entry (fe_json E) True s namespace key))"

definition store_ready :: "'f fabric_env \<Rightarrow> TeeProvider \<Rightarrow> bytes \<Rightarrow> 'f MemoryStore \<Rightarrow> bool" where
  "store_ready E tee mk_key m \<longleftrightarrow>
     ms_tee m = tee \<and> fe_read_ok E \<and> fe_write_ok E \<and> json_correct (fe_json E) \<and>
     (case backend m of
        RocksBackend s \<Rightarrow> rocks_master_key tee s = Some mk_key \<and> (\<forall>e. entry_json (fe_json E) e \<noteq> None)
      | _ \<Rightarrow> derive_master_key tee = Inr mk_key)"

lemma store_update_dominated:
  assumes "store_ready E tee mk_key m" and "store_version E m namespace key = Some w" and "dominates w v"
    and "m' = snd (store_put (E\<lparr>fe_rnd := rnd\<rparr>) m namespace key d v prov)"
  shows "store_get E m' namespace key = store_get E m namespace key \<and> store_version E m' namespace key = store_version E m namespace key"
proof (cases "backend m")
  case (KvBackend s)
  then show ?thesis
    using assms memory_update_dominated [of id s namespace key w v _ id "fe_lib E" tee rnd d prov]
    by (simp add: store_version_def store_get_def store_put_def kv_put_def kv_get_def store_ready_def)
next
  case (VectorBackend s)
  then show ?thesis
    using assms memory_update_dominated [of snd s namespace key w v _ _ "fe_lib E" tee rnd d prov]
    by (simp add: store_version_def store_get_def store_put_def vector_put_def vector_get_def store_ready_def)
next
  case (RocksBackend s)
  then show ?thesis
    using assms rocks_update_dominated [of "fe_json E" s namespace key w v]
    by (simp add: store_version_def store_get_def store_put_def store_ready_def)
qed

lemma store_update_fresh:
  assumes "store_ready E tee mk_key m" and "entry_codec_ok (fe_lib E) rnd mk_key namespace key d"
    and "\<And>w. store_version E m namespace key = Some w \<Longrightarrow> \<not> dominates w v"
    and "m' = snd (store_put (E\<lparr>fe_rnd := rnd\<rparr>) m namespace key d v prov)"
  shows "store_get E m' namespace key = Some d \<and> store_version E m' namespace key = Some v"
proof (cases "backend m")
  case (KvBackend s)
  then have "put_works (fe_lib E) tee namespace key rnd d" using assms(1,2) by (auto simp: put_works_def store_ready_def)
  then show ?thesis
    using KvBackend assms memory_update_fresh [of "fe_lib E" tee namespace key rnd d id s v _ id prov]
    by (simp add: store_version_def store_get_def store_put_def kv_put_def kv_get_def store_ready_def)
next
  case (VectorBackend s)
  then have "put_works (fe_lib E) tee namespace key rnd d" using assms(1,2) by (auto simp: put_works_def store_ready_def)
  then show ?thesis
    using VectorBackend assms
      memory_update_fresh [of "fe_lib E" tee namespace key rnd d snd s v _ "\<lambda>e. (replicate 128 (f_tenth (fe_f32 E)), e)" prov]
    by (simp add: store_version_def store_get_def store_put_def vector_put_def vector_get_def store_ready_def)
next
  case (RocksBackend s)
  then show ?thesis
    using assms rocks_update_fresh [of tee s mk_key "fe_lib E" rnd namespace key d "fe_json E" v _ prov]
    by (simp add: store_version_def store_get_def store_put_def store_ready_def)
qed

lemma store_put_ready:
  assumes "store_ready E tee mk_key m"
  shows "store_ready E tee mk_key (snd (store_put E' m namespace key d v prov))"
  using assms by (cases "backend m") (simp_all add: store_ready_def store_put_def)

interpretation store: versioned_store
    "\<lambda>m. store_get E m namespace key" "\<lambda>m. store_version E m namespace key"
    "\<lambda>(rnd, prov) m d v. snd (store_put (E\<lparr>fe_rnd := rnd\<rparr>) m namespace key d v prov)" "store_ready E tee mk_key"
    "\<lambda>(rnd, prov) d. entry_codec_ok (fe_lib E) rnd mk_key namespace key d"
  for E tee mk_key namespace key
proof (unfold_locales, goal_cases)
  case (1 s i d w v)
  then show ?case using store_update_dominated [OF 1(1,3,4) refl] by (cases i) simp
next
  case (2 s i d v)
  then show ?case using store_update_fresh [where rnd = "fst i" and prov = "snd i", OF 2(1) _ _ refl] by (cases i) simp
next
  case (3 s i d v)
  then show ?case by (cases i) (simp add: store_put_ready)
qed

section \<open>Capacity\<close>

definition namespaces_wf :: "'v namespaces \<Rightarrow> bool" where
  "namespaces_wf st \<longleftrightarrow> hm_wf st \<and> (\<forall>(n, ns)\<in>set st. hm_wf ns \<and> length ns \<le> MAX_NAMESPACE_ENTRIES)"

lemma namespaces_wf_namespace:
  "namespaces_wf st \<Longrightarrow> hm_wf (namespace_of st n) \<and> length (namespace_of st n) \<le> MAX_NAMESPACE_ENTRIES"
  by (auto simp: namespaces_wf_def namespace_of_def split: option.splits dest!: map_of_SomeD)

lemma namespaces_wf_insert:
  "namespaces_wf st \<Longrightarrow> hm_wf ns \<Longrightarrow> length ns \<le> MAX_NAMESPACE_ENTRIES \<Longrightarrow> namespaces_wf (hm_insert n ns st)"
  by (auto simp: namespaces_wf_def hm_insert_def hm_remove_def)

lemma evict_smallest_wf:
  assumes "hm_wf ns" and "length ns \<le> MAX_NAMESPACE_ENTRIES"
  shows "hm_wf (evict_smallest ns) \<and> length (evict_smallest ns) < MAX_NAMESPACE_ENTRIES"
proof (cases "MAX_NAMESPACE_ENTRIES \<le> length ns")
  case True
  then have "set (map fst ns) \<noteq> {}" by (auto simp: MAX_NAMESPACE_ENTRIES_def)
  then have "Min (set (map fst ns)) \<in> fst ` set ns" using Min_in [of "set (map fst ns)"] by simp
  then have "length (hm_remove (Min (set (map fst ns))) ns) < length ns" by (rule length_hm_remove_less)
  then show ?thesis using assms True by (simp add: evict_smallest_def)
qed (use assms in \<open>simp add: evict_smallest_def\<close>)

lemma put_entry_wf:
  assumes "namespaces_wf st"
  shows "namespaces_wf (snd (put_entry entry_of mk F tee rnd st namespace key data version prov))"
proof -
  let ?ns = "namespace_of st namespace"
  obtain ok st' where run: "put_entry entry_of mk F tee rnd st namespace key data version prov = (ok, st')" by (rule prod.exhaust)
  have ns: "hm_wf ?ns" "length ?ns \<le> MAX_NAMESPACE_ENTRIES" using namespaces_wf_namespace [OF assms] by blast+
  note ev = evict_smallest_wf [OF ns]
  from run have "namespaces_wf st'"
  proof (cases rule: put_entry_cases)
    case (stored mk_key c)
    have "length (hm_insert key v (evict_smallest ?ns)) \<le> MAX_NAMESPACE_ENTRIES" for v
      using ev length_hm_remove_le [of key "evict_smallest ?ns"] by (simp add: hm_insert_def)
    then show ?thesis unfolding stored(5) using ev by (intro namespaces_wf_insert [OF assms]) simp_all
  qed (use ns ev in \<open>auto intro: namespaces_wf_insert [OF assms]\<close>)
  then show ?thesis by (simp add: run)
qed

lemma delete_entry_wf:
  assumes "namespaces_wf st"
  shows "namespaces_wf (delete_entry st namespace key)"
proof (cases "map_of st namespace")
  case (Some ns)
  then have "hm_wf ns \<and> length ns \<le> MAX_NAMESPACE_ENTRIES"
    using namespaces_wf_namespace [OF assms, of namespace] by (simp add: namespace_of_def)
  then show ?thesis
    using Some length_hm_remove_le [of key ns] by (simp add: delete_entry_def namespaces_wf_insert [OF assms])
qed (simp add: delete_entry_def assms)

fun backend_wf :: "'f Backend \<Rightarrow> bool" where
  "backend_wf (KvBackend s) = namespaces_wf s"
| "backend_wf (VectorBackend s) = namespaces_wf s"
| "backend_wf (RocksBackend s) = True"

fun backend_kind :: "'f Backend \<Rightarrow> nat" where
  "backend_kind (KvBackend s) = 0"
| "backend_kind (VectorBackend s) = 1"
| "backend_kind (RocksBackend s) = 2"

text \<open>
  What an agent, replication and the operator can do to a store: writes (with any nonce and any behaviour of
  the database), deletions, and restoring a snapshot of any store in the same history.
\<close>

inductive store_history :: "'f fabric_env \<Rightarrow> 'f MemoryStore \<Rightarrow> 'f MemoryStore \<Rightarrow> bool" for E m0 where
  start: "store_history E m0 m0"
| put: "store_history E m0 m \<Longrightarrow> E' = E\<lparr>fe_rnd := rnd, fe_read_ok := r, fe_write_ok := w\<rparr> \<Longrightarrow>
    store_history E m0 (snd (store_put E' m namespace key data version prov))"
| delete: "store_history E m0 m \<Longrightarrow> store_history E m0 (store_delete E m namespace key)"
| restore: "store_history E m0 m \<Longrightarrow> store_history E m0 m1 \<Longrightarrow> store_snapshot E wr m1 = (Inr (), Some f) \<Longrightarrow>
    store_history E m0 (snd (store_restore E (Inr f) m))"

lemma snapshot_restore:
  assumes "store_snapshot E wr m1 = (Inr (), Some f)" and "backend_kind (backend m) = backend_kind (backend m1)"
    and "ms_tee m = ms_tee m1" and "json_correct (fe_json E)" and "sealing_correct (ms_tee m1)"
  shows "store_restore E (Inr f) m = (Inr (), m\<lparr>backend := backend m1\<rparr>)"
proof (cases "backend m1")
  case (KvBackend s)
  then obtain s' where "backend m = KvBackend s'" using assms(2) by (cases "backend m") simp_all
  then show ?thesis
    using assms KvBackend
    by (auto simp: store_snapshot_def store_restore_def snapshot_to_disk_def restore_from_disk_def bind_result_Inr_iff
        json_correct_def sealing_correct_def split: sum.splits)
next
  case (VectorBackend s)
  then obtain s' where "backend m = VectorBackend s'" using assms(2) by (cases "backend m") simp_all
  then show ?thesis
    using assms VectorBackend
    by (auto simp: store_snapshot_def store_restore_def snapshot_to_disk_def restore_from_disk_def bind_result_Inr_iff
        json_correct_def sealing_correct_def split: sum.splits)
qed (use assms in \<open>simp add: store_snapshot_def\<close>)

lemma history_invariant:
  assumes "store_history E m0 m" and "backend_wf (backend m0)" and "json_correct (fe_json E)" and "sealing_correct (ms_tee m0)"
  shows "backend_wf (backend m) \<and> backend_kind (backend m) = backend_kind (backend m0) \<and> ms_tee m = ms_tee m0"
  using assms
proof (induction rule: store_history.induct)
  case (put m E' rnd r w namespace key data version prov)
  then show ?case
    by (cases "backend m") (simp_all add: store_put_def kv_put_def vector_put_def put_entry_wf)
next
  case (delete m namespace key)
  then show ?case
    by (cases "backend m") (simp_all add: store_delete_def kv_delete_def vector_delete_def delete_entry_wf)
next
  case (restore m m1 wr f)
  then have "store_restore E (Inr f) m = (Inr (), m\<lparr>backend := backend m1\<rparr>)"
    by (intro snapshot_restore) simp_all
  with restore show ?case by simp
qed simp

text \<open>
  C17. Whatever writes, deletions and restored snapshots an in-memory store has seen since it was created empty, every
  namespace holds at most 1000 entries under distinct keys, the kind of backend and the TEE are those it
  was created with, and restoring a snapshot of it gives exactly its contents back.
\<close>
theorem store_within_capacity:
  assumes "store_history E m0 m" and "m0 = new_kv t tee \<or> m0 = new_vector t tee"
    and "json_correct (fe_json E)" and "sealing_correct tee"
  shows "backend_wf (backend m) \<and> backend_kind (backend m) = backend_kind (backend m0) \<and> ms_tee m = tee \<and>
         (\<forall>wr f m'. store_snapshot E wr m = (Inr (), Some f) \<and> store_history E m0 m' \<longrightarrow>
            store_restore E (Inr f) m' = (Inr (), m'\<lparr>backend := backend m\<rparr>))"
proof -
  have wf0: "backend_wf (backend m0)" "ms_tee m0 = tee"
    using assms(2) by (auto simp: new_kv_def new_vector_def kv_new_def namespaces_wf_def)
  note inv = history_invariant [OF _ wf0(1) assms(3), unfolded wf0(2), OF _ assms(4)]
  have "store_restore E (Inr f) m' = (Inr (), m'\<lparr>backend := backend m\<rparr>)"
    if "store_snapshot E wr m = (Inr (), Some f)" "store_history E m0 m'" for wr f m'
    using inv [OF assms(1)] inv [OF that(2)] assms(3,4) by (intro snapshot_restore [OF that(1)]) simp_all
  with inv [OF assms(1)] show ?thesis by blast
qed

section \<open>Where data is lost\<close>

text \<open>
  Replicas that receive the same two concurrent updates of a key in different orders keep different
  values for good: neither version vector dominates the other, so each store keeps what came last.
\<close>
lemma concurrent_updates_diverge:
  assumes "a \<noteq> b" and "0 < i" and "0 < j" and "d1 \<noteq> d2" and "store_ready E tee mk_key m"
    and "store_version E m namespace key = None"
    and "entry_codec_ok (fe_lib E) rnd mk_key namespace key d1" and "entry_codec_ok (fe_lib E) rnd mk_key namespace key d2"
    and "put = (\<lambda>d v m. snd (store_put (E\<lparr>fe_rnd := rnd\<rparr>) m namespace key d v None))"
  shows "store_get E (put d2 [(b, j)] (put d1 [(a, i)] m)) namespace key = Some d2 \<and>
         store_get E (put d1 [(a, i)] (put d2 [(b, j)] m)) namespace key = Some d1 \<and>
         put d1 [(a, i)] (put d2 [(b, j)] m) \<noteq> put d2 [(b, j)] (put d1 [(a, i)] m)"
proof -
  have fresh: "store_get E (put d v m') namespace key = Some d \<and> store_version E (put d v m') namespace key = Some v"
    if "store_ready E tee mk_key m'" "\<And>w. store_version E m' namespace key = Some w \<Longrightarrow> \<not> dominates w v"
      "entry_codec_ok (fe_lib E) rnd mk_key namespace key d" for d v m'
    unfolding assms(9) by (rule store_update_fresh [OF that(1,3,2) refl])
  have ready: "store_ready E tee mk_key (put d v m)" for d v
    unfolding assms(9) by (rule store_put_ready [OF assms(5)])
  have one: "store_version E (put d1 [(a, i)] m) namespace key = Some [(a, i)]"
    "store_version E (put d2 [(b, j)] m) namespace key = Some [(b, j)]"
    using fresh [OF assms(5) _ assms(7)] fresh [OF assms(5) _ assms(8)] assms(6) by simp_all
  have "store_get E (put d2 [(b, j)] (put d1 [(a, i)] m)) namespace key = Some d2"
    "store_get E (put d1 [(a, i)] (put d2 [(b, j)] m)) namespace key = Some d1"
    using fresh [OF ready _ assms(8), of d1 "[(a, i)]" "[(b, j)]"] fresh [OF ready _ assms(7), of d2 "[(b, j)]" "[(a, i)]"]
      one assms(1-3) by (simp_all add: dominates_def not_le)
  moreover from this have "put d1 [(a, i)] (put d2 [(b, j)] m) \<noteq> put d2 [(b, j)] (put d1 [(a, i)] m)" using assms(4) by auto
  ultimately show ?thesis by blast
qed

text \<open>Namespace and key are joined by a colon, so different entries share a database key and overwrite each other.\<close>

lemma db_key_collision: "db_key (n @ '':'' @ x) k = db_key n (x @ '':'' @ k)"
  by (simp add: db_key_def)

lemma db_key_inj:
  assumes "CHR '':'' \<notin> set n" and "CHR '':'' \<notin> set n'" and "db_key n k = db_key n' k'"
  shows "n = n' \<and> k = k'"
proof -
  have eq: "n @ CHR '':'' # k = n' @ CHR '':'' # k'" using assms(3) by (simp add: db_key_def del: str_bytes_append)
  have "takeWhile (\<lambda>c. c \<noteq> CHR '':'') (n @ CHR '':'' # k) = n" "takeWhile (\<lambda>c. c \<noteq> CHR '':'') (n' @ CHR '':'' # k') = n'"
    using assms(1,2) by (subst takeWhile_append2; auto)+
  then show ?thesis using eq by auto
qed

lemma rocks_overwrites_other_entry:
  assumes "rocks_put J F tee rnd r w st (n @ '':'' @ x) k d v prov = (True, st')" and "json_correct J"
  shows "\<exists>e. rocks_entry J True st' n (x @ '':'' @ k) = Some e \<and> entry_version e = v"
proof -
  obtain c b where b: "entry_json J \<lparr>entry_version = v, entry_data = \<lparr>ciphertext = c, sealed_nonce = rnd\<rparr>, entry_provenance = prov\<rparr> = Some b"
    and st': "st' = st\<lparr>rocks_db := hm_insert (db_key (n @ '':'' @ x) k) b (rocks_db st)\<rparr>"
    using assms(1) by (auto simp: rocks_put_def encrypt_entry_Inr_iff split: if_splits option.splits sum.splits prod.splits)
  from b assms(2) have "entry_unjson J b = Some \<lparr>entry_version = v, entry_data = \<lparr>ciphertext = c, sealed_nonce = rnd\<rparr>, entry_provenance = prov\<rparr>"
    unfolding json_correct_def by blast
  then show ?thesis unfolding rocks_entry_def st' db_key_collision by simp
qed

lemma vector_search_bounded: "length (vector_search Fp F tee st namespace embedding top_k) \<le> top_k"
  by (simp add: vector_search_def split: option.split sum.split)

section \<open>Concrete instances\<close>

definition demo_fabric_lib :: fabric_lib where
  "demo_fabric_lib = \<lparr>fl_hkdf = const_hkdf, fl_encrypt = (\<lambda>_ _ d. Some d), fl_decrypt = (\<lambda>_ _ c. Some c)\<rparr>"

definition demo_tee :: TeeProvider where
  "demo_tee = mock_provider (demo_build True) demo_machine demo_json \<lparr>override_type = None\<rparr>"

definition demo_fabric_json :: "unit fabric_json" where
  "demo_fabric_json =
     \<lparr>kv_json = (\<lambda>s. if s = [] then Inr [0] else Inl ''too long''), kv_unjson = (\<lambda>b. if b = [0] then Inr [] else Inl ''no JSON''),
      vec_json = (\<lambda>s. if s = [] then Inr [0] else Inl ''too long''), vec_unjson = (\<lambda>b. if b = [0] then Inr [] else Inl ''no JSON''),
      entry_json = (\<lambda>_. None), entry_unjson = (\<lambda>_. None)\<rparr>"

definition demo_fabric_env :: "unit fabric_env" where
  "demo_fabric_env =
     \<lparr>fe_lib = demo_fabric_lib, fe_json = demo_fabric_json,
      fe_f32 = \<lparr>f_zero = (), f_tenth = (), f_mul = (\<lambda>_ _. ()), f_add = (\<lambda>_ _. ()), f_div = (\<lambda>_ _. ()), f_sqrt = id,
        f_less = (\<lambda>_ _. False), f_eq = (\<lambda>_ _. True)\<rparr>,
      fe_rnd = replicate 12 0, fe_read_ok = True, fe_write_ok = True\<rparr>"

lemma demo_fabric_lib_correct: "aes_correct demo_fabric_lib"
  by (simp add: aes_correct_def demo_fabric_lib_def)

lemma demo_json_correct: "json_correct demo_fabric_json"
  by (auto simp: json_correct_def demo_fabric_json_def split: if_splits)

lemma demo_sealing_correct: "sealing_correct demo_tee"
  using mock_seal_round_trip by (simp add: sealing_correct_def demo_tee_def mock_provider_def)

lemma demo_master_key: "derive_master_key demo_tee = Inr (replicate 32 1)"
  by (simp add: derive_master_key_def demo_tee_def mock_provider_def mock_derive_key_def demo_machine_def)

lemma demo_entry_key: "\<exists>ek. derive_entry_key demo_fabric_lib mk_key namespace key rnd = Inr ek"
  by (simp add: derive_entry_key_def demo_fabric_lib_def extract_sha384_def expand_def const_hkdf_def)

lemma demo_codec_ok: "entry_codec_ok demo_fabric_lib rnd mk_key namespace key d"
  using demo_entry_key [of mk_key namespace key rnd] by (auto simp: entry_codec_ok_def demo_fabric_lib_def)

lemma demo_ready: "store_ready demo_fabric_env demo_tee (replicate 32 1) (new_kv Global demo_tee)"
  by (simp add: store_ready_def demo_fabric_env_def new_kv_def demo_json_correct demo_master_key)

theorem stores_refine_map_witness:
  "\<exists>st. kv_put demo_fabric_lib demo_tee [1] kv_new ''ns'' ''k'' [5] [(''a'', 1)] None = (True, st) \<and>
     kv_get demo_fabric_lib demo_tee st ''ns'' ''k'' = Some [5] \<and> kv_get demo_fabric_lib demo_tee st ''ns'' ''other'' = None"
proof -
  have nr: "\<not> rejects id kv_new ''ns'' ''k'' [(''a'', 1)]" by (simp add: rejects_def kv_new_def namespace_of_def)
  have "put_works demo_fabric_lib demo_tee ''ns'' ''k'' [1] [5]"
    by (simp add: put_works_def demo_master_key demo_codec_ok)
  then obtain st where st: "kv_put demo_fabric_lib demo_tee [1] kv_new ''ns'' ''k'' [5] [(''a'', 1)] None = (True, st)"
    using put_entry_fresh [OF nr] unfolding kv_put_def by metis
  note m = stores_refine_map [OF demo_fabric_lib_correct, THEN conjunct1, rule_format, OF st]
  have "kv_get demo_fabric_lib demo_tee st ''ns'' ''k'' = Some [5]" using m [of "''ns''" "''k''"] by simp
  moreover have "kv_get demo_fabric_lib demo_tee st ''ns'' ''other'' = None"
    using m [of "''ns''" "''other''"] by (simp add: evicted_def kv_new_def namespace_of_def MAX_NAMESPACE_ENTRIES_def kv_get_def get_entry_def)
  ultimately show ?thesis using st by blast
qed

theorem store_within_capacity_witness:
  "\<exists>m. store_history demo_fabric_env (new_kv Global demo_tee) m \<and> store_get demo_fabric_env m ''ns'' ''k'' = Some [5] \<and> backend_wf (backend m) \<and>
     store_restore demo_fabric_env (Inr (str_bytes ''MOCK_SEAL:'' @ [0])) m = (Inr (), new_kv Global demo_tee)"
proof -
  let ?m0 = "new_kv Global demo_tee :: unit MemoryStore"
  define m where "m = snd (store_put (demo_fabric_env\<lparr>fe_rnd := [1]\<rparr>) ?m0 ''ns'' ''k'' [5] [(''a'', 1)] None)"
  have h0: "store_history demo_fabric_env ?m0 ?m0" by (rule store_history.start)
  have h: "store_history demo_fabric_env ?m0 m"
    unfolding m_def by (rule store_history.put [OF h0, where r = True and w = True and rnd = "[1]"]) (simp add: demo_fabric_env_def)
  have "store_get demo_fabric_env m ''ns'' ''k'' = Some [5]"
    using store_update_fresh [OF demo_ready _ _ refl, of "[1]" "''ns''" "''k''" "[5]" "[(''a'', 1)]" None] demo_codec_ok
    by (simp add: m_def demo_fabric_env_def store_version_def new_kv_def stored_version_def kv_new_def namespace_of_def)
  moreover have snap: "store_snapshot demo_fabric_env (\<lambda>_. Inr ()) ?m0 = (Inr (), Some (str_bytes ''MOCK_SEAL:'' @ [0]))"
    by (simp add: store_snapshot_def snapshot_to_disk_def new_kv_def kv_new_def demo_fabric_env_def demo_fabric_json_def demo_tee_def
        mock_provider_def mock_seal_data_def)
  note cap = store_within_capacity [where t = Global, OF _ disjI1 [OF refl] _ demo_sealing_correct]
  have j: "json_correct (fe_json demo_fabric_env)" by (simp add: demo_fabric_env_def demo_json_correct)
  have wf: "backend_wf (backend m) \<and> backend_kind (backend m) = backend_kind (backend ?m0) \<and> ms_tee m = demo_tee"
    using cap [OF h j] by blast
  have "store_restore demo_fabric_env (Inr (str_bytes ''MOCK_SEAL:'' @ [0])) m = (Inr (), m\<lparr>backend := backend ?m0\<rparr>)"
    using cap [OF h0 j] snap h by blast
  moreover have "m\<lparr>backend := backend ?m0\<rparr> = ?m0"
    by (simp add: m_def store_put_def new_kv_def)
  ultimately show ?thesis using h wf by auto
qed

end
