(* ===== verification/Fabric.thy ===== *)
theory Fabric
  imports Fabric_Store
begin

text \<open>
  The rest of crate \<open>openhttpa-fabric\<close>: metrics, authorisation policies, replication between attested nodes, and
  the two tools agents use. The policy language, the LRU cache, JSON and the transport are arguments.
  Strings are ASCII where the source lower-cases them.

  The development shows when the cached policy decisions are those of the uncached evaluation and when
  they are not, and that a synchronisation quote does not cover the data it comes with.
\<close>

section \<open>The model\<close>

subsection \<open>Metrics\<close>

record FabricMetrics =
  aiql_evaluations_total :: u64
  gossip_syncs_total :: u64
  memory_distillation_events :: u64

definition metrics_new :: FabricMetrics where
  "metrics_new = \<lparr>aiql_evaluations_total = 0, gossip_syncs_total = 0, memory_distillation_events = 0\<rparr>"

definition inc_aiql_evaluations :: "FabricMetrics \<Rightarrow> FabricMetrics" where
  "inc_aiql_evaluations m = m\<lparr>aiql_evaluations_total := aiql_evaluations_total m + 1\<rparr>"

definition inc_gossip_syncs :: "FabricMetrics \<Rightarrow> FabricMetrics" where
  "inc_gossip_syncs m = m\<lparr>gossip_syncs_total := gossip_syncs_total m + 1\<rparr>"

definition inc_memory_distillation :: "FabricMetrics \<Rightarrow> FabricMetrics" where
  "inc_memory_distillation m = m\<lparr>memory_distillation_events := memory_distillation_events m + 1\<rparr>"

definition metrics_snapshot :: "FabricMetrics \<Rightarrow> u64 \<times> u64 \<times> u64" where
  "metrics_snapshot m = (aiql_evaluations_total m, gossip_syncs_total m, memory_distillation_events m)"

subsection \<open>Authorisation\<close>

record IdentityMeasurement =
  mrenclave :: string
  mrsigner :: string
  is_debug :: bool

record OpaPolicyEngine =
  opa_url :: string
  local_rego_policy :: "string option"

definition opa_new :: "string \<Rightarrow> OpaPolicyEngine" where
  "opa_new url = \<lparr>opa_url = url, local_rego_policy = None\<rparr>"

definition with_local_policy :: "OpaPolicyEngine \<Rightarrow> string \<Rightarrow> OpaPolicyEngine" where
  "with_local_policy e policy = e\<lparr>local_rego_policy := Some policy\<rparr>"

text \<open>\<open>rego\<close> is \<open>None\<close> if the policy does not load or its query fails, else whether the query has a result.\<close>

definition opa_is_authorized ::
    "(string \<Rightarrow> bool option) \<Rightarrow> OpaPolicyEngine \<Rightarrow> IdentityMeasurement \<Rightarrow> string \<Rightarrow> string \<Rightarrow> string + bool" where
  "opa_is_authorized rego e im namespace action =
     (if is_debug im then Inr False
      else case Option.bind (local_rego_policy e) rego of
          Some nonempty \<Rightarrow> Inr nonempty
        | None \<Rightarrow> if namespace = ''public'' \<and> action = ''read'' then Inr True else Inr True)"

text \<open>The confidence threshold and the confidences of the answers are never read and left out.\<close>

record AiqlConfig =
  malicious_keywords :: "string list"
  restricted_namespaces :: "string list"
  strict_debug_mode :: bool

definition aiql_config_default :: AiqlConfig where
  "aiql_config_default =
     \<lparr>malicious_keywords = [''exfiltrate'', ''malicious'', ''bypass'', ''exploit''],
      restricted_namespaces = [''system'', ''admin''], strict_debug_mode = True\<rparr>"

record AiqlResponse =
  aiql_allowed :: bool
  aiql_reason :: string

record LocalLlmEngine =
  model_name :: string
  llm_config :: AiqlConfig

definition llm_new :: "string \<Rightarrow> LocalLlmEngine" where
  "llm_new name = \<lparr>model_name = name, llm_config = aiql_config_default\<rparr>"

definition llm_with_config :: "LocalLlmEngine \<Rightarrow> AiqlConfig \<Rightarrow> LocalLlmEngine" where
  "llm_with_config e cfg = e\<lparr>llm_config := cfg\<rparr>"

definition blocked :: "string \<Rightarrow> AiqlResponse" where
  "blocked reason = \<lparr>aiql_allowed = False, aiql_reason = reason\<rparr>"

definition evaluate_intent :: "LocalLlmEngine \<Rightarrow> IdentityMeasurement \<Rightarrow> string \<Rightarrow> string \<Rightarrow> AiqlResponse" where
  "evaluate_intent e im namespace action =
     (let lower = map ascii_lower action; cfg = llm_config e;
          sensitive = (if is_debug im \<and> strict_debug_mode cfg
                       then find (str_contains lower) [''production'', ''override'', ''system_write''] else None) in
      case sensitive of
        Some s \<Rightarrow> blocked (''Strict debug mode blocked sensitive action: '' @ s)
      | None \<Rightarrow>
          if namespace \<in> set (restricted_namespaces cfg) \<and> (str_contains lower ''write'' \<or> str_contains lower ''delete'')
          then blocked (''Unauthorized modification to restricted namespace: '' @ namespace)
          else case find (str_contains lower) (malicious_keywords cfg) of
              Some intent \<Rightarrow> blocked (''Detected malicious keyword intent: '' @ intent)
            | None \<Rightarrow> \<lparr>aiql_allowed = True, aiql_reason = ''Action appears benign and complies with context policies.''\<rparr>)"

text \<open>The LRU cache of capacity 1000; a look-up also refreshes the entry.\<close>

record 'c lru_lib =
  lru_new :: "nat \<Rightarrow> 'c"
  lru_get :: "'c \<Rightarrow> string \<Rightarrow> bool option \<times> 'c"
  lru_put :: "'c \<Rightarrow> string \<Rightarrow> bool \<Rightarrow> 'c"

record 'c AiqlPolicyEngine =
  local_llm :: LocalLlmEngine
  cache :: 'c
  metrics :: FabricMetrics

definition aiql_new :: "'c lru_lib \<Rightarrow> 'c AiqlPolicyEngine" where
  "aiql_new L = \<lparr>local_llm = llm_new ''Llama-3-8B-Instruct-Q4'', cache = lru_new L 1000, metrics = metrics_new\<rparr>"

definition aiql_with_metrics :: "'c AiqlPolicyEngine \<Rightarrow> FabricMetrics \<Rightarrow> 'c AiqlPolicyEngine" where
  "aiql_with_metrics e m = e\<lparr>metrics := m\<rparr>"

definition aiql_with_config :: "'c AiqlPolicyEngine \<Rightarrow> AiqlConfig \<Rightarrow> 'c AiqlPolicyEngine" where
  "aiql_with_config e cfg = e\<lparr>local_llm := llm_with_config (local_llm e) cfg\<rparr>"

definition cache_key :: "IdentityMeasurement \<Rightarrow> string \<Rightarrow> string \<Rightarrow> string" where
  "cache_key im namespace action =
     (if is_debug im then ''true'' else ''false'') @ '':'' @ namespace @ '':'' @ action"

definition aiql_is_authorized ::
    "'c lru_lib \<Rightarrow> 'c AiqlPolicyEngine \<Rightarrow> IdentityMeasurement \<Rightarrow> string \<Rightarrow> string \<Rightarrow> bool \<times> 'c AiqlPolicyEngine" where
  "aiql_is_authorized L e0 im namespace action =
     (let e = e0\<lparr>metrics := inc_aiql_evaluations (metrics e0)\<rparr>; k = cache_key im namespace action in
      case lru_get L (cache e) k of
        (Some allowed, c) \<Rightarrow> (allowed, e\<lparr>cache := c\<rparr>)
      | (None, c) \<Rightarrow>
          (let allowed = aiql_allowed (evaluate_intent (local_llm e) im namespace action) in
           (allowed, e\<lparr>cache := lru_put L c k allowed\<rparr>)))"

definition distillation_tick :: "FabricMetrics \<Rightarrow> FabricMetrics" where
  "distillation_tick m =
     (let _ = evaluate_intent (llm_new ''Llama-3-8B-Instruct-Q4'')
                \<lparr>mrenclave = ''system_distiller'', mrsigner = ''openhttpa'', is_debug = False\<rparr> ''system'' ''distill_context''
      in inc_memory_distillation m)"

subsection \<open>Replication\<close>

record SyncPayload =
  sp_namespace :: string
  sp_key :: string
  sp_data :: bytes
  sp_version :: VersionVector
  sp_provenance :: "ProvenanceChain option"
  sp_quote :: "AttestQuote option"

definition sync_binding :: "hash_lib \<Rightarrow> SyncPayload \<Rightarrow> bytes" where
  "sync_binding D p = report_data_from_sha384 (sha384 D (str_bytes (sp_namespace p @ '':'' @ sp_key p)))"

definition validate_sync :: "hash_lib \<Rightarrow> string \<Rightarrow> SyncPayload \<Rightarrow> quote_verifier \<Rightarrow> string + unit" where
  "validate_sync D sender p vf =
     bind_result (ok_or (''Rejected state delta from '' @ sender @ '': missing attestation quote'') (sp_quote p)) (\<lambda>q.
     bind_result (map_err (\<lambda>e. ''Rejected unauthenticated state delta from '' @ sender @ '': '' @ show_attest_error e)
       (vf q (sync_binding D p))) (\<lambda>_. Inr ()))"

record 'f ReplicationManager =
  rm_store :: "'f MemoryStore"
  rm_verifier :: quote_verifier
  rm_tee :: TeeProvider

definition handle_incoming_sync ::
    "'f fabric_env \<Rightarrow> hash_lib \<Rightarrow> 'f ReplicationManager \<Rightarrow> string \<Rightarrow> SyncPayload \<Rightarrow> 'f ReplicationManager" where
  "handle_incoming_sync E D r sender p =
     (case validate_sync D sender p (rm_verifier r) of
        Inl _ \<Rightarrow> r
      | Inr _ \<Rightarrow>
          r\<lparr>rm_store := snd (store_put E (rm_store r) (sp_namespace p) (sp_key p) (sp_data p) (sp_version p) (sp_provenance p))\<rparr>)"

text \<open>\<open>None\<close> is a panicking provider.\<close>

definition send_sync ::
    "hash_lib \<Rightarrow> (SyncPayload \<Rightarrow> string + string) \<Rightarrow> (string \<Rightarrow> string \<Rightarrow> string + unit) \<Rightarrow> 'f ReplicationManager \<Rightarrow> string \<Rightarrow>
     SyncPayload \<Rightarrow> (string + unit) option" where
  "send_sync D json transport r target p =
     map_option (\<lambda>p'. bind_result (map_err (\<lambda>e. ''Failed to serialize sync payload: '' @ e) (json p')) (transport target))
       (if sp_quote p = None then
          map_option (\<lambda>res. case res of Inl _ \<Rightarrow> p | Inr q \<Rightarrow> p\<lparr>sp_quote := Some q\<rparr>)
            (generate_quote (rm_tee r) (sync_binding D p))
        else Some p)"

definition gossip_tick :: "string list \<Rightarrow> FabricMetrics \<Rightarrow> FabricMetrics" where
  "gossip_tick peers m = (if peers = [] then m else inc_gossip_syncs m)"

subsection \<open>Tools of an agent\<close>

text \<open>The arguments are a JSON object, read as a map of its string-valued fields.\<close>

definition read_tool_call :: "'f fabric_env \<Rightarrow> (bytes \<Rightarrow> string option) \<Rightarrow> 'f MemoryStore \<Rightarrow> (string \<Rightarrow> string option) \<Rightarrow> string + string" where
  "read_tool_call E from_utf8 m args =
     bind_result (ok_or ''Missing namespace'' (args ''namespace'')) (\<lambda>namespace.
     bind_result (ok_or ''Missing key'' (args ''key'')) (\<lambda>key.
       case store_get E m namespace key of
         Some data \<Rightarrow> Inr (case from_utf8 data of Some s \<Rightarrow> s | None \<Rightarrow> ''[Binary Data]'')
       | None \<Rightarrow> Inl ''Key not found''))"

definition write_tool_call ::
    "'f fabric_env \<Rightarrow> u64 \<Rightarrow> 'f MemoryStore \<Rightarrow> (string \<Rightarrow> string option) \<Rightarrow> (string + string) \<times> 'f MemoryStore" where
  "write_tool_call E now m args =
     (case (args ''namespace'', args ''key'', args ''value'') of
        (None, _, _) \<Rightarrow> (Inl ''Missing namespace'', m)
      | (Some _, None, _) \<Rightarrow> (Inl ''Missing key'', m)
      | (Some _, Some _, None) \<Rightarrow> (Inl ''Missing value'', m)
      | (Some namespace, Some key, Some v) \<Rightarrow>
          (Inr ''success'', snd (store_put E m namespace key (str_bytes v) [(''mcp_agent'', now)] None)))"

section \<open>Replication\<close>

text \<open>A delivery is the nonce drawn for it, the sender's name and the payload.\<close>

type_synonym delivery = "bytes \<times> string \<times> SyncPayload"

definition sync_valid :: "hash_lib \<Rightarrow> quote_verifier \<Rightarrow> delivery \<Rightarrow> bool" where
  "sync_valid D vf dl \<longleftrightarrow> validate_sync D (fst (snd dl)) (snd (snd dl)) vf = Inr ()"

definition receive :: "'f fabric_env \<Rightarrow> hash_lib \<Rightarrow> delivery \<Rightarrow> 'f ReplicationManager \<Rightarrow> 'f ReplicationManager" where
  "receive E D dl r = handle_incoming_sync (E\<lparr>fe_rnd := fst dl\<rparr>) D r (fst (snd dl)) (snd (snd dl))"

lemma validate_sync_unit: "validate_sync D s p vf = Inr u \<longleftrightarrow> (\<exists>q r. sp_quote p = Some q \<and> vf q (sync_binding D p) = Inr r)"
  by (auto simp: validate_sync_def bind_result_Inr_iff)

lemma receive_cases:
  "receive E D dl r =
     (if sync_valid D (rm_verifier r) dl
      then r\<lparr>rm_store := snd (store_put (E\<lparr>fe_rnd := fst dl\<rparr>) (rm_store r) (sp_namespace (snd (snd dl))) (sp_key (snd (snd dl)))
              (sp_data (snd (snd dl))) (sp_version (snd (snd dl))) (sp_provenance (snd (snd dl))))\<rparr>
      else r)"
  by (auto simp: receive_def handle_incoming_sync_def sync_valid_def split: sum.splits)

lemma fold_receive:
  assumes "\<forall>dl\<in>set ds. sp_namespace (snd (snd dl)) = namespace \<and> sp_key (snd (snd dl)) = key"
  shows "rm_store (fold (receive E D) ds r) =
     deliver_all (\<lambda>(rnd, prov) m d v. snd (store_put (E\<lparr>fe_rnd := rnd\<rparr>) m namespace key d v prov)) (rm_store r)
       (map (\<lambda>dl. ((fst dl, sp_provenance (snd (snd dl))), sp_data (snd (snd dl)), sp_version (snd (snd dl))))
         (filter (sync_valid D (rm_verifier r)) ds))"
  using assms by (induction ds arbitrary: r) (simp_all add: receive_cases)

text \<open>
  C15. Updates of one writer converge: once the newest one has been delivered and verified, a replica reads
  its datum, in whatever order, however often and between whatever refused payloads the updates of
  the key arrive, and whichever backend the replica has. Only deliveries for this one key are considered: in a full
  namespace a write of another key may evict it.
\<close>
theorem replicas_converge:
  assumes "store_ready E tee mk_key (rm_store r)"
    and "\<forall>dl\<in>set ds. sp_namespace (snd (snd dl)) = namespace \<and> sp_key (snd (snd dl)) = key"
    and "\<forall>dl\<in>set ds. sync_valid D (rm_verifier r) dl \<longrightarrow>
           entry_codec_ok (fe_lib E) (fst dl) mk_key namespace key (sp_data (snd (snd dl))) \<and>
           (\<exists>n\<le>N. sp_version (snd (snd dl)) = [(writer, n)] \<and> (n = N \<longrightarrow> sp_data (snd (snd dl)) = x))"
    and "\<exists>dl\<in>set ds. sync_valid D (rm_verifier r) dl \<and> sp_version (snd (snd dl)) = [(writer, N)]"
    and "\<forall>w. store_version E (rm_store r) namespace key = Some w \<longrightarrow> \<not> dominates w [(writer, N)]"
  shows "store_get E (rm_store (fold (receive E D) ds r)) namespace key = Some x"
proof -
  let ?us = "map (\<lambda>dl. ((fst dl, sp_provenance (snd (snd dl))), sp_data (snd (snd dl)), sp_version (snd (snd dl))))
         (filter (sync_valid D (rm_verifier r)) ds)"
  have "\<forall>u\<in>set ?us. (case fst u of (rnd, prov) \<Rightarrow> \<lambda>d. entry_codec_ok (fe_lib E) rnd mk_key namespace key d) (fst (snd u)) \<and>
      (\<exists>n\<le>N. snd (snd u) = [(writer, n)] \<and> (n = N \<longrightarrow> fst (snd u) = x))"
    using assms(3) by simp
  moreover have "\<exists>u\<in>set ?us. snd (snd u) = [(writer, N)]"
    using assms(4) by (auto simp del: split_paired_Ex split_paired_All simp: image_iff Bex_def)
  ultimately show ?thesis
    unfolding fold_receive [OF assms(2)] by (rule store.newest_wins [OF _ _ assms(1,5), THEN conjunct1])
qed

text \<open>
  The quote of a synchronisation payload covers its namespace and key only. With the quote of any
  accepted payload, another datum and any newer version are accepted, and the replica reads that datum.
\<close>
lemma sync_quote_reusable:
  assumes "validate_sync D sender p (rm_verifier r) = Inr ()" and "store_ready E tee mk_key (rm_store r)"
    and "entry_codec_ok (fe_lib E) rnd mk_key (sp_namespace p) (sp_key p) forged"
    and "\<And>w. store_version E (rm_store r) (sp_namespace p) (sp_key p) = Some w \<Longrightarrow> \<not> dominates w v"
  shows "store_get E (rm_store (handle_incoming_sync (E\<lparr>fe_rnd := rnd\<rparr>) D r sender' (p\<lparr>sp_data := forged, sp_version := v\<rparr>)))
           (sp_namespace p) (sp_key p) = Some forged"
proof -
  have "validate_sync D sender' (p\<lparr>sp_data := forged, sp_version := v\<rparr>) (rm_verifier r) = Inr ()"
    using assms(1) by (auto simp: validate_sync_unit sync_binding_def)
  then show ?thesis
    using store_update_fresh [OF assms(2,3,4) refl, of "sp_provenance p"] by (simp add: handle_incoming_sync_def)
qed

section \<open>Cached decisions\<close>

text \<open>
  The documented behaviour of the LRU cache: a look-up returns what was last stored under the key, unless
  it was dropped in the meantime, and changes no binding.
\<close>

definition lru_correct :: "'c lru_lib \<Rightarrow> ('c \<Rightarrow> string \<Rightarrow> bool option) \<Rightarrow> bool" where
  "lru_correct L peek \<longleftrightarrow>
     (\<forall>n k. peek (lru_new L n) k = None) \<and> (\<forall>c k. fst (lru_get L c k) = peek c k) \<and>
     (\<forall>c k k'. peek (snd (lru_get L c k)) k' = peek c k') \<and>
     (\<forall>c k v. peek (lru_put L c k v) k = Some v) \<and>
     (\<forall>c k v k'. k' \<noteq> k \<longrightarrow> peek (lru_put L c k v) k' = peek c k' \<or> peek (lru_put L c k v) k' = None)"

lemma evaluate_intent_debug_only:
  "is_debug a = is_debug b \<Longrightarrow> evaluate_intent e a namespace action = evaluate_intent e b namespace action"
  by (simp add: evaluate_intent_def)

lemma colon_split:
  assumes "CHR '':'' \<notin> set n" and "CHR '':'' \<notin> set n'" and "n @ CHR '':'' # k = n' @ CHR '':'' # k'"
  shows "n = n' \<and> k = k'"
proof -
  have "takeWhile (\<lambda>c. c \<noteq> CHR '':'') (n @ CHR '':'' # k) = n" "takeWhile (\<lambda>c. c \<noteq> CHR '':'') (n' @ CHR '':'' # k') = n'"
    using assms(1,2) by (subst takeWhile_append2; auto)+
  then show ?thesis using assms(3) by auto
qed

lemma cache_key_inj:
  assumes "CHR '':'' \<notin> set n" and "CHR '':'' \<notin> set n'" and "cache_key a n x = cache_key b n' y"
  shows "is_debug a = is_debug b \<and> n = n' \<and> x = y"
proof -
  have "n @ CHR '':'' # x = n' @ CHR '':'' # y \<and> is_debug a = is_debug b"
    using assms(3) by (cases "is_debug a"; cases "is_debug b") (simp_all add: cache_key_def)
  then show ?thesis using colon_split [OF assms(1,2)] by blast
qed

type_synonym request = "IdentityMeasurement \<times> string \<times> string"

definition decide :: "LocalLlmEngine \<Rightarrow> request \<Rightarrow> bool" where
  "decide e q = aiql_allowed (evaluate_intent e (fst q) (fst (snd q)) (snd (snd q)))"

primrec aiql_run :: "'c lru_lib \<Rightarrow> 'c AiqlPolicyEngine \<Rightarrow> request list \<Rightarrow> bool list \<times> 'c AiqlPolicyEngine" where
  "aiql_run L e [] = ([], e)"
| "aiql_run L e (q # qs) =
     (case aiql_is_authorized L e (fst q) (fst (snd q)) (snd (snd q)) of
        (b, e') \<Rightarrow> map_prod ((#) b) id (aiql_run L e' qs))"

definition cache_sound :: "('c \<Rightarrow> string \<Rightarrow> bool option) \<Rightarrow> 'c AiqlPolicyEngine \<Rightarrow> bool" where
  "cache_sound peek e \<longleftrightarrow>
     (\<forall>im n a v. CHR '':'' \<notin> set n \<and> peek (cache e) (cache_key im n a) = Some v \<longrightarrow> v = decide (local_llm e) (im, n, a))"

lemma aiql_step:
  assumes "lru_correct L peek" and "cache_sound peek e" and "CHR '':'' \<notin> set n"
  shows "\<exists>e'. aiql_is_authorized L e im n a = (decide (local_llm e) (im, n, a), e') \<and> cache_sound peek e' \<and>
           local_llm e' = local_llm e \<and> metrics e' = inc_aiql_evaluations (metrics e)"
proof -
  let ?k = "cache_key im n a"
  obtain c where g: "lru_get L (cache e) ?k = (peek (cache e) ?k, c)" and c: "\<And>k. peek c k = peek (cache e) k"
    using assms(1) unfolding lru_correct_def by (metis prod.collapse)
  show ?thesis
  proof (cases "peek (cache e) ?k")
    case (Some v)
    then have "v = decide (local_llm e) (im, n, a)" using assms(2,3) unfolding cache_sound_def by blast
    then show ?thesis using Some g c assms(2) by (auto simp: aiql_is_authorized_def Let_def cache_sound_def decide_def)
  next
    case None
    have "peek (lru_put L c ?k (decide (local_llm e) (im, n, a))) (cache_key im' n' a') = Some v \<Longrightarrow>
        CHR '':'' \<notin> set n' \<Longrightarrow> v = decide (local_llm e) (im', n', a')" for im' n' a' v
    proof (cases "cache_key im' n' a' = ?k")
      case True
      assume v: "peek (lru_put L c ?k (decide (local_llm e) (im, n, a))) (cache_key im' n' a') = Some v" and n': "CHR '':'' \<notin> set n'"
      have "v = decide (local_llm e) (im, n, a)" using v True assms(1) unfolding lru_correct_def by simp
      then show ?thesis
        using cache_key_inj [OF n' assms(3) True] evaluate_intent_debug_only [of im' im] by (simp add: decide_def)
    next
      case False
      assume v: "peek (lru_put L c ?k (decide (local_llm e) (im, n, a))) (cache_key im' n' a') = Some v" and n': "CHR '':'' \<notin> set n'"
      have "peek c (cache_key im' n' a') = Some v" using v False assms(1) unfolding lru_correct_def by (metis option.distinct(1))
      then show ?thesis using assms(2) n' c unfolding cache_sound_def by simp
    qed
    then show ?thesis using None g by (auto simp: aiql_is_authorized_def Let_def cache_sound_def decide_def)
  qed
qed

lemma aiql_run_decides:
  assumes "lru_correct L peek" and "cache_sound peek e" and "\<forall>q\<in>set qs. CHR '':'' \<notin> set (fst (snd q))"
  shows "fst (aiql_run L e qs) = map (decide (local_llm e)) qs \<and>
         aiql_evaluations_total (metrics (snd (aiql_run L e qs))) = aiql_evaluations_total (metrics e) + word_of_nat (length qs)"
  using assms(2,3)
proof (induction qs arbitrary: e)
  case (Cons q qs)
  obtain e' where e': "aiql_is_authorized L e (fst q) (fst (snd q)) (snd (snd q)) = (decide (local_llm e) q, e')"
    "cache_sound peek e'" "local_llm e' = local_llm e" "metrics e' = inc_aiql_evaluations (metrics e)"
    using aiql_step [OF assms(1) Cons.prems(1), of "fst (snd q)" "fst q" "snd (snd q)"] Cons.prems(2) by auto
  then show ?case using Cons.IH [OF e'(2)] Cons.prems(2) by (simp add: inc_aiql_evaluations_def)
qed simp

text \<open>
  C18. As long as namespaces contain no colon, the cache does not change any decision: over every sequence of
  requests the policy engine answers as the uncached evaluation of each request would, and counts
  every request (modulo the width of the counter).
\<close>
theorem aiql_cache_transparent:
  assumes "lru_correct L peek" and "\<forall>q\<in>set qs. CHR '':'' \<notin> set (fst (snd q))"
    and "e = aiql_with_config (aiql_new L) cfg"
  shows "fst (aiql_run L e qs) = map (\<lambda>(im, n, a). aiql_allowed (evaluate_intent (local_llm e) im n a)) qs \<and>
         aiql_evaluations_total (metrics (snd (aiql_run L e qs))) = word_of_nat (length qs)"
proof -
  have "cache_sound peek e"
    using assms(1) by (simp add: assms(3) cache_sound_def aiql_with_config_def aiql_new_def lru_correct_def)
  moreover have "aiql_evaluations_total (metrics e) = 0"
    by (simp add: assms(3) aiql_with_config_def aiql_new_def metrics_new_def)
  moreover have "decide (local_llm e) = (\<lambda>(im, n, a). aiql_allowed (evaluate_intent (local_llm e) im n a))"
    by (auto simp: decide_def)
  ultimately show ?thesis using aiql_run_decides [OF assms(1) _ assms(2)] by simp
qed

lemma bypass_texts:
  "map ascii_lower ''write'' = ''write''" "map ascii_lower ''x:write'' = ''x:write''"
  "find (str_contains ''write'') [''production'', ''override'', ''system_write''] = None"
  "find (str_contains ''x:write'') [''production'', ''override'', ''system_write''] = None"
  "\<not> str_contains ''write'' ''exfiltrate''" "\<not> str_contains ''write'' ''malicious''" "\<not> str_contains ''write'' ''bypass''"
  "\<not> str_contains ''write'' ''exploit''"
  "str_contains ''x:write'' ''write''"
  by code_simp+

lemma bypass_decisions:
  "aiql_allowed (evaluate_intent (llm_new name) im ''admin:x'' ''write'')"
  "\<not> aiql_allowed (evaluate_intent (llm_new name) im ''admin'' ''x:write'')"
  unfolding evaluate_intent_def Let_def bypass_texts llm_new_def aiql_config_default_def by (simp_all add: bypass_texts blocked_def)

text \<open>
  With a colon the cache confuses requests: once a harmless request in the namespace \<open>admin:x\<close> has been
  answered, the same engine allows the corresponding modification of the restricted namespace \<open>admin\<close>,
  which its evaluation would block.
\<close>
lemma aiql_cache_bypass:
  assumes "lru_correct L peek" and "aiql_is_authorized L (aiql_new L) im ''admin:x'' ''write'' = (b, e)"
  shows "b \<and> fst (aiql_is_authorized L e im ''admin'' ''x:write'') \<and>
         \<not> aiql_allowed (evaluate_intent (local_llm e) im ''admin'' ''x:write'')"
proof -
  let ?k = "cache_key im ''admin:x'' ''write''"
  have g: "lru_get L (lru_new L 1000) ?k = (None, snd (lru_get L (lru_new L 1000) ?k))"
    using assms(1) unfolding lru_correct_def by (metis prod.collapse)
  have b: "b" and e: "cache e = lru_put L (snd (lru_get L (lru_new L 1000) ?k)) ?k True"
    "local_llm e = llm_new ''Llama-3-8B-Instruct-Q4''"
    using assms(2) g bypass_decisions(1) by (auto simp: aiql_is_authorized_def aiql_new_def Let_def split: prod.splits option.splits)
  have "?k = cache_key im ''admin'' ''x:write''" by (simp add: cache_key_def)
  then have "fst (lru_get L (cache e) (cache_key im ''admin'' ''x:write'')) = Some True"
    using assms(1) e(1) unfolding lru_correct_def by simp
  then have "fst (aiql_is_authorized L e im ''admin'' ''x:write'')"
    by (auto simp: aiql_is_authorized_def Let_def split: prod.splits option.splits)
  moreover have "\<not> aiql_allowed (evaluate_intent (local_llm e) im ''admin'' ''x:write'')"
    unfolding e(2) by (rule bypass_decisions(2))
  ultimately show ?thesis using b by blast
qed

section \<open>Tools\<close>

text \<open>
  The write tool stamps an update with the time in seconds and reports success whatever the store answers:
  a second write of a key within one second is dropped.
\<close>

lemma second_write_lost:
  assumes "store_ready E tee mk_key m" and "entry_codec_ok (fe_lib E) (fe_rnd E) mk_key namespace key (str_bytes v1)"
    and "store_version E m namespace key = None"
    and "args = (\<lambda>v. [''namespace'' \<mapsto> namespace, ''key'' \<mapsto> key, ''value'' \<mapsto> v])"
    and "write_tool_call E now m (args v1) = (r1, m1)" and "write_tool_call E now m1 (args v2) = (r2, m2)"
  shows "r2 = Inr ''success'' \<and> store_get E m2 namespace key = Some (str_bytes v1)"
proof -
  have m1: "m1 = snd (store_put (E\<lparr>fe_rnd := fe_rnd E\<rparr>) m namespace key (str_bytes v1) [(''mcp_agent'', now)] None)"
    and m2: "m2 = snd (store_put (E\<lparr>fe_rnd := fe_rnd E\<rparr>) m1 namespace key (str_bytes v2) [(''mcp_agent'', now)] None)"
    and r2: "r2 = Inr ''success''"
    using assms(4-6) by (auto simp: write_tool_call_def)
  have one: "store_get E m1 namespace key = Some (str_bytes v1)" "store_version E m1 namespace key = Some [(''mcp_agent'', now)]"
    using store_update_fresh [OF assms(1,2) _ m1] assms(3) by simp_all
  have "store_ready E tee mk_key m1" unfolding m1 by (rule store_put_ready [OF assms(1)])
  from store_update_dominated [OF this one(2) _ m2] one(1) r2 show ?thesis by (simp add: dominates_def)
qed

lemma opa_without_policy_allows:
  "local_rego_policy e = None \<Longrightarrow> opa_is_authorized rego e im namespace action = Inr (\<not> is_debug im)"
  by (simp add: opa_is_authorized_def)

section \<open>Concrete instances\<close>

definition demo_payload :: "u64 \<Rightarrow> bytes \<Rightarrow> SyncPayload" where
  "demo_payload n d = \<lparr>sp_namespace = ''ns'', sp_key = ''k'', sp_data = d, sp_version = [(''a'', n)], sp_provenance = None,
     sp_quote = Some demo_quote\<rparr>"

definition demo_manager :: "unit ReplicationManager" where
  "demo_manager = \<lparr>rm_store = new_kv Global demo_tee, rm_verifier = (\<lambda>q rd. Inr demo_result), rm_tee = demo_tee\<rparr>"

lemma demo_no_version: "store_version demo_fabric_env (rm_store demo_manager) namespace key = None"
  by (simp add: store_version_def demo_manager_def new_kv_def stored_version_def kv_new_def namespace_of_def)

lemma demo_manager_verifier: "rm_verifier demo_manager q rd = Inr demo_result"
  by (simp add: demo_manager_def)

lemma demo_manager_ready: "store_ready demo_fabric_env demo_tee (replicate 32 1) (rm_store demo_manager)"
  by (simp add: demo_manager_def demo_ready)

lemma demo_fabric_codec_ok: "entry_codec_ok (fe_lib demo_fabric_env) rnd mk_key namespace key d"
  by (simp add: demo_fabric_env_def demo_codec_ok)

theorem replicas_converge_witness:
  "store_get demo_fabric_env (rm_store (fold (receive demo_fabric_env demo_hashes)
     [([1], ''peer'', demo_payload 2 [7]), ([2], ''peer'', demo_payload 1 [6]), ([3], ''peer'', demo_payload 2 [7])] demo_manager)) ''ns'' ''k'' = Some [7]"
proof (rule replicas_converge [OF demo_manager_ready, where writer = "''a''" and N = 2])
  show "\<forall>dl\<in>set [([1], ''peer'', demo_payload 2 [7]), ([2], ''peer'', demo_payload 1 [6]), ([3], ''peer'', demo_payload 2 [7])].
      sync_valid demo_hashes (rm_verifier demo_manager) dl \<longrightarrow>
      entry_codec_ok (fe_lib demo_fabric_env) (fst dl) (replicate 32 1) ''ns'' ''k'' (sp_data (snd (snd dl))) \<and>
      (\<exists>n\<le>2. sp_version (snd (snd dl)) = [(''a'', n)] \<and> (n = 2 \<longrightarrow> sp_data (snd (snd dl)) = [7]))"
    by (simp add: demo_fabric_codec_ok demo_payload_def)
qed (simp_all add: demo_payload_def demo_no_version sync_valid_def validate_sync_unit demo_manager_verifier)

definition demo_lru :: "(string \<Rightarrow> bool option) lru_lib" where
  "demo_lru = \<lparr>lru_new = (\<lambda>_ _. None), lru_get = (\<lambda>c k. (c k, c)), lru_put = (\<lambda>c k v. c(k \<mapsto> v))\<rparr>"

lemma demo_lru_correct: "lru_correct demo_lru (\<lambda>c. c)"
  by (simp add: lru_correct_def demo_lru_def)

abbreviation demo_identity :: IdentityMeasurement where
  "demo_identity \<equiv> \<lparr>mrenclave = ''m'', mrsigner = ''s'', is_debug = False\<rparr>"

theorem aiql_cache_transparent_witness:
  "fst (aiql_run demo_lru (aiql_new demo_lru) [(demo_identity, ''admin'', ''x:write''), (demo_identity, ''admin'', ''x:write'')]) = [False, False]"
proof -
  let ?qs = "[(demo_identity, ''admin'', ''x:write''), (demo_identity, ''admin'', ''x:write'')]"
  have e: "aiql_new demo_lru = aiql_with_config (aiql_new demo_lru) aiql_config_default"
    by (simp add: aiql_with_config_def aiql_new_def llm_with_config_def llm_new_def)
  have "fst (aiql_run demo_lru (aiql_new demo_lru) ?qs) =
      map (\<lambda>(im, n, a). aiql_allowed (evaluate_intent (local_llm (aiql_new demo_lru)) im n a)) ?qs"
    by (rule aiql_cache_transparent [OF demo_lru_correct _ e, THEN conjunct1]) simp
  then show ?thesis using bypass_decisions(2) by (simp add: aiql_new_def)
qed

end
