(* ===== verification/Spec2Isabelle.thy ===== *)
theory Spec2Isabelle
  imports Prelude Replay_Guard Protocol_State Aead_Nonces Key_Schedule Key_Exchange Hpke Proto Session Tickets Handshake Messages Client_Handshake Registry Server_Handlers Headers Trusted_Requests Streaming Server_Middleware Attest_Codec Web_Socket Attestation Quote_Verifiers Tee_Providers Fabric_Store Fabric
begin

text \<open>
  A verification library for OpenHTTPA (the Rust workspace under \<open>src/crates\<close>): HTTP requests and responses that
  are bound to a session which a remote-attestation handshake established.

  \<^bold>\<open>The program.\<close> A client first asks for a freshness challenge (preflight) and then sends an
  ATTEST request whose headers carry its random value, a hybrid X25519 and ML-KEM key share and optional quotes of
  its own hardware. The server's handler checks the challenge, negotiates suite and version, verifies the client's
  quotes, combines the key shares, hashes the transcript, quotes and signs that hash with its own
  hardware, derives the session keys, registers the session and answers in headers. The client checks
  signature and quotes against its own transcript and derives the same keys. From then on requests, responses,
  streams and WebSocket frames are sealed under these keys, with replay protection; a ticket resumes
  a session without a new handshake. Around this core stand the verifiers of quotes, the providers that
  produce them, rate limiting, replay guards, and the memory fabric that attested agents share.

  \<^bold>\<open>Conventions.\<close> A struct is a \<^theory_text>\<open>record\<close>, an enum a \<^theory_text>\<open>datatype\<close>, a w-bit integer a word, a map an association list in
  insertion order, a string the list of its bytes. An error is the left summand of a sum, a panic is
  \<open>None\<close> or a constructor of its own. Clock readings, random values and the outcomes of input and output are
  arguments. Packages that are not part of the repository (cryptography, JSON, structured fields, vendor
  attestation libraries, Redis, RocksDB, Bloom filters) are records of functions; what the code relies on is a named
  predicate \<open>..._correct\<close> over such a record, and each has a concrete instance with which the witnesses
  evaluate. State behind a mutex is passed through one call at a time; where the source takes several locks
  or atomic actions in one operation and it matters, there is a step relation (\<open>Registry\<close>, \<open>Server_Middleware\<close>).

  \<^bold>\<open>Theories and the code they model.\<close>

  \<^item> \<open>Prelude\<close>: words, big-endian encodings, length-prefixed concatenation, results and finite maps, and the two
    interfaces \<open>once_only\<close> (what is accepted once is never accepted again) and \<open>fresh_source\<close> (no value is
    handed out twice).
  \<^item> \<open>Replay_Guard\<close> (\<open>core/replay_guard.rs\<close>): the bit window; it refines the set of all accepted nonces (C8).
  \<^item> \<open>Protocol_State\<close> (\<open>core/state.rs\<close>): the phase machine, whose two ways to a trusted phase are C35, and the
    store of single-use keys with its capacity.
  \<^item> \<open>Aead_Nonces\<close>, \<open>Key_Schedule\<close>, \<open>Key_Exchange\<close>, \<open>Hpke\<close> (\<open>crypto/aead.rs\<close>, \<open>nonce.rs\<close>, \<open>hkdf.rs\<close>, \<open>key_exchange.rs\<close>,
    \<open>pqc.rs\<close>, \<open>hpke.rs\<close>): no key seals twice with one nonce (C28), key slots are expanded from different
    inputs, both sides of the hybrid exchange agree (C29).
  \<^item> \<open>Proto\<close>, \<open>Messages\<close>, \<open>Headers\<close>, \<open>Attest_Codec\<close> (\<open>proto/types.rs\<close>, \<open>headers/attest_headers.rs\<close>, \<open>trailers.rs\<close>): protocol types,
    handshake messages, the attested header list, which determines what it binds (C26), and the header codec with
    its round trips (C23) and panics.
  \<^item> \<open>Session\<close>, \<open>Tickets\<close> (\<open>core/session\<close>, \<open>server/ticket_engine_fs.rs\<close>): sessions with strict and sliding replay protection,
    across failures, export and restore (C9), tickets with key rotation.
  \<^item> \<open>Handshake\<close>, \<open>Client_Handshake\<close>, \<open>Registry\<close>, \<open>Server_Handlers\<close> (\<open>core/handshake.rs\<close>, \<open>client/client.rs\<close>, \<open>server/atb_registry.rs\<close>,
    \<open>server/handlers.rs\<close>): the two sides of the handshake on header maps. A client is recorded as attested only if every quote passed every
    check (C2), the transcript determines what was negotiated (C20), a client accepts only a response bound to its
    own transcript (C3), the handler registers only what it checked, and what its late errors leave behind (C4), the
    registry stays within its capacity under every interleaving (C27).
  \<^item> \<open>Trusted_Requests\<close>, \<open>Streaming\<close>, \<open>Web_Socket\<close> (\<open>client/client.rs\<close>, \<open>server/extractors.rs\<close>, \<open>middleware.rs\<close>, \<open>ws.rs\<close>): requests
    and responses are recovered (C5), an accepted request was authenticated, body included (C6), and is accepted once
    (C7); streams are recovered whatever the transport's chunks (C21, C22) within bounded memory (C36), and what
    their protocol does not detect (C33); frames arrive in order (C24, C25), and nonces repeat over two upgrades (C34).
  \<^item> \<open>Server_Middleware\<close> (\<open>server/rate_limit.rs\<close>, \<open>middleware.rs\<close>, \<open>replay_guard_fs.rs\<close>, \<open>replay_guard_redis.rs\<close>): the limiter is exact (C31),
    how long a ticket is kept from resuming twice, depending on rotations (C30), and the race of a rotation with a check (C32). The
    interface \<open>distributed_guard\<close> is what resumption relies on; the local and the Redis guard meet it.
  \<^item> \<open>Attestation\<close>, \<open>Quote_Verifiers\<close> (\<open>attestation\<close>): bundles, the federated verifier (C10) and its manifest (C40), the simple
    policy (C38); what acceptance by the TDX (C11) and SEV-SNP (C12) verifiers implies, and that fetching
    collateral ends within its bounds (C37). Interfaces \<open>binding_verifier\<close>, \<open>qudd_verifier\<close>, \<open>vendor_verifiers\<close>.
  \<^item> \<open>Tee_Providers\<close> (\<open>tee\<close>): evidence, providers, their selection (C14) and composition (C19), and that TDX quotes pass
    the verifier (C13). Interfaces \<open>bound_provider\<close> and \<open>bound_providers\<close>.
  \<^item> \<open>Fabric_Store\<close>, \<open>Fabric\<close> (\<open>fabric\<close>): stores as maps (C16) within capacity (C17), replication of one writer's updates
    (C15), and the cached policy engine (C18). Interface \<open>versioned_store\<close>.
  \<^item> This theory: client and server agree on a session (C1), and hardware verifiers on the server refuse every client quote
    that came through headers (C39).

  \<^bold>\<open>How the parts meet.\<close> \<open>attest_handshake\<close> encodes its request with the codec of \<open>Attest_Codec\<close> and hands the header map
  to the transport; \<open>aths_handler\<close> decodes it, runs \<open>execute_server\<close>, stores the new session with \<open>registry_insert\<close> and encodes
  its answer, which the client decodes. C1 ties the headers the client sent to the registry the handler leaves. The
  registry's sessions are those that \<open>encrypted_json\<close>, \<open>seal_response\<close>, the streams and the WebSocket upgrade use. Quote
  verifiers enter the handshake as functions; \<open>Quote_Verifiers\<close> interprets the contract of \<open>Attestation\<close> on them.

  \<^bold>\<open>Loops and bounds.\<close> All definitions are total. Loops over data are structural recursion; the eviction of
  keys, the frame parsers and the like have a measure. The one loop whose end depends on the environment, the
  reading of a collateral body chunk by chunk, is a \<^theory_text>\<open>partial_function\<close>, and C37 proves that it returns; there is no
  fuel. Background tasks appear as single passes (rotation, clean-up, gossip, distillation) that histories may
  contain at any point. Lengths of lists stand for \<open>usize\<close>, whose overflow would need more memory than exists.

  \<^bold>\<open>What the code does not keep.\<close> Several properties and lemmas state behaviour that contradicts a comment or an
  intention: C30 (a guard forgets a ticket after two rotations), C32, C33, C34, C39 and C40, the late errors in C4, and
  lemmas such as \<open>concurrent_updates_diverge\<close>, \<open>aiql_cache_bypass\<close> or \<open>file_engine_restart_reuses_nonce\<close>.

  \<^bold>\<open>Not modelled.\<close> Secrecy against a computational adversary: authenticity appears as what was checked, not as a
  probability. Timing, zeroisation, logging and formatted error texts that only reach a log; error payloads are kept as data. Full Unicode
  case mapping: the policy engine lower-cases ASCII only. The asynchronous runtime, sockets, routers and the HTTP
  libraries. The crates that build applications on this core (mesh, a2a, mcp, llm, aiql, oracle, agent-server, ingress, grpc,
  spiffe, telemetry, identity-chain), the zero-knowledge prover, the oblivious transport and its adapters, the
  builders, the smart contracts, the language bindings and server modules, the demonstrations and tests: they call this
  core, forward to libraries and generated code, or are written in languages outside this development.
\<close>

section \<open>Client and server agree\<close>

text \<open>
  The HTTP layer between \<open>attest_handshake\<close> and \<open>aths_handler\<close> delivers header maps: the client encodes its
  request, the handler decodes it, and the client decodes what the handler encoded. Quotes
  lose their report data on the way and lifetimes are clamped; the fields below arrive unchanged.
\<close>

definition request_arrives :: "AtHsRequestHeaders \<Rightarrow> AtHsRequestHeaders \<Rightarrow> bool" where
  "request_arrives rq rq' \<longleftrightarrow>
     rq_random rq' = rq_random rq \<and> rq_key_shares_json rq' = rq_key_shares_json rq \<and>
     rq_challenge rq' = rq_challenge rq \<and> rq_encrypted_hello rq' = rq_encrypted_hello rq"

definition response_arrives :: "AtHsResponseHeaders \<Rightarrow> AtHsResponseHeaders \<Rightarrow> bool" where
  "response_arrives rs rs' \<longleftrightarrow>
     rs_cipher_suite rs' = rs_cipher_suite rs \<and> rs_random rs' = rs_random rs \<and>
     rs_key_share_json rs' = rs_key_share_json rs \<and> rs_base_id rs' = rs_base_id rs \<and> rs_version rs' = rs_version rs"

text \<open>A transport connected to a handler: a successful answer to headers is the handler's answer to these headers.\<close>

definition connected :: "AttestTransport \<Rightarrow> handler_env \<Rightarrow> AtHsHandlerState \<Rightarrow> bool" where
  "connected t H st \<longleftrightarrow>
     (\<forall>h resp. send_attest t h = Inr resp \<and> is_success (reply_status resp) \<longrightarrow>
        fst (aths_handler H st h) = Inr (reply_headers resp))"

lemma messages_arrive:
  assumes "header_lib_correct L"
  shows "encode_request L rq = Some h \<Longrightarrow> decode_request L h = Inr rq' \<Longrightarrow> request_arrives rq rq'"
    and "encode_response L rs = Some h \<Longrightarrow> decode_response L h = Inr rs' \<Longrightarrow> response_arrives rs rs'"
  unfolding request_arrives_def response_arrives_def
  by (blast intro: decoded_request_fields [OF assms] decoded_response_fields [OF assms])+

lemma handler_runs_same_handshake:
  assumes "aths_handler H st h = (Inr h', st')" "encode_request L rq = Some h" "header_lib_correct L" "he_headers H = L"
    and "rq_encrypted_hello rq = None" "client_share_json J (client_key_share_of pair) = Inr (rq_key_shares_json rq)"
    and "share_codec_correct J" "he_json H = J"
  obtains suite ver sshare res req c j where
    "rq_challenge rq = Some c" "same_handshake req (rq_random rq) pair (rq_challenge rq)"
    "execute_server (handler_hs_env H st) (executor st) req = Inr (suite, ver, sshare, res)"
    "server_share_json J sshare = Inr j" "encode_response L (handler_response st suite ver j res) = Some h'"
    "map_of (sessions (registry st')) (atb_id res) = Some (new_server_session suite ver res)"
proof -
  have nohello: "encrypted_hello_check H st rq' = Inr False" if "decode_request L h = Inr rq'" for rq'
    using messages_arrive(1) [OF assms(3,2) that] assms(5) by (simp add: request_arrives_def encrypted_hello_check_def)
  obtain rq' suite ver sshare res where srv:
    "decode_request L h = Inr rq'" "run_handshake H st rq' = Inr (suite, ver, sshare, res)"
    "live_count (registry st) < max_sessions (registry st)"
    "st' = st\<lparr>registry := snd (registry_insert (registry st) (new_server_session suite ver res))\<rparr>"
    "Inr h' = handler_answer H st suite ver sshare res"
    using assms(1,4) nohello by (cases rule: aths_handler_cases) auto
  note arr = messages_arrive(1) [OF assms(3,2) srv(1), unfolded request_arrives_def]
  obtain share c where r:
    "client_share_of_json (he_json H) (rq_key_shares_json rq') = Inr share"
    "rq_challenge rq' = Some c" "length c = 48"
    "execute_server (handler_hs_env H st) (executor st) (handler_request st rq' share c) = Inr (suite, ver, sshare, res)"
    using srv(2) by (rule run_handshake_Inr)
  have chal: "rq_challenge rq = Some c" using r(2) arr by simp
  have share: "share = client_key_share_of pair"
    using r(1) arr assms(6-8) by (auto simp: share_codec_correct_def)
  have same: "same_handshake (handler_request st rq' share c) (rq_random rq) pair (rq_challenge rq)"
    using share chal r(3) arr by (simp add: same_handshake_def handler_request_def challenge_bytes_48)
  obtain j where j: "server_share_json J sshare = Inr j" "encode_response L (handler_response st suite ver j res) = Some h'"
    using srv(5) assms(4,8) by (auto simp: handler_answer_def eq_commute [of "Inr h'"] split: sum.splits)
  have "map_of (sessions (registry st')) (atb_id res) = Some (new_server_session suite ver res)"
    using srv(3,4) by (simp add: registry_insert_def new_server_session_def session_new_def)
  with chal same r(4) j show thesis by (rule that)
qed

text \<open>
  C1. The end-to-end property of the handshake. When a client returns a session and its transport is connected to the
  handler, consider the very headers the client sent: handling them has registered
  a session on the server under the client's session identifier, with exactly the same keys and with strict replay
  protection; and the client did perform the preflight, since without it the server refuses. It
  rests on the documented behaviour of X25519, ML-KEM, the JSON codec and structured fields and on
  nothing else about the cryptographic packages.
\<close>
theorem client_and_server_share_a_session:
  assumes "attest_handshake C cl = Inr s" "cl_transport cl = Some t" "connected t H st"
    and "header_lib_correct (ce_headers C)" "he_headers H = ce_headers C"
    and "kem_correct (ce_kem C)" "same_libs C (he_hs H)"
    and "share_codec_correct (ce_json C)" "he_json H = ce_json C"
    and "\<forall>r. rng (he_hs H) = Some r \<longrightarrow> length r = 32"
  shows "cl_require_preflight cl \<and>
         (\<exists>c pair crandom h srv. client_sends C cl (Some c) pair crandom h \<and>
            map_of (sessions (registry (snd (aths_handler H st h)))) (session_id s) = Some srv \<and>
            keys srv = keys s \<and> session_id srv = session_id s \<and> replay_strategy srv = StrictMonotonic)"
proof -
  obtain challenge pair crandom h resp where c:
    "client_sends C cl challenge pair crandom h" "send_attest t h = Inr resp"
    "process_response C cl pair crandom (client_key_share_of pair) challenge resp = Inr s"
    using assms(1) by (rule attest_handshake_Inr) (use assms(2) in simp)
  obtain j qs where q: "hybrid_generate (ce_kem C) (ce_x_seed C) (ce_kem_seed C) = Inr pair"
    "client_share_json (ce_json C) (client_key_share_of pair) = Inr j"
    "encode_request (ce_headers C) (attest_request C crandom j qs challenge) = Some h"
    "cl_require_preflight cl \<or> challenge = None"
    using c(1) by (auto simp: client_sends_def split: if_splits)
  let ?rq = "attest_request C crandom j qs challenge"
  have rq: "rq_encrypted_hello ?rq = None" "rq_key_shares_json ?rq = j" "rq_random ?rq = crandom" "rq_challenge ?rq = challenge"
    by (simp_all add: attest_request_def)
  have sj: "client_share_json (ce_json C) (client_key_share_of pair) = Inr (rq_key_shares_json ?rq)" by (simp add: q(2) rq(2))
  obtain rs' where p: "is_success (reply_status resp)" "decode_response (ce_headers C) (reply_headers resp) = Inr rs'"
    using c(3) by (rule process_response_Inr)
  obtain st' where ah: "aths_handler H st h = (Inr (reply_headers resp), st')"
    using assms(3) c(2) p(1) unfolding connected_def by (metis prod.collapse)
  obtain suite ver sshare res req ch k where r:
    "rq_challenge ?rq = Some ch" "same_handshake req (rq_random ?rq) pair (rq_challenge ?rq)"
    "execute_server (handler_hs_env H st) (executor st) req = Inr (suite, ver, sshare, res)"
    "server_share_json (ce_json C) sshare = Inr k"
    "encode_response (ce_headers C) (handler_response st suite ver k res) = Some (reply_headers resp)"
    "map_of (sessions (registry st')) (atb_id res) = Some (new_server_session suite ver res)"
    using ah q(3) assms(4,5) rq(1) sj assms(8,9) by (rule handler_runs_same_handshake)
  have w: "response_arrives (handler_response st suite ver k res) rs'" using r(5) p(2) by (rule messages_arrive(2) [OF assms(4)])
  have libs: "same_libs C (handler_hs_env H st)" using assms(7) by (simp add: same_libs_def handler_hs_env_def)
  have car: "carries rs' suite ver res"
    using w by (simp add: carries_def response_arrives_def handler_response_def)
  have json: "server_share_of_json (ce_json C) (rs_key_share_json rs') = Inr sshare"
    using w r(4) assms(8) by (simp add: response_arrives_def handler_response_def share_codec_correct_def)
  have "rng (handler_hs_env H st) = Some (server_random res)" using r(3) by (rule execute_server_Inr)
  then have len: "length (server_random res) = 32" using assms(10) by (simp add: handler_hs_env_def)
  have "keys s = session_keys res" "session_id s = atb_id res"
    using c(3) process_response_agrees [OF r(3,2) libs assms(6) q(1) car len p json]
    by (auto simp: bind_result_Inr_iff session_new_def rq)
  moreover have "challenge = Some ch" using r(1) rq(4) by simp
  ultimately show ?thesis using r(6) c(1) q(4) ah
    by (intro conjI exI [of _ ch] exI [of _ pair] exI [of _ crandom] exI [of _ h] exI [of _ "new_server_session suite ver res"])
      (simp_all add: new_server_session_def session_new_def)
qed

subsection \<open>A concrete run\<close>

definition demo_wire :: AttestTransport where
  "demo_wire =
     \<lparr>send_options = Inr \<lparr>reply_status = 200, reply_body = Inr [],
        reply_headers = encode_preflight demo_header_lib \<lparr>pf_cipher_suites = [], pf_versions = [],
          pf_challenge = demo_challenge, pf_oblivious_supported = False\<rparr>\<rparr>,
      send_attest = (\<lambda>h.
        map_sum (\<lambda>_. ''refused'') (\<lambda>h'. \<lparr>reply_status = 200, reply_body = Inr [], reply_headers = h'\<rparr>)
          (fst (aths_handler demo_handler_env demo_handler_state h)))\<rparr>"

definition demo_wire_client :: OpenHttpaClient where
  "demo_wire_client = demo_client\<lparr>cl_transport := Some demo_wire, cl_require_preflight := True,
     cl_server_identity_pub := None\<rparr>"

lemma demo_wire_connected: "connected demo_wire demo_handler_env demo_handler_state"
  unfolding connected_def
proof (intro allI impI)
  fix h resp
  assume a: "send_attest demo_wire h = Inr resp \<and> is_success (reply_status resp)"
  then show "fst (aths_handler demo_handler_env demo_handler_state h) = Inr (reply_headers resp)"
    by (cases "fst (aths_handler demo_handler_env demo_handler_state h)") (auto simp: demo_wire_def)
qed

lemma demo_same_libs: "same_libs demo_client_env (he_hs demo_handler_env)"
  by (simp add: same_libs_def demo_client_env_def demo_handler_env_def)

lemma demo_wire_checks:
  assumes "rs_quotes rs \<noteq> []"
  shows "verify_pqc_server_sig demo_client_env demo_wire_client rs th = Inr ()"
    and "\<exists>a. verify_server_quotes demo_client_env demo_wire_client rs th = Inr a"
proof -
  show "verify_pqc_server_sig demo_client_env demo_wire_client rs th = Inr ()"
    by (simp add: verify_pqc_server_sig_def demo_wire_client_def)
  have "verify_each_server_quote demo_wire_client rd acc qs \<noteq> Inl e" for rd acc qs e
    by (induction qs arbitrary: acc) (auto simp: demo_wire_client_def demo_client_def)
  with assms show "\<exists>a. verify_server_quotes demo_client_env demo_wire_client rs th = Inr a"
    by (metis verify_server_quotes_def obj_sumE)
qed

lemma demo_preflight: "perform_preflight demo_client_env demo_wire_client = Inr demo_challenge"
proof -
  have "hdr_get [] ''attest-base-termination'' = None" by (simp add: hdr_get_def)
  note rt = request_and_preflight_headers_round_trip [OF demo_header_lib_correct this, THEN conjunct2]
  have "ce_headers demo_client_env = demo_header_lib" by (simp add: demo_client_env_def)
  then show ?thesis by (simp add: perform_preflight_def demo_wire_client_def demo_wire_def is_success_def rt)
qed

lemma demo_wire_handshake: "\<exists>s. attest_handshake demo_client_env demo_wire_client = Inr s"
proof -
  let ?pair = "\<lparr>ecdhe = \<lparr>private_key = [1], ecdhe_public_key = [1]\<rparr>, mlkem = \<lparr>decap_key = [2], encap_key = [2]\<rparr>\<rparr>"
  let ?C = demo_client_env and ?cl = demo_wire_client and ?share = "client_key_share_of ?pair"
  have env: "ce_kem ?C = sum_kem" "ce_x_seed ?C = [1]" "ce_kem_seed ?C = [2]" "ce_json ?C = demo_share_codec"
    "ce_rng ?C = Some (replicate 32 3)" "ce_date ?C = []" "ce_now ?C = 0" "ce_headers ?C = demo_header_lib"
    by (simp_all add: demo_client_env_def)
  have g: "hybrid_generate sum_kem [1] [2] = Inr ?pair"
    by (simp add: hybrid_generate_def generate_x25519_def mlkem_generate_def sum_kem_def)
  obtain j where j: "client_share_json demo_share_codec ?share = Inr j" by (simp add: demo_share_codec_def)
  define rq where "rq = attest_request ?C (replicate 32 3) j [] (Some demo_challenge)"
  have ok: "demo_rq_ok rq ?share"
    by (simp add: demo_rq_ok_def rq_def attest_request_def j client_key_share_of_def public_key_share_def)
      (use j in \<open>simp add: client_key_share_of_def public_key_share_def\<close>)
  have fields: "rq_encrypted_hello rq = None" "rq_random rq = replicate 32 3" "rq_key_shares_json rq = j"
    "rq_challenge rq = Some demo_challenge"
    by (simp_all add: rq_def attest_request_def)
  obtain h where h: "encode_request demo_header_lib rq = Some h" "decode_request demo_header_lib h = Inr rq"
    by (rule demo_rq_decoded [of rq]) (simp_all add: rq_def attest_request_def received_request_def env)
  obtain st' h' j0 res0 where ah: "aths_handler demo_handler_env demo_handler_state h = (Inr h', st')"
    and a0: "server_quotes res0 = [demo_quote]"
      "encode_response demo_header_lib (handler_response demo_handler_state X25519MlKem768Aes256GcmSha384 V2 j0 res0) = Some h'"
    using ok h(2) by (rule demo_aths_handler)
  have henv: "he_headers demo_handler_env = demo_header_lib" "he_json demo_handler_env = demo_share_codec"
    by (simp_all add: demo_handler_env_def)
  have sj: "client_share_json demo_share_codec ?share = Inr (rq_key_shares_json rq)" by (simp add: j fields)
  obtain suite ver sshare res req ch k where r:
    "rq_challenge rq = Some ch" "same_handshake req (rq_random rq) ?pair (rq_challenge rq)"
    "execute_server (handler_hs_env demo_handler_env demo_handler_state) (executor demo_handler_state) req =
       Inr (suite, ver, sshare, res)"
    "server_share_json demo_share_codec sshare = Inr k"
    "encode_response demo_header_lib (handler_response demo_handler_state suite ver k res) = Some h'"
    using ah h(1) demo_header_lib_correct henv(1) fields(1) sj demo_share_codec_correct henv(2)
    by (rule handler_runs_same_handshake)
  let ?rs = "handler_response demo_handler_state X25519MlKem768Aes256GcmSha384 V2 j0 res0"
    and ?resp = "\<lparr>reply_status = 200, reply_body = Inr [], reply_headers = h'\<rparr>"
  have "received_response demo_header_lib ?rs = ?rs" "\<not> is_legacy (rs_cipher_suite ?rs)"
    by (simp_all add: handler_response_def received_response_def a0(1) demo_quote_encodable demo_handler_state_def MAX_SFV_INT_def)
  then have d: "decode_response demo_header_lib h' = Inr ?rs"
    using response_headers_decoded [OF demo_header_lib_correct a0(2)] by simp
  then have dec: "decode_response (ce_headers ?C) (reply_headers ?resp) = Inr ?rs" by (simp add: env)
  have w: "response_arrives (handler_response demo_handler_state suite ver k res) ?rs"
    using r(5) d by (rule messages_arrive(2) [OF demo_header_lib_correct])
  have libs: "same_libs ?C (handler_hs_env demo_handler_env demo_handler_state)"
    using demo_same_libs by (simp add: same_libs_def handler_hs_env_def)
  have car: "carries ?rs suite ver res" using w by (simp add: carries_def response_arrives_def handler_response_def)
  have json: "server_share_of_json (ce_json ?C) (rs_key_share_json ?rs) = Inr sshare"
    using w demo_share_codec_correct r(4)
    by (simp add: env response_arrives_def handler_response_def share_codec_correct_def)
  have "rng (handler_hs_env demo_handler_env demo_handler_state) = Some (server_random res)"
    using r(3) by (rule execute_server_Inr)
  then have "server_random res = replicate 32 8" by (simp add: handler_hs_env_def demo_handler_env_def)
  then have len: "length (server_random res) = 32" by simp
  have kc: "kem_correct (ce_kem ?C)" by (simp add: env sum_kem_correct)
  have gen: "hybrid_generate (ce_kem ?C) [1] [2] = Inr ?pair" by (simp add: env g)
  have st: "is_success (reply_status ?resp)" by (simp add: is_success_def)
  have t: "instant_add 0 (rs_expires_secs ?rs) = Some 60"
    by (simp add: instant_add_def handler_response_def demo_handler_state_def)
  have "rs_quotes ?rs \<noteq> []" by (simp add: handler_response_def a0(1))
  note chk = demo_wire_checks [OF this]
  obtain a where a: "verify_server_quotes ?C ?cl ?rs (hs_transcript_hash res) = Inr a" using chk(2) by blast
  have "\<exists>s. process_response ?C ?cl ?pair (replicate 32 3) ?share (rq_challenge rq) ?resp = Inr s"
    using process_response_agrees [OF r(3,2) libs kc gen car len st dec json, of ?cl] chk(1) a t
    by (simp add: fields env)
  moreover have "send_attest demo_wire h = Inr ?resp" by (simp add: demo_wire_def ah)
  ultimately show ?thesis
    using g j h(1) demo_preflight
    by (simp add: attest_handshake_def env generate_client_quote_def send_attest_request_def rq_def [symmetric] fields
        demo_wire_client_def demo_client_def)
qed

theorem client_and_server_share_a_session_witness:
  "\<exists>s c pair crandom h srv. attest_handshake demo_client_env demo_wire_client = Inr s \<and>
     client_sends demo_client_env demo_wire_client (Some c) pair crandom h \<and>
     map_of (sessions (registry (snd (aths_handler demo_handler_env demo_handler_state h)))) (session_id s) = Some srv \<and>
     keys srv = keys s"
proof -
  obtain s where s: "attest_handshake demo_client_env demo_wire_client = Inr s" using demo_wire_handshake by blast
  have t: "cl_transport demo_wire_client = Some demo_wire" by (simp add: demo_wire_client_def)
  have hl: "header_lib_correct (ce_headers demo_client_env)" by (simp add: demo_client_env_def demo_header_lib_correct)
  have he: "he_headers demo_handler_env = ce_headers demo_client_env" by (simp add: demo_client_env_def demo_handler_env_def)
  have kc: "kem_correct (ce_kem demo_client_env)" by (simp add: demo_client_env_def sum_kem_correct)
  have jc: "share_codec_correct (ce_json demo_client_env)" by (simp add: demo_client_env_def demo_share_codec_correct)
  have j: "he_json demo_handler_env = ce_json demo_client_env"
    by (simp add: demo_client_env_def demo_handler_env_def)
  have rn: "\<forall>r. rng (he_hs demo_handler_env) = Some r \<longrightarrow> length r = 32" by (simp add: demo_handler_env_def)
  from client_and_server_share_a_session [OF s t demo_wire_connected hl he kc demo_same_libs jc j rn] s
  show ?thesis by blast
qed

section \<open>Client quotes that arrive through headers\<close>

text \<open>
  The header codec drops a quote's own copy of the report data. The client puts it back before it
  verifies the server's quotes; the server does not, so the hardware verifiers refuse every client
  quote that came through headers.
\<close>

definition hardware_verifier ::
    "(string \<times> string \<times> string) \<Rightarrow> bool \<Rightarrow> (QuoteType \<Rightarrow> string) \<Rightarrow> hcl_lib \<Rightarrow> ('rep, 'chain, 'cert) sev_lib \<Rightarrow> SevSnpVerifier \<Rightarrow>
     ('status, 'coll) dcap_lib \<Rightarrow> u64 option \<Rightarrow> TdxDcapVerifier \<Rightarrow> bool \<Rightarrow> AttestQuote \<Rightarrow> bytes \<Rightarrow> string + VerificationResult" where
  "hardware_verifier ks amd_snp dbg A S sv Q clock tv mock_debug q rd =
     map_err show_attest_error (composite_verify \<lparr>cv_verifiers = [(fst ks, snp_verify amd_snp dbg A S sv),
       (fst (snd ks), tdx_verify dbg A Q clock tv), (snd (snd ks), nvidia_gpu_verify mock_debug)], strict_mode = True\<rparr> q rd)"

lemma decoded_quotes_lack_report_data:
  assumes "decode_request L h = Inr rq" "q \<in> set (rq_client_quotes rq)"
  shows "qudd q = []"
proof -
  have none: "qudd q = []" if "decode_quote e = Some q" for e
    using that by (auto simp: decode_quote_def split: ListEntry.splits list.splits)
  from assms(1) have "decode_quotes_sfv L h ''attest-quotes'' = Inr (rq_client_quotes rq)"
    by (cases "decode_policies_sfv L h ''attest-policies''")
      (auto simp: decode_request_def bind_result_Inr_iff Let_def split: if_splits)
  with assms(2) obtain l where "List.map_filter decode_quote l = rq_client_quotes rq"
    by (auto simp: decode_quotes_sfv_def Let_def bind_result_Inr_iff split: if_splits)
  with assms(2) have "q \<in> set (List.map_filter decode_quote l)" by simp
  then obtain e where "decode_quote e = Some q" by (auto simp: List.map_filter_def)
  then show ?thesis by (rule none)
qed

text \<open>
  C39. A server whose verifier is the composite of the SEV-SNP, TDX and GPU verifiers establishes no session
  with a client that sends any quote: the decoded quote lacks the copy of the report data every one of
  these verifiers compares first, so the handler answers with an error (or with a cover response)
  and its state is unchanged, whatever the quote says.
\<close>
theorem server_refuses_hardware_client_quotes:
  assumes "decode_request (he_headers H) h = Inr rq" and "rq_client_quotes rq \<noteq> []"
    and "h_verifier st = Some (hardware_verifier ks amd_snp dbg A S sv Q clock tv mock_debug)"
    and "\<And>m. sha512 (hashes (he_hs H)) m \<noteq> []"
  shows "\<exists>r. aths_handler H st h = (r, st) \<and>
           (\<forall>h'. r = Inr h' \<longrightarrow> encode_response (he_headers H) (cover_response (he_cover_id H)) = Some h')"
proof -
  obtain r st' where run: "aths_handler H st h = (r, st')" by (rule prod.exhaust)
  from run show ?thesis
  proof (cases rule: aths_handler_cases)
    case (3 rq' suite ver sshare res)
    from 3(3) obtain share c where
      ex: "execute_server (handler_hs_env H st) (executor st) (handler_request st rq share c) = Inr (suite, ver, sshare, res)"
      using 3(1) assms(1) by (auto elim: run_handshake_Inr)
    let ?req = "handler_request st rq share c" and ?D = "hashes (he_hs H)"
    from ex have v: "verify_client_quotes ?D (executor st) ?req (h_verifier st) (unix_now (he_hs H)) = Inr (client_attestation_result res)"
      by (rule execute_server_Inr) (simp add: handler_hs_env_def)
    obtain q where q: "q \<in> set (client_quotes ?req)" using assms(2) by (cases "rq_client_quotes rq") (auto simp: handler_request_def)
    have "qudd q \<noteq> client_report_data ?D ?req"
    proof -
      have "qudd q = []" using decoded_quotes_lack_report_data [OF assms(1)] q by (simp add: handler_request_def)
      then show ?thesis unfolding client_report_data_def using assms(4) by metis
    qed
    have fn: "hardware_verifier ks amd_snp dbg A S sv Q clock tv mock_debug = (\<lambda>q rd. map_err show_attest_error
        (composite_verify \<lparr>cv_verifiers = [(fst ks, snp_verify amd_snp dbg A S sv), (fst (snd ks), tdx_verify dbg A Q clock tv),
           (snd (snd ks), nvidia_gpu_verify mock_debug)], strict_mode = True\<rparr> q rd))"
      by (simp add: fun_eq_iff hardware_verifier_def)
    from hardware_composite.stripped_quotes_rejected [OF q \<open>qudd q \<noteq> _\<close>] v show ?thesis
      unfolding assms(3) fn by (metis Inr_Inl_False)
  qed (use run in auto)
qed

definition demo_hardware_state :: AtHsHandlerState where
  "demo_hardware_state = demo_handler_state\<lparr>h_verifier := Some (hardware_verifier (''sev_snp'', ''tdx'', ''nvidia_gpu'')
     True (\<lambda>_. []) demo_hcl demo_sev demo_snp_verifier demo_dcap (Some 1000) (tdx_verifier_new (cloud_host [[1]])) False)\<rparr>"

theorem server_refuses_hardware_client_quotes_witness:
  "\<exists>h rq. decode_request demo_header_lib h = Inr rq \<and> map quote_type (rq_client_quotes rq) = [Tdx] \<and>
     snd (aths_handler demo_handler_env demo_hardware_state h) = demo_hardware_state"
proof -
  let ?rq = demo_request_headers and ?rq' = "received_request demo_header_lib demo_request_headers"
  have quotes: "rq_client_quotes ?rq = [demo_quote_of Tdx]" by (simp add: demo_request_headers_def)
  have "list_all quote_encodable (rq_client_quotes ?rq)" using demo_quotes_encodable by (simp add: quotes)
  then obtain h where h: "encode_request demo_header_lib ?rq = Some h"
    using encode_request_None [OF demo_header_lib_correct, of ?rq] by (cases "encode_request demo_header_lib ?rq") auto
  have "list_all visible (str_bytes (rq_date ?rq))" "rq_versions ?rq \<noteq> []" "rq_cipher_suites ?rq' \<noteq> []"
    by (simp_all add: demo_request_headers_def visible_def str_bytes_def received_request_def demo_header_lib_def)
  then have d: "decode_request demo_header_lib h = Inr ?rq'"
    using request_headers_decoded [OF demo_header_lib_correct h] by simp
  then have d': "decode_request (he_headers demo_handler_env) h = Inr ?rq'" by (simp add: demo_handler_env_def)
  have t: "map quote_type (rq_client_quotes ?rq') = [Tdx]"
    by (simp add: received_request_def quotes received_quote_def demo_quote_of_def parse_quote_type_def)
  then have ne: "rq_client_quotes ?rq' \<noteq> []" by auto
  have sha: "sha512 (hashes (he_hs demo_handler_env)) m \<noteq> []" for m by (simp add: demo_handler_env_def)
  have v: "h_verifier demo_hardware_state = Some (hardware_verifier (''sev_snp'', ''tdx'', ''nvidia_gpu'')
     True (\<lambda>_. []) demo_hcl demo_sev demo_snp_verifier demo_dcap (Some 1000) (tdx_verifier_new (cloud_host [[1]])) False)"
    by (simp add: demo_hardware_state_def)
  obtain r where "aths_handler demo_handler_env demo_hardware_state h = (r, demo_hardware_state)"
    using server_refuses_hardware_client_quotes [OF d' ne v sha] by blast
  then have "snd (aths_handler demo_handler_env demo_hardware_state h) = demo_hardware_state" by simp
  with d t show ?thesis by (intro exI [of _ h] exI [of _ ?rq'] conjI)
qed

end
